(* ===== verification/Prelude.thy ===== *)
theory Prelude
  imports
    Complex_Main
    "HOL-Library.AList"
    "HOL-Library.Char_ord"
    "HOL-Library.List_Lexorder"
    "HOL-Library.Sublist"
begin

text \<open>
  Shared vocabulary of the development: Python strings, rounding, dictionaries and JSON
  values, with the generic lemmas the component theories use.

  A Python \<open>str\<close> is a HOL \<open>string\<close>; case folding is ASCII case folding. A Python
  \<open>dict\<close> is an association list in insertion order: \<open>map_of d k\<close> reads it,
  \<open>AList.update k v d\<close> is \<open>d[k] = v\<close>, \<open>AList.delete k d\<close> is
  \<open>d.pop(k, None)\<close>. A Python \<open>float\<close> is an exact rational number; the code only
  adds, scales and rounds small decimal values.
\<close>

named_theorems bound_intros \<open>introduction rules for range facts of scores and confidences\<close>

section \<open>Strings\<close>

definition lower_char :: "char \<Rightarrow> char" where
  "lower_char c = (if 65 \<le> (of_char c :: nat) \<and> (of_char c :: nat) \<le> 90
     then char_of ((of_char c :: nat) + 32) else c)"

definition upper_char :: "char \<Rightarrow> char" where
  "upper_char c = (if 97 \<le> (of_char c :: nat) \<and> (of_char c :: nat) \<le> 122
     then char_of ((of_char c :: nat) - 32) else c)"

definition lower :: "string \<Rightarrow> string" where
  "lower s = map lower_char s"

definition upper :: "string \<Rightarrow> string" where
  "upper s = map upper_char s"

lemma lower_char_idem [simp]: "lower_char (lower_char c) = lower_char c"
  by (auto simp: lower_char_def)

lemma lower_idem [simp]: "lower (lower s) = lower s"
  by (simp add: lower_def)

lemma lower_Nil [simp]: "lower [] = []"
  by (simp add: lower_def)

lemma lower_eq_Nil [simp]: "lower s = [] \<longleftrightarrow> s = []"
  by (simp add: lower_def)

lemma lower_append [simp]: "lower (s @ t) = lower s @ lower t"
  by (simp add: lower_def)

lemma length_lower [simp]: "length (lower s) = length s"
  by (simp add: lower_def)

text \<open>Python's ASCII white space: tab to carriage return, the four separators, and space.\<close>

definition is_space :: "char \<Rightarrow> bool" where
  "is_space c \<longleftrightarrow> (let n = (of_char c :: nat) in (9 \<le> n \<and> n \<le> 13) \<or> (28 \<le> n \<and> n \<le> 32))"

definition lstrip :: "string \<Rightarrow> string" where
  "lstrip s = dropWhile is_space s"

definition rstrip :: "string \<Rightarrow> string" where
  "rstrip s = rev (dropWhile is_space (rev s))"

definition strip :: "string \<Rightarrow> string" where
  "strip s = rstrip (lstrip s)"

lemma length_strip_le: "length (strip s) \<le> length s"
  unfolding strip_def rstrip_def lstrip_def
  by (metis length_dropWhile_le length_rev le_trans)

fun join :: "string \<Rightarrow> string list \<Rightarrow> string" where
  "join sep [] = []"
| "join sep [x] = x"
| "join sep (x # y # xs) = x @ sep @ join sep (y # xs)"

text \<open>\<open>s.split(c, 1)\<close>: the part before the first separator, and the rest if there is one.\<close>

definition before :: "char \<Rightarrow> string \<Rightarrow> string" where
  "before c s = takeWhile (\<lambda>d. d \<noteq> c) s"

abbreviation newline :: char where "newline \<equiv> CHR 0x0A"

text \<open>\<open>s.split(c)\<close>.\<close>

fun split_on :: "char \<Rightarrow> string \<Rightarrow> string list" where
  "split_on c [] = [[]]"
| "split_on c (x # xs) = (if x = c then [] # split_on c xs
     else (case split_on c xs of [] \<Rightarrow> [[x]] | p # ps \<Rightarrow> (x # p) # ps))"

text \<open>\<open>s.split()\<close>: the maximal runs of characters that are not white space.\<close>

fun words_acc :: "string \<Rightarrow> string \<Rightarrow> string list" where
  "words_acc acc [] = (if acc = [] then [] else [rev acc])"
| "words_acc acc (c # s) = (if is_space c then (if acc = [] then words_acc [] s else rev acc # words_acc [] s)
     else words_acc (c # acc) s)"

definition digit_char :: "nat \<Rightarrow> char" where
  "digit_char n = char_of (48 + n)"

fun nat_str :: "nat \<Rightarrow> string" where
  "nat_str n = (if n < 10 then [digit_char n] else nat_str (n div 10) @ [digit_char (n mod 10)])"

declare nat_str.simps [simp del]

definition is_digit :: "char \<Rightarrow> bool" where
  "is_digit c \<longleftrightarrow> (let n = (of_char c :: nat) in 48 \<le> n \<and> n \<le> 57)"

definition digits_value :: "string \<Rightarrow> nat" where
  "digits_value s = foldl (\<lambda>a c. 10 * a + (of_char c - 48)) 0 s"

definition parse_nat :: "string \<Rightarrow> nat option" where
  "parse_nat s = (if s \<noteq> [] \<and> list_all is_digit s then Some (digits_value s) else None)"

definition split_sign :: "string \<Rightarrow> bool \<times> string" where
  "split_sign s = (case s of
     [] \<Rightarrow> (False, [])
   | c # cs \<Rightarrow> if c = CHR ''-'' then (True, cs) else if c = CHR ''+'' then (False, cs) else (False, s))"

text \<open>\<open>int(s)\<close> and \<open>float(s)\<close> of a decimal literal; \<open>None\<close> is the \<open>ValueError\<close>.\<close>

definition parse_int :: "string \<Rightarrow> int option" where
  "parse_int s = (let (neg, u) = split_sign (strip s) in
     map_option (\<lambda>n. if neg then - int n else int n) (parse_nat u))"

definition parse_float :: "string \<Rightarrow> rat option" where
  "parse_float s = (let (neg, u) = split_sign (strip s);
     not_exp = (\<lambda>c. c \<noteq> CHR ''e'' \<and> c \<noteq> CHR ''E'');
     mant = takeWhile not_exp u; ex = dropWhile not_exp u;
     ip = takeWhile (\<lambda>c. c \<noteq> CHR ''.'') mant; fp = tl (dropWhile (\<lambda>c. c \<noteq> CHR ''.'') mant);
     e = (if ex = [] then Some 0
          else (let (eneg, ed) = split_sign (tl ex) in map_option (\<lambda>n. if eneg then - int n else int n) (parse_nat ed)))
     in (case (parse_nat (ip @ fp), e) of
       (Some v, Some k) \<Rightarrow>
         Some ((if neg then - 1 else 1) * of_nat v / 10 ^ length fp *
           (if 0 \<le> k then 10 ^ nat k else 1 / 10 ^ nat (- k)))
     | _ \<Rightarrow> None))"

definition int_str :: "int \<Rightarrow> string" where
  "int_str i = (if i < 0 then CHR ''-'' # nat_str (nat (- i)) else nat_str (nat i))"

lemma nat_str_nonempty [simp]: "nat_str n \<noteq> []"
  by (subst nat_str.simps) simp

lemma of_char_digit: "d < 10 \<Longrightarrow> (of_char (digit_char d) :: nat) = 48 + d"
  by (simp add: digit_char_def)

lemma is_digit_digit_char: "d < 10 \<Longrightarrow> is_digit (digit_char d)"
  by (simp add: is_digit_def of_char_digit)

lemma nat_str_digits: "list_all is_digit (nat_str n)"
proof (induction n rule: nat_str.induct)
  case (1 n)
  then show ?case
    by (subst nat_str.simps) (auto simp: is_digit_digit_char)
qed

lemma digits_value_nat_str: "digits_value (nat_str n) = n"
proof (induction n rule: nat_str.induct)
  case (1 n)
  then show ?case
    by (subst nat_str.simps) (auto simp: digits_value_def of_char_digit)
qed

lemma parse_nat_str [simp]: "parse_nat (nat_str n) = Some n"
  by (simp add: parse_nat_def nat_str_digits digits_value_nat_str)

text \<open>The em dash of the source's messages, as its UTF-8 bytes.\<close>

definition em_dash :: string where
  "em_dash = [char_of (226 :: nat), char_of (128 :: nat), char_of (148 :: nat)]"

section \<open>Rounding\<close>

text \<open>Python's \<open>round\<close>: to the nearest integer, ties to even; and \<open>round(x, n)\<close>.\<close>

definition py_round :: "rat \<Rightarrow> int" where
  "py_round x = (let f = \<lfloor>x\<rfloor>; d = x - of_int f in
     if d < 1/2 then f else if 1/2 < d then f + 1 else if even f then f else f + 1)"

definition py_round_to :: "nat \<Rightarrow> rat \<Rightarrow> rat" where
  "py_round_to n x = of_int (py_round (x * 10 ^ n)) / 10 ^ n"

lemma py_round_of_int [simp]: "py_round (of_int k) = k"
  by (simp add: py_round_def)

lemma py_round_zero [simp]: "py_round 0 = 0"
  using py_round_of_int [of 0] by simp

lemma py_round_bounds: "x - 1/2 \<le> of_int (py_round x)" "of_int (py_round x) \<le> x + 1/2"
proof -
  define d where "d = x - of_int \<lfloor>x\<rfloor>"
  have x: "x = of_int \<lfloor>x\<rfloor> + d" by (simp add: d_def)
  have d: "0 \<le> d" "d < 1" by (simp_all add: d_def, linarith)
  have r: "py_round x = (if d < 1/2 then \<lfloor>x\<rfloor> else if 1/2 < d then \<lfloor>x\<rfloor> + 1
      else if even \<lfloor>x\<rfloor> then \<lfloor>x\<rfloor> else \<lfloor>x\<rfloor> + 1)"
    by (simp add: py_round_def d_def Let_def)
  show "x - 1/2 \<le> of_int (py_round x)" unfolding r using x d by auto
  show "of_int (py_round x) \<le> x + 1/2" unfolding r using x d by auto
qed

lemma py_round_ge_int: "of_int k \<le> x \<Longrightarrow> k \<le> py_round x"
proof -
  assume "of_int k \<le> x"
  then have "(of_int k :: rat) < of_int (py_round x) + 1" using py_round_bounds(1) [of x] by linarith
  then have "(of_int k :: rat) < of_int (py_round x + 1)" by simp
  then show ?thesis unfolding of_int_less_iff by simp
qed

lemma py_round_le_int: "x \<le> of_int k \<Longrightarrow> py_round x \<le> k"
proof -
  assume "x \<le> of_int k"
  then have "(of_int (py_round x) :: rat) < of_int k + 1" using py_round_bounds(2) [of x] by linarith
  then have "(of_int (py_round x) :: rat) < of_int (k + 1)" by simp
  then show ?thesis unfolding of_int_less_iff by simp
qed

lemma py_round_mono: "x \<le> y \<Longrightarrow> py_round x \<le> py_round y"
proof -
  assume le: "x \<le> y"
  show "py_round x \<le> py_round y"
  proof (cases "\<lfloor>x\<rfloor> = \<lfloor>y\<rfloor>")
    case True
    with le show ?thesis by (auto simp: py_round_def Let_def)
  next
    case False
    with le have "\<lfloor>x\<rfloor> + 1 \<le> \<lfloor>y\<rfloor>" using floor_mono [of x y] by linarith
    then have "x \<le> of_int (\<lfloor>x\<rfloor> + 1)" "of_int (\<lfloor>x\<rfloor> + 1) \<le> y" by linarith+
    then show ?thesis using py_round_le_int py_round_ge_int by (meson order_trans)
  qed
qed

lemma py_round_to_mono: "x \<le> y \<Longrightarrow> py_round_to n x \<le> py_round_to n y"
  by (simp add: py_round_to_def divide_right_mono py_round_mono)

lemma py_round_to_of_int [simp]: "py_round_to n (of_int k) = of_int k"
proof -
  have "(of_int k :: rat) * 10 ^ n = of_int (k * 10 ^ n)" by simp
  then have "py_round (of_int k * 10 ^ n) = k * 10 ^ n" by (metis py_round_of_int)
  then show ?thesis by (simp add: py_round_to_def)
qed

lemma py_round_to_0 [simp]: "py_round_to n 0 = 0"
  using py_round_to_of_int [of n 0] by simp

lemma py_round_to_1 [simp]: "py_round_to n 1 = 1"
  using py_round_to_of_int [of n 1] by simp

lemma py_round_to_unit [bound_intros]:
  assumes "0 \<le> x" "x \<le> 1"
  shows "0 \<le> py_round_to n x" "py_round_to n x \<le> 1"
  using py_round_to_mono [OF assms(1), of n] py_round_to_mono [OF assms(2), of n] by simp_all

text \<open>
  The score normalisation both scoring engines use:
  \<open>round(max(0.0, min(1.0, raw / MAX)), 4)\<close>.
\<close>

definition unit_score :: "rat \<Rightarrow> rat \<Rightarrow> rat" where
  "unit_score mx raw = py_round_to 4 (max 0 (min 1 (raw / mx)))"

lemma unit_score_range [bound_intros]: "0 \<le> unit_score mx raw" "unit_score mx raw \<le> 1"
  unfolding unit_score_def by (intro py_round_to_unit; simp)+

lemma unit_score_mono: "0 < mx \<Longrightarrow> r \<le> r' \<Longrightarrow> unit_score mx r \<le> unit_score mx r'"
  unfolding unit_score_def
  by (intro py_round_to_mono max.mono min.mono order_refl divide_right_mono) simp_all

lemma unit_score_full: "0 < mx \<Longrightarrow> mx \<le> r \<Longrightarrow> unit_score mx r = 1"
  by (simp add: unit_score_def min_def)

lemma unit_score_nonpos: "0 < mx \<Longrightarrow> r \<le> 0 \<Longrightarrow> unit_score mx r = 0"
  by (simp add: unit_score_def min_def max_def divide_le_0_iff field_simps)

text \<open>\<open>int(x)\<close>: towards zero.\<close>

definition py_trunc :: "rat \<Rightarrow> int" where
  "py_trunc x = (if 0 \<le> x then \<lfloor>x\<rfloor> else - \<lfloor>- x\<rfloor>)"

section \<open>Lists and dictionaries\<close>

definition dict_get :: "'v \<Rightarrow> ('k \<times> 'v) list \<Rightarrow> 'k \<Rightarrow> 'v" where
  "dict_get d m k = (case map_of m k of None \<Rightarrow> d | Some v \<Rightarrow> v)"

lemma dict_get_Nil [simp]: "dict_get d [] k = d"
  by (simp add: dict_get_def)

lemma dict_get_update [simp]:
  "dict_get d (AList.update k v m) j = (if j = k then v else dict_get d m j)"
  by (auto simp: dict_get_def AList.update_conv')

lemma map_of_update [simp]:
  "map_of (AList.update k v m) j = (if j = k then Some v else map_of m j)"
  by (simp add: AList.update_conv')

lemma map_of_delete [simp]:
  "map_of (AList.delete k m) j = (if j = k then None else map_of m j)"
  by (simp add: AList.delete_conv')

lemma dom_update [simp]: "fst ` set (AList.update k v m) = insert k (fst ` set m)"
  by (simp add: AList.dom_update)

fun dedup_sorted :: "'a list \<Rightarrow> 'a list" where
  "dedup_sorted [] = []"
| "dedup_sorted [x] = [x]"
| "dedup_sorted (x # y # xs) = (if x = y then dedup_sorted (y # xs) else x # dedup_sorted (y # xs))"

text \<open>\<open>sorted({...})\<close>: the distinct elements in increasing order.\<close>

definition sorted_set :: "('a :: linorder) list \<Rightarrow> 'a list" where
  "sorted_set xs = dedup_sorted (sort xs)"

lemma set_dedup_sorted [simp]: "set (dedup_sorted xs) = set xs"
  by (induction xs rule: dedup_sorted.induct) auto

lemma sorted_dedup_sorted: "sorted xs \<Longrightarrow> sorted (dedup_sorted xs) \<and> distinct (dedup_sorted xs)"
proof (induction xs rule: dedup_sorted.induct)
  case (3 x y xs)
  then show ?case by (cases "x = y") (fastforce simp: less_le)+
qed simp_all

lemma set_sorted_set [simp]: "set (sorted_set xs) = set xs"
  by (simp add: sorted_set_def)

lemma sorted_sorted_set [simp]: "sorted (sorted_set xs)" "distinct (sorted_set xs)"
  using sorted_dedup_sorted [of "sort xs"] by (simp_all add: sorted_set_def)

lemma sorted_set_cong: "set xs = set ys \<Longrightarrow> sorted_set xs = sorted_set ys"
  by (simp add: sorted_distinct_set_unique)

lemma filter_single:
  "distinct xs \<Longrightarrow> x \<in> set xs \<Longrightarrow> P x \<Longrightarrow> (\<And>y. y \<in> set xs \<Longrightarrow> P y \<Longrightarrow> y = x) \<Longrightarrow> filter P xs = [x]"
proof (induction xs)
  case (Cons z zs)
  show ?case
  proof (cases "z = x")
    case True
    have "\<not> P y" if "y \<in> set zs" for y
      using Cons.prems(1) Cons.prems(4) [of y] that True by fastforce
    then have "filter P zs = []" unfolding filter_empty_conv by blast
    then show ?thesis using True Cons.prems(3) by simp
  next
    case False
    then have "\<not> P z" using Cons.prems(4) [of z] by fastforce
    moreover have "filter P zs = [x]" using Cons.prems False by (intro Cons.IH) simp_all
    ultimately show ?thesis by simp
  qed
qed simp

text \<open>\<open>order_by(...).first()\<close>: the first row in the order of a key.\<close>

definition first_by :: "('a \<Rightarrow> 'k :: linorder) \<Rightarrow> 'a list \<Rightarrow> 'a option" where
  "first_by key xs = (case sort_key key xs of [] \<Rightarrow> None | x # _ \<Rightarrow> Some x)"

lemma first_by_None [simp]: "first_by key xs = None \<longleftrightarrow> xs = []"
proof -
  have "sort_key key xs = [] \<longleftrightarrow> xs = []" by (metis set_empty set_sort)
  then show ?thesis by (cases "sort_key key xs") (auto simp: first_by_def)
qed

lemma first_by_Nil [simp]: "first_by key [] = None"
  by simp

lemma first_by_Some:
  assumes "first_by key xs = Some x"
  shows "x \<in> set xs" and "\<And>y. y \<in> set xs \<Longrightarrow> key x \<le> key y"
proof -
  obtain r where r: "sort_key key xs = x # r"
    using assms by (auto simp: first_by_def split: list.splits)
  have s: "set xs = insert x (set r)" using r by (metis list.simps(15) set_sort)
  then show "x \<in> set xs" by simp
  have "sorted (map key (x # r))" using r by (metis sorted_sort_key)
  then show "key x \<le> key y" if "y \<in> set xs" for y using that s by auto
qed

section \<open>JSON values\<close>

text \<open>
  The values of a decoded JSON document, and of the JSON columns of the database.
\<close>

datatype json = JNull | JBool bool | JInt int | JFloat rat | JStr string
  | JList "json list" | JObj "(string \<times> json) list"

type_synonym jdict = "(string \<times> json) list"

fun truthy :: "json \<Rightarrow> bool" where
  "truthy JNull = False"
| "truthy (JBool b) = b"
| "truthy (JInt i) = (i \<noteq> 0)"
| "truthy (JFloat x) = (x \<noteq> 0)"
| "truthy (JStr s) = (s \<noteq> [])"
| "truthy (JList xs) = (xs \<noteq> [])"
| "truthy (JObj kvs) = (kvs \<noteq> [])"

definition jget :: "jdict \<Rightarrow> string \<Rightarrow> json" where
  "jget d k = dict_get JNull d k"

definition jor :: "json \<Rightarrow> json \<Rightarrow> json" where
  "jor a b = (if truthy a then a else b)"

text \<open>\<open>repr\<close> of a string: quotes, and the backslash escapes of ASCII text.\<close>

definition hex_char :: "nat \<Rightarrow> char" where
  "hex_char n = (if n < 10 then char_of (48 + n) else char_of (87 + n))"

definition repr_char :: "char \<Rightarrow> char \<Rightarrow> string" where
  "repr_char q c = (let n = (of_char c :: nat) in
     if c = q \<or> n = 92 then [char_of (92 :: nat), c]
     else if n = 10 then [char_of (92 :: nat), CHR ''n'']
     else if n = 13 then [char_of (92 :: nat), CHR ''r'']
     else if n = 9 then [char_of (92 :: nat), CHR ''t'']
     else if n < 32 \<or> n = 127
       then [char_of (92 :: nat), CHR ''x'', hex_char (n div 16), hex_char (n mod 16)]
     else [c])"

definition str_repr :: "string \<Rightarrow> string" where
  "str_repr s = (let sq = char_of (39 :: nat); dq = char_of (34 :: nat);
     q = (if sq \<in> set s \<and> dq \<notin> set s then dq else sq)
     in [q] @ concat (map (repr_char q) s) @ [q])"

text \<open>
  \<open>repr\<close> of a float in positional notation: the decimal digits up to the seventeenth
  place, without trailing zeros, and at least one digit after the point.
\<close>

definition rstrip_zeros :: "string \<Rightarrow> string" where
  "rstrip_zeros s = rev (dropWhile (\<lambda>c. c = CHR ''0'') (rev s))"

definition zero_pad :: "nat \<Rightarrow> string \<Rightarrow> string" where
  "zero_pad w s = replicate (w - length s) (CHR ''0'') @ s"

definition float_str :: "rat \<Rightarrow> string" where
  "float_str x = (let a = \<bar>x\<bar>; ip = \<lfloor>a\<rfloor>; fp = py_round ((a - of_int ip) * 10 ^ 17);
     ds = rstrip_zeros (zero_pad 17 (nat_str (nat fp)))
     in (if x < 0 then ''-'' else []) @ nat_str (nat ip) @ ''.'' @ (if ds = [] then ''0'' else ds))"

fun py_repr :: "json \<Rightarrow> string" where
  "py_repr JNull = ''None''"
| "py_repr (JBool b) = (if b then ''True'' else ''False'')"
| "py_repr (JInt i) = int_str i"
| "py_repr (JFloat x) = float_str x"
| "py_repr (JStr s) = str_repr s"
| "py_repr (JList xs) = ''['' @ join '', '' (map py_repr xs) @ '']''"
| "py_repr (JObj kvs) = ''{'' @ join '', '' (map (\<lambda>(k, v). str_repr k @ '': '' @ py_repr v) kvs) @ ''}''"

fun py_str :: "json \<Rightarrow> string" where
  "py_str (JStr s) = s"
| "py_str v = py_repr v"

text \<open>\<open>float(v)\<close>; \<open>None\<close> is the \<open>TypeError\<close> or \<open>ValueError\<close>.\<close>

fun py_float :: "json \<Rightarrow> rat option" where
  "py_float (JBool b) = Some (if b then 1 else 0)"
| "py_float (JInt i) = Some (of_int i)"
| "py_float (JFloat x) = Some x"
| "py_float (JStr s) = parse_float s"
| "py_float _ = None"

text \<open>The idiom \<open>str(d.get(k) or default)\<close>.\<close>

definition str_or :: "jdict \<Rightarrow> string \<Rightarrow> string \<Rightarrow> string" where
  "str_or d k dflt = py_str (jor (jget d k) (JStr dflt))"

lemma str_or_JStr: "map_of d k = Some (JStr s) \<Longrightarrow> str_or d k dflt = (if s = [] then dflt else s)"
  by (simp add: str_or_def jget_def dict_get_def jor_def)

lemma str_or_None: "map_of d k = None \<Longrightarrow> str_or d k dflt = dflt"
  by (simp add: str_or_def jget_def dict_get_def jor_def)

lemmas str_or_simps = str_or_JStr str_or_None

section \<open>Exceptions\<close>

text \<open>A result that may be an exception: \<open>Inl\<close> is the exception, \<open>Inr\<close> the value.\<close>

datatype exn = Exn string string  \<comment> \<open>class name and message\<close>

definition attr_error :: "exn" where
  "attr_error = Exn ''AttributeError'' ''object has no attribute get''"

definition type_error :: "exn" where
  "type_error = Exn ''TypeError'' ''unhashable or not iterable''"

fun as_obj :: "json \<Rightarrow> exn + jdict" where
  "as_obj (JObj d) = Inr d"
| "as_obj _ = Inl attr_error"

fun iter_json :: "json \<Rightarrow> exn + json list" where
  "iter_json (JList xs) = Inr xs"
| "iter_json (JStr s) = Inr (map (\<lambda>c. JStr [c]) s)"
| "iter_json (JObj d) = Inr (map (\<lambda>(k, _). JStr k) d)"
| "iter_json _ = Inl type_error"

definition bind_sum :: "'e + 'a \<Rightarrow> ('a \<Rightarrow> 'e + 'b) \<Rightarrow> 'e + 'b" where
  "bind_sum m f = (case m of Inl e \<Rightarrow> Inl e | Inr a \<Rightarrow> f a)"

lemma bind_sum_Inr [simp]: "bind_sum (Inr a) f = f a"
  and bind_sum_Inl [simp]: "bind_sum (Inl e) f = Inl e"
  by (simp_all add: bind_sum_def)

lemma bind_sum_eq_Inr: "bind_sum m f = Inr b \<longleftrightarrow> (\<exists>a. m = Inr a \<and> f a = Inr b)"
  by (cases m) simp_all

lemma bind_sum_eq_Inl: "bind_sum m f = Inl e \<longleftrightarrow> m = Inl e \<or> (\<exists>a. m = Inr a \<and> f a = Inl e)"
  by (cases m) simp_all

section \<open>Stripping\<close>

lemma rstrip_no_trailing: "s = [] \<or> \<not> is_space (last s) \<Longrightarrow> rstrip s = s"
  by (cases s rule: rev_cases) (simp_all add: rstrip_def)

lemma lstrip_no_leading: "s = [] \<or> \<not> is_space (hd s) \<Longrightarrow> lstrip s = s"
  by (cases s) (simp_all add: lstrip_def)

lemma lstrip_hd: "lstrip s = [] \<or> \<not> is_space (hd (lstrip s))"
  unfolding lstrip_def by (metis hd_dropWhile)

lemma rstrip_last: "rstrip s = [] \<or> \<not> is_space (last (rstrip s))"
  unfolding rstrip_def by (metis hd_dropWhile last_rev rev_is_Nil_conv)

lemma rstrip_prefix: "\<exists>t. s = rstrip s @ t"
proof -
  have "rev s = takeWhile is_space (rev s) @ dropWhile is_space (rev s)" by simp
  then have "s = rev (dropWhile is_space (rev s)) @ rev (takeWhile is_space (rev s))"
    by (metis rev_append rev_rev_ident)
  then show ?thesis unfolding rstrip_def by blast
qed

lemma rstrip_hd: "rstrip s \<noteq> [] \<Longrightarrow> hd (rstrip s) = hd s"
  using rstrip_prefix [of s] by (metis hd_append2)

lemma strip_strip [simp]: "strip (strip s) = strip s"
proof -
  have "strip s = [] \<or> \<not> is_space (hd (strip s))"
    unfolding strip_def using lstrip_hd [of s] rstrip_hd [of "lstrip s"]
    by (metis lstrip_def append_Nil rstrip_prefix append_is_Nil_conv)
  moreover have "strip s = [] \<or> \<not> is_space (last (strip s))"
    unfolding strip_def by (rule rstrip_last)
  ultimately show ?thesis
    by (metis strip_def lstrip_no_leading rstrip_no_trailing)
qed

end
