(* ===== verification/Glob.thy ===== *)
theory Glob
  imports Prelude
begin

text \<open>
  Python's \<open>fnmatch.fnmatch\<close> on a POSIX system: \<open>*\<close>, \<open>?\<close>, \<open>[seq]\<close> and
  \<open>[!seq]\<close>, anchored at both ends. It is the matcher behind watched paths
  (\<open>scoring/signals.py\<close>) and flaky or deterministic CI check names
  (\<open>scoring/merge_readiness.py\<close>).
\<close>

datatype gtok = GStar | GAny | GLit char | GSet bool "(char \<times> char) list"

text \<open>
  The members of a bracket: \<open>a-z\<close> is a range when a character follows the hyphen; a range
  whose ends are in the wrong order is empty.
\<close>

fun set_items :: "string \<Rightarrow> (char \<times> char) list" where
  "set_items [] = []"
| "set_items (a # m # b # cs) =
     (if m = CHR ''-'' then (a, b) # set_items cs else (a, a) # set_items (m # b # cs))"
| "set_items (a # cs) = (a, a) # set_items cs"

text \<open>
  Split a pattern after an opening bracket at its closing bracket: a leading \<open>!\<close> and then a
  leading \<open>]\<close> belong to the members. \<open>None\<close> when the bracket is never closed.
\<close>

definition close_bracket :: "string \<Rightarrow> (bool \<times> string \<times> string) option" where
  "close_bracket p = (let neg = (p \<noteq> [] \<and> hd p = CHR ''!'');
     p1 = (if neg then tl p else p);
     first = (if p1 \<noteq> [] \<and> hd p1 = CHR '']'' then [CHR '']''] else []);
     p2 = drop (length first) p1;
     body = takeWhile (\<lambda>c. c \<noteq> CHR '']'') p2;
     rest = dropWhile (\<lambda>c. c \<noteq> CHR '']'') p2
     in if rest = [] then None else Some (neg, first @ body, tl rest))"

lemma tl_dropWhile_shorter:
  "dropWhile P xs \<noteq> [] \<Longrightarrow> length xs \<le> n \<Longrightarrow> length (tl (dropWhile P xs)) < n"
  using length_dropWhile_le [of P xs] by (cases "dropWhile P xs") auto

lemma close_bracket_shorter:
  assumes "close_bracket p = Some (neg, body, rest)"
  shows "length rest < length p"
proof -
  define p1 where "p1 = (if p \<noteq> [] \<and> hd p = CHR ''!'' then tl p else p)"
  define p2 where "p2 = drop (length (if p1 \<noteq> [] \<and> hd p1 = CHR '']'' then [CHR '']''] else [])) p1"
  have len: "length p2 \<le> length p" by (simp add: p1_def p2_def)
  have "(if dropWhile (\<lambda>c. c \<noteq> CHR '']'') p2 = [] then None
      else Some (p \<noteq> [] \<and> hd p = CHR ''!'',
        (if p1 \<noteq> [] \<and> hd p1 = CHR '']'' then [CHR '']''] else []) @ takeWhile (\<lambda>c. c \<noteq> CHR '']'') p2,
        tl (dropWhile (\<lambda>c. c \<noteq> CHR '']'') p2))) = Some (neg, body, rest)"
    using assms unfolding close_bracket_def Let_def p1_def p2_def .
  then have "dropWhile (\<lambda>c. c \<noteq> CHR '']'') p2 \<noteq> []" "rest = tl (dropWhile (\<lambda>c. c \<noteq> CHR '']'') p2)"
    by (simp_all split: if_split_asm)
  then show ?thesis using len tl_dropWhile_shorter by metis
qed

function gtokens :: "string \<Rightarrow> gtok list" where
  "gtokens [] = []"
| "gtokens (c # cs) =
     (if c = CHR ''*'' then GStar # gtokens cs
      else if c = CHR ''?'' then GAny # gtokens cs
      else if c = CHR ''['' then
        (case close_bracket cs of
           None \<Rightarrow> GLit c # gtokens cs
         | Some (neg, body, rest) \<Rightarrow> GSet neg (set_items body) # gtokens rest)
      else GLit c # gtokens cs)"
  by pat_completeness auto
termination
  by (relation "measure length") (auto dest: close_bracket_shorter)

definition tok_accepts :: "gtok \<Rightarrow> char \<Rightarrow> bool" where
  "tok_accepts t c = (case t of GStar \<Rightarrow> False | GAny \<Rightarrow> True | GLit d \<Rightarrow> c = d
     | GSet neg rs \<Rightarrow> list_ex (\<lambda>(a, b). (of_char a :: nat) \<le> of_char c \<and> (of_char c :: nat) \<le> of_char b) rs \<noteq> neg)"

fun gmatch :: "gtok list \<Rightarrow> string \<Rightarrow> bool" where
  "gmatch [] s = (s = [])"
| "gmatch (GStar # ts) [] = gmatch ts []"
| "gmatch (GStar # ts) (c # cs) = (gmatch ts (c # cs) \<or> gmatch (GStar # ts) cs)"
| "gmatch (t # ts) [] = False"
| "gmatch (t # ts) (c # cs) = (tok_accepts t c \<and> gmatch ts cs)"

definition fnmatch :: "string \<Rightarrow> string \<Rightarrow> bool" where
  "fnmatch name pat = gmatch (gtokens pat) name"

subsection \<open>What the common pattern shapes mean\<close>

definition plain :: "string \<Rightarrow> bool" where
  "plain s \<longleftrightarrow> set s \<inter> {CHR ''*'', CHR ''?'', CHR ''[''} = {}"

lemma gtokens_plain: "plain s \<Longrightarrow> gtokens (s @ t) = map GLit s @ gtokens t"
  by (induction s) (auto simp: plain_def)

lemma gmatch_lits: "gmatch (map GLit p @ ts) s \<longleftrightarrow> (\<exists>r. s = p @ r \<and> gmatch ts r)"
proof (induction p arbitrary: s)
  case (Cons a p)
  then show ?case by (cases s) (auto simp: tok_accepts_def)
qed simp

lemma gmatch_star: "gmatch (GStar # ts) s \<longleftrightarrow> (\<exists>k \<le> length s. gmatch ts (drop k s))"
proof (induction s)
  case (Cons c cs)
  have "(\<exists>k \<le> length (c # cs). gmatch ts (drop k (c # cs))) \<longleftrightarrow>
        gmatch ts (c # cs) \<or> (\<exists>k \<le> length cs. gmatch ts (drop k cs))"
    by (metis Suc_le_mono bot_nat_0.extremum drop0 drop_Suc_Cons length_Cons not0_implies_Suc)
  with Cons show ?case by simp
qed simp

lemma gmatch_star_all [simp]: "gmatch [GStar] s"
  by (induction s) auto

lemma fnmatch_plain: "plain p \<Longrightarrow> fnmatch s p \<longleftrightarrow> s = p"
  using gtokens_plain [of p "[]"] gmatch_lits [of p "[]" s] by (simp add: fnmatch_def)

lemma fnmatch_prefix: "plain p \<Longrightarrow> fnmatch s (p @ ''*'') \<longleftrightarrow> prefix p s"
  by (auto simp: fnmatch_def gtokens_plain gmatch_lits prefix_def)

lemma fnmatch_infix: "plain p \<Longrightarrow> fnmatch s (''*'' @ p @ ''*'') \<longleftrightarrow> sublist p s"
proof -
  assume "plain p"
  then have "fnmatch s (''*'' @ p @ ''*'') \<longleftrightarrow> (\<exists>k \<le> length s. \<exists>r. drop k s = p @ r)"
    by (auto simp: fnmatch_def gtokens_plain gmatch_star gmatch_lits del: gmatch.simps(2,3))
  also have "\<dots> \<longleftrightarrow> sublist p s"
    unfolding sublist_def
    by (metis append_take_drop_id append_eq_conv_conj le_add1 length_append)
  finally show ?thesis .
qed

end
