(* ===== verification/CIChecks.thy ===== *)
theory CIChecks
  imports Glob
begin

text \<open>
  CI classification (\<open>scoring/merge_readiness.py\<close>, the first pure half): one commit's
  check runs become green / flaky / red / pending / unknown, with a confidence per failing
  check that it is a flake.
\<close>

section \<open>Check results\<close>

abbreviation (input) CI_GREEN :: string where "CI_GREEN \<equiv> ''green''"
abbreviation (input) CI_FLAKY :: string where "CI_FLAKY \<equiv> ''flaky''"
abbreviation (input) CI_RED :: string where "CI_RED \<equiv> ''red''"
abbreviation (input) CI_PENDING :: string where "CI_PENDING \<equiv> ''pending''"
abbreviation (input) CI_UNKNOWN :: string where "CI_UNKNOWN \<equiv> ''unknown''"

definition FAILED_CONCLUSIONS :: "string list" where
  "FAILED_CONCLUSIONS = [''failure'', ''timed_out'', ''cancelled'', ''action_required'', ''startup_failure'']"

definition PASSED_CONCLUSIONS :: "string list" where
  "PASSED_CONCLUSIONS = [''success'', ''neutral'', ''skipped'']"

record ci_check =
  chk_name :: string
  chk_status :: string
  chk_conclusion :: string
  chk_url :: string

definition check_from_dict :: "jdict \<Rightarrow> ci_check option" where
  "check_from_dict raw = (case jget raw ''name'' of
     JStr name \<Rightarrow>
       if name = [] then None
       else Some \<lparr>chk_name = name,
              chk_status = str_or raw ''status'' ''completed'',
              chk_conclusion = str_or raw ''conclusion'' '''',
              chk_url = str_or raw ''url'' ''''\<rparr>
   | _ \<Rightarrow> None)"

definition chk_failed :: "ci_check \<Rightarrow> bool" where
  "chk_failed c \<longleftrightarrow> chk_status c = ''completed'' \<and> chk_conclusion c \<in> set FAILED_CONCLUSIONS"

definition chk_passed :: "ci_check \<Rightarrow> bool" where
  "chk_passed c \<longleftrightarrow> chk_status c = ''completed'' \<and> chk_conclusion c \<in> set PASSED_CONCLUSIONS"

definition chk_running :: "ci_check \<Rightarrow> bool" where
  "chk_running c \<longleftrightarrow> chk_status c \<noteq> ''completed''"

definition chk_inconclusive :: "ci_check \<Rightarrow> bool" where
  "chk_inconclusive c \<longleftrightarrow> chk_status c = ''completed''
     \<and> chk_conclusion c \<notin> set PASSED_CONCLUSIONS \<and> chk_conclusion c \<notin> set FAILED_CONCLUSIONS"

lemmas chk_defs = chk_failed_def chk_passed_def chk_running_def chk_inconclusive_def

lemma conclusions_disjoint: "set FAILED_CONCLUSIONS \<inter> set PASSED_CONCLUSIONS = {}"
  by (simp add: FAILED_CONCLUSIONS_def PASSED_CONCLUSIONS_def)

lemma chk_not_failed_passed: "\<not> (chk_failed c \<and> chk_passed c)"
  using conclusions_disjoint by (auto simp: chk_defs)

lemma chk_passed_iff: "chk_passed c \<longleftrightarrow> \<not> chk_failed c \<and> \<not> chk_running c \<and> \<not> chk_inconclusive c"
  using conclusions_disjoint by (auto simp: chk_defs)

fun parse_checks :: "jdict list \<Rightarrow> ci_check list" where
  "parse_checks [] = []"
| "parse_checks (raw # raws) = (case check_from_dict raw of
     Some c \<Rightarrow> c # parse_checks raws
   | None \<Rightarrow> parse_checks raws)"

definition summarize_ci_status :: "ci_check list \<Rightarrow> string" where
  "summarize_ci_status checks = (
     if checks = [] then ''''
     else if list_ex chk_failed checks then ''fail''
     else if list_ex (\<lambda>c. chk_running c \<or> chk_inconclusive c) checks then ''pending''
     else ''pass'')"

section \<open>How likely a failure is a flake\<close>

definition matches_any :: "string \<Rightarrow> string list \<Rightarrow> bool" where
  "matches_any name patterns = (let lowered = lower name in
     list_ex (\<lambda>p. p \<noteq> [] \<and> fnmatch lowered (lower p)) patterns)"

definition DEFAULT_DETERMINISTIC_CHECKS :: "string list" where
  "DEFAULT_DETERMINISTIC_CHECKS = [''*lint*'', ''*format*'', ''*mypy*'', ''*type*check*'', ''*compile*'',
     ''*scalastyle*'', ''*checkstyle*'', ''*license*'', ''*ruff*'', ''*black*'']"

definition FLAKE_THRESHOLD :: rat where
  "FLAKE_THRESHOLD = 1/2"

definition CONCLUSION_FLAKE_PRIOR :: "(string \<times> rat) list" where
  "CONCLUSION_FLAKE_PRIOR = [(''timed_out'', 7/10), (''cancelled'', 6/10), (''startup_failure'', 6/10)]"

definition CONFIGURED_FLAKY_PRIOR :: rat where "CONFIGURED_FLAKY_PRIOR = 9/10"
definition DETERMINISTIC_PRIOR :: rat where "DETERMINISTIC_PRIOR = 1/10"
definition DEFAULT_FLAKE_PRIOR :: rat where "DEFAULT_FLAKE_PRIOR = 35/100"

definition ANALYSIS_VERDICT_CONFIDENCE :: "(string \<times> rat) list" where
  "ANALYSIS_VERDICT_CONFIDENCE = [(''real-pr'', 2/100), (''flake'', 95/100), (''real-pre-existing'', 9/10)]"

definition BASE_FAILING_PRIOR :: rat where "BASE_FAILING_PRIOR = 9/10"

lemmas prior_defs = CONFIGURED_FLAKY_PRIOR_def DETERMINISTIC_PRIOR_def DEFAULT_FLAKE_PRIOR_def
  BASE_FAILING_PRIOR_def

type_synonym flake_history = "(string \<times> (int \<times> int)) list"
type_synonym verdict_map = "(string \<times> (string \<times> string) list) list"

text \<open>The keyword arguments \<open>flake_confidence\<close> and \<open>classify_ci\<close> share.\<close>

record flake_context =
  fc_flaky_patterns :: "string list"
  fc_deterministic_patterns :: "string list"
  fc_history :: flake_history
  fc_base_failing :: "string list"
  fc_analysis :: verdict_map

text \<open>
  The blend of a prior with the learned history: nothing to blend without an observation,
  otherwise the Laplace-smoothed rate with weight \<open>n / (n + 2)\<close>.
\<close>

definition blend_history :: "rat \<Rightarrow> int \<Rightarrow> int \<Rightarrow> rat" where
  "blend_history prior flaky genuine = (let observations = flaky + genuine in
     if observations \<le> 0 then prior
     else (let learned = (of_int flaky + 1) / (of_int observations + 2);
               weight = of_int observations / (of_int observations + 2)
           in py_round_to 3 ((1 - weight) * prior + weight * learned)))"

definition history_note :: "string \<Rightarrow> int \<Rightarrow> int \<Rightarrow> string" where
  "history_note why flaky genuine = (if flaky + genuine \<le> 0 then why
     else why @ ''; flaked '' @ int_str flaky @ ''x, real '' @ int_str genuine @ ''x before'')"

definition underscores_to_spaces :: "string \<Rightarrow> string" where
  "underscores_to_spaces s = map (\<lambda>c. if c = CHR ''_'' then CHR '' '' else c) s"

definition name_prior :: "flake_context \<Rightarrow> ci_check \<Rightarrow> rat \<times> string" where
  "name_prior fc check = (
     if matches_any (chk_name check) (fc_flaky_patterns fc)
       then (CONFIGURED_FLAKY_PRIOR, ''configured as flaky'')
     else case map_of CONCLUSION_FLAKE_PRIOR (chk_conclusion check) of
       Some p \<Rightarrow> (p, underscores_to_spaces (chk_conclusion check))
     | None \<Rightarrow>
         if matches_any (chk_name check) (fc_deterministic_patterns fc)
           then (DETERMINISTIC_PRIOR, ''lint/type/compile checks don'' @ [char_of (39 :: nat)] @ ''t flake'')
         else (DEFAULT_FLAKE_PRIOR, ''no history for this check''))"

definition base_note :: string where
  "base_note = ''also failing on the base branch '' @ em_dash @ '' not caused by this PR''"

definition analysis_override :: "flake_context \<Rightarrow> ci_check \<Rightarrow> (rat \<times> string) option" where
  "analysis_override fc check = (case map_of (fc_analysis fc) (chk_name check) of
     None \<Rightarrow> None
   | Some verdict \<Rightarrow> (case map_of verdict ''verdict'' of
       None \<Rightarrow> None
     | Some v \<Rightarrow> (case map_of ANALYSIS_VERDICT_CONFIDENCE v of
         None \<Rightarrow> None
       | Some conf \<Rightarrow>
           Some (conf, ''CI analysis: '' @
             (case map_of verdict ''reason'' of None \<Rightarrow> v | Some r \<Rightarrow> if r = [] then v else r)))))"

definition flake_confidence :: "flake_context \<Rightarrow> ci_check \<Rightarrow> rat \<times> string" where
  "flake_confidence fc check = (case analysis_override fc check of
     Some r \<Rightarrow> r
   | None \<Rightarrow>
       (let (prior, why) = (if chk_name check \<in> set (fc_base_failing fc)
                            then (BASE_FAILING_PRIOR, base_note) else name_prior fc check);
            (flaky, genuine) = dict_get (0, 0) (fc_history fc) (chk_name check)
        in (blend_history prior flaky genuine, history_note why flaky genuine)))"

subsection \<open>The blend\<close>

definition good_history :: "flake_history \<Rightarrow> bool" where
  "good_history h \<longleftrightarrow> (\<forall>(_, f, r) \<in> set h. 0 \<le> f \<and> 0 \<le> r)"

lemma good_history_get: "good_history h \<Longrightarrow> dict_get (0, 0) h n = (f, r) \<Longrightarrow> 0 \<le> f \<and> 0 \<le> r"
  by (auto simp: good_history_def dict_get_def split: option.splits dest: map_of_SomeD)

text \<open>One formula for the unrounded blend: the two weights share a denominator.\<close>

definition raw_blend :: "rat \<Rightarrow> int \<Rightarrow> int \<Rightarrow> rat" where
  "raw_blend prior f r = (2 * prior + of_int (f + r) * (of_int f + 1) / (of_int (f + r) + 2)) / (of_int (f + r) + 2)"

lemma blend_history_raw:
  "0 < f + r \<Longrightarrow> blend_history prior f r = py_round_to 3 (raw_blend prior f r)"
proof -
  assume pos: "0 < f + r"
  define n :: rat where "n = of_int (f + r)"
  have n: "0 < n" using pos by (simp add: n_def)
  have "1 - n / (n + 2) = 2 / (n + 2)" using n by (simp add: field_simps)
  moreover define L where "L = (of_int f + 1) / (n + 2)"
  ultimately have "(1 - n / (n + 2)) * prior + n / (n + 2) * L = (2 * prior + n * L) / (n + 2)"
    by (simp add: add_divide_distrib)
  then have "(1 - n / (n + 2)) * prior + n / (n + 2) * ((of_int f + 1) / (n + 2))
      = (2 * prior + n * (of_int f + 1) / (n + 2)) / (n + 2)"
    by (simp add: L_def)
  then show ?thesis using pos by (simp add: blend_history_def raw_blend_def Let_def n_def)
qed

lemma raw_blend_range:
  assumes "0 \<le> p" "p \<le> 1" "0 \<le> f" "0 \<le> r"
  shows "0 \<le> raw_blend p f r" "raw_blend p f r \<le> 1"
proof -
  define n :: rat where "n = of_int (f + r)"
  have n: "0 \<le> n" "of_int f \<le> n" using assms by (simp_all add: n_def)
  show "0 \<le> raw_blend p f r" using assms by (simp add: raw_blend_def)
  have "n * (of_int f + 1) \<le> n * (n + 2)" using n by (intro mult_left_mono) simp_all
  then have "n * (of_int f + 1) / (n + 2) \<le> n" using n by (simp add: divide_le_eq)
  then have "2 * p + n * (of_int f + 1) / (n + 2) \<le> n + 2" using assms(2) by linarith
  then show "raw_blend p f r \<le> 1"
    unfolding raw_blend_def n_def [symmetric] using n by (simp add: divide_le_eq)
qed

lemma blend_history_range [bound_intros]:
  assumes "0 \<le> p" "p \<le> 1" "0 \<le> f" "0 \<le> r"
  shows "0 \<le> blend_history p f r" "blend_history p f r \<le> 1"
proof -
  have "0 \<le> blend_history p f r \<and> blend_history p f r \<le> 1"
  proof (cases "0 < f + r")
    case True
    then show ?thesis
      using py_round_to_unit [OF raw_blend_range [OF assms]] by (simp add: blend_history_raw)
  next
    case False
    with assms show ?thesis by (simp add: blend_history_def)
  qed
  then show "0 \<le> blend_history p f r" "blend_history p f r \<le> 1" by auto
qed

lemma prior_table_range:
  "map_of CONCLUSION_FLAKE_PRIOR c = Some p \<Longrightarrow> 0 \<le> p \<and> p \<le> 1"
  "map_of ANALYSIS_VERDICT_CONFIDENCE v = Some p \<Longrightarrow> 0 \<le> p \<and> p \<le> 1"
  by (auto simp: CONCLUSION_FLAKE_PRIOR_def ANALYSIS_VERDICT_CONFIDENCE_def split: if_splits)

lemma name_prior_range: "name_prior fc c = (p, w) \<Longrightarrow> 0 \<le> p \<and> p \<le> 1"
  by (auto simp: name_prior_def prior_defs dest: prior_table_range split: if_splits option.splits)

lemma analysis_override_range: "analysis_override fc c = Some (p, w) \<Longrightarrow> 0 \<le> p \<and> p \<le> 1"
  by (auto simp: analysis_override_def dest: prior_table_range split: option.splits)

lemma flake_confidence_unit:
  assumes "good_history (fc_history fc)"
  shows "0 \<le> fst (flake_confidence fc c) \<and> fst (flake_confidence fc c) \<le> 1"
proof (cases "analysis_override fc c")
  case (Some a)
  then show ?thesis using analysis_override_range by (cases a) (auto simp: flake_confidence_def)
next
  case None
  obtain f r where h: "dict_get (0, 0) (fc_history fc) (chk_name c) = (f, r)" by fastforce
  obtain p w where p: "(if chk_name c \<in> set (fc_base_failing fc) then (BASE_FAILING_PRIOR, base_note)
      else name_prior fc c) = (p, w)" by fastforce
  have "0 \<le> p \<and> p \<le> 1"
    using p name_prior_range by (auto simp: prior_defs split: if_splits)
  moreover have "0 \<le> f \<and> 0 \<le> r" using assms h by (rule good_history_get)
  ultimately show ?thesis using None h p by (simp add: flake_confidence_def bound_intros)
qed


text \<open>
  How much history overrules a prior: three failures judged real pull every prior up to
  0.9 under the threshold; two flakes lift an unlisted check over it, and three lift even a
  lint-like one.
\<close>

lemma blend_three_real:
  assumes "p \<le> 9/10" "0 \<le> p" "3 \<le> r"
  shows "blend_history p 0 r < FLAKE_THRESHOLD"
proof -
  define n :: rat where "n = of_int r"
  have n: "3 \<le> n" using assms(3) by (simp add: n_def)
  have "raw_blend p 0 r \<le> 48/100"
  proof (cases "r = 3")
    case True
    then show ?thesis using assms by (simp add: raw_blend_def)
  next
    case False
    then have n4: "4 \<le> n" using assms(3) by (simp add: n_def)
    then have "n / (n + 2) \<le> 1" by simp
    then have "2 * p + n / (n + 2) \<le> 28/10" using assms(1) by linarith
    then have "(2 * p + n / (n + 2)) / (n + 2) \<le> (28/10) / 6"
      using n4 assms(2) by (intro frac_le) simp_all
    moreover have "(28/10) / 6 \<le> (48/100 :: rat)" by simp
    moreover have "raw_blend p 0 r = (2 * p + n / (n + 2)) / (n + 2)" by (simp add: raw_blend_def n_def)
    ultimately show ?thesis by linarith
  qed
  then have "py_round_to 3 (raw_blend p 0 r) \<le> py_round_to 3 (48/100)" by (rule py_round_to_mono)
  also have "py_round_to 3 (48/100) < FLAKE_THRESHOLD" by code_simp
  finally show ?thesis using assms(3) by (simp add: blend_history_raw)
qed

lemma blend_flakes_bound:
  fixes n :: rat
  assumes "2 \<le> n" "35/100 \<le> p \<or> (1/10 \<le> p \<and> 3 \<le> n)"
  shows "1/2 \<le> (2 * p + n * (n + 1) / (n + 2)) / (n + 2)"
proof -
  have pos: "0 < n + 2" using assms(1) by simp
  define q m where "q = 2 * p * (n + 2)" and "m = n * n"
  have sq: "(n + 2) * (n + 2) = m + 4 * n + 4" "n * (n + 1) = m + n"
    by (simp_all add: m_def algebra_simps)
  have lin: "m + 4 * n + 4 \<le> 2 * (q + (m + n))"
  proof (cases "35/100 \<le> p")
    case True
    then have "(7/10) * (n + 2) \<le> q" unfolding q_def using pos by (intro mult_right_mono) simp_all
    moreover have "2 * n \<le> m" unfolding m_def using assms(1) by (intro mult_right_mono) simp_all
    ultimately show ?thesis using assms(1) by simp
  next
    case False
    with assms(2) have n3: "3 \<le> n" and p: "1/10 \<le> p" by auto
    then have "(2/10) * (n + 2) \<le> q" unfolding q_def using pos by (intro mult_right_mono) simp_all
    moreover have "3 * n \<le> m" unfolding m_def using n3 by (intro mult_right_mono) simp_all
    ultimately show ?thesis using n3 by simp
  qed
  have key: "(n + 2) * (n + 2) \<le> 2 * (2 * p * (n + 2) + n * (n + 1))"
    using lin unfolding sq q_def .
  have "(2 * p + n * (n + 1) / (n + 2)) / (n + 2)
      = (2 * p * (n + 2) + n * (n + 1)) / ((n + 2) * (n + 2))"
    using pos by (simp add: add_divide_distrib)
  then show ?thesis using key pos by (simp add: le_divide_eq)
qed

lemma blend_flakes_enough:
  assumes "2 \<le> f" "35/100 \<le> p \<or> (1/10 \<le> p \<and> 3 \<le> f)"
  shows "FLAKE_THRESHOLD \<le> blend_history p f 0"
proof -
  have "(1/2 :: rat) \<le> raw_blend p f 0"
    using blend_flakes_bound [of "of_int f" p] assms by (simp add: raw_blend_def)
  then have "py_round_to 3 (1/2) \<le> py_round_to 3 (raw_blend p f 0)" by (rule py_round_to_mono)
  moreover have "py_round_to 3 (1/2) = FLAKE_THRESHOLD" by code_simp
  ultimately show ?thesis using assms(1) by (simp add: blend_history_raw)
qed

section \<open>Classifying a commit\<close>

record ci_assessment =
  as_status :: string
  as_total :: int
  as_failing :: "string list"
  as_pending :: "string list"
  as_flake_conf :: "(string \<times> rat) list"
  as_reasons :: "string list"

definition empty_assessment :: ci_assessment where
  "empty_assessment = \<lparr>as_status = CI_UNKNOWN, as_total = 0, as_failing = [], as_pending = [],
     as_flake_conf = [], as_reasons = []\<rparr>"

definition as_is_flaky :: "ci_assessment \<Rightarrow> bool" where
  "as_is_flaky a \<longleftrightarrow> as_status a = CI_FLAKY"

datatype raw_check = RawDict jdict | RawCheck ci_check

fun coerce_checks :: "raw_check list \<Rightarrow> ci_check list" where
  "coerce_checks [] = []"
| "coerce_checks (RawCheck c # rs) = c # coerce_checks rs"
| "coerce_checks (RawDict d # rs) = (case check_from_dict d of
     Some c \<Rightarrow> c # coerce_checks rs
   | None \<Rightarrow> coerce_checks rs)"

lemma coerce_RawCheck [simp]: "coerce_checks (map RawCheck cs) = cs"
  by (induction cs) auto

lemma coerce_RawDict [simp]: "coerce_checks (map RawDict ds) = parse_checks ds"
  by (induction ds) (auto split: option.splits)

text \<open>The loop over the failing checks: the confidence dict and one reason per check.\<close>

fun judge_failing :: "flake_context \<Rightarrow> ci_check list \<Rightarrow> ci_assessment \<Rightarrow> ci_assessment" where
  "judge_failing fc [] a = a"
| "judge_failing fc (c # cs) a = (let (conf, why) = flake_confidence fc c in
     judge_failing fc cs (a\<lparr>as_flake_conf := AList.update (chk_name c) conf (as_flake_conf a),
       as_reasons := as_reasons a @ [chk_name c @ '': '' @ why]\<rparr>))"

definition inconclusive_note :: "ci_check list \<Rightarrow> string" where
  "inconclusive_note cs = nat_str (length cs) @ '' check(s) inconclusive: '' @
     join '', '' (map (\<lambda>c. chk_name c @ '' ('' @
       (if chk_conclusion c = [] then ''no conclusion'' else chk_conclusion c) @ '')'') cs)"

definition majority_failing :: "nat \<Rightarrow> nat \<Rightarrow> bool" where
  "majority_failing nf n \<longleftrightarrow> max 2 (n div 2) < nf"

definition classify_ci :: "flake_context \<Rightarrow> raw_check list \<Rightarrow> ci_assessment" where
  "classify_ci fc raw_checks = (let checks = coerce_checks raw_checks;
     a0 = empty_assessment\<lparr>as_total := int (length checks)\<rparr> in
     if checks = [] then a0\<lparr>as_reasons := [''no CI results for this commit'']\<rparr>
     else (let
       failing = filter chk_failed checks;
       pending = filter chk_running checks;
       inconclusive = filter chk_inconclusive checks;
       a = a0\<lparr>as_failing := map chk_name failing,
             as_pending := map chk_name (pending @ inconclusive)\<rparr> in
     if failing = [] then
       (if pending \<noteq> [] \<or> inconclusive \<noteq> [] then
          a\<lparr>as_status := CI_PENDING, as_reasons :=
             (if pending \<noteq> [] then [nat_str (length pending) @ '' check(s) still running''] else []) @
             (if inconclusive \<noteq> [] then [inconclusive_note inconclusive] else [])\<rparr>
        else a\<lparr>as_status := CI_GREEN,
               as_reasons := [''all '' @ nat_str (length checks) @ '' check(s) passed'']\<rparr>)
     else (let
       b = judge_failing fc failing a;
       majority = majority_failing (length failing) (length checks);
       all_flaky = list_all (\<lambda>(_, c). FLAKE_THRESHOLD \<le> c) (as_flake_conf b);
       head = nat_str (length failing) @ '' of '' @ nat_str (length checks) @ '' check(s) failed'' in
     if all_flaky \<and> \<not> majority
       then b\<lparr>as_status := CI_FLAKY, as_reasons := (head @ '', probably flaky'') # as_reasons b\<rparr>
     else b\<lparr>as_status := CI_RED,
            as_reasons := (if majority then head @ '' '' @ em_dash @ '' not a flake'' else head)
              # as_reasons b\<rparr>)))"

definition str_list :: "json \<Rightarrow> string list" where
  "str_list v = (case v of JList xs \<Rightarrow> map py_str xs | _ \<Rightarrow> [])"

fun float_dict :: "jdict \<Rightarrow> (string \<times> rat) list option" where
  "float_dict [] = Some []"
| "float_dict ((k, v) # kvs) = (case (py_float v, float_dict kvs) of
     (Some x, Some m) \<Rightarrow> Some ((k, x) # m) | _ \<Rightarrow> None)"

definition assessment_to_dict :: "ci_assessment \<Rightarrow> jdict" where
  "assessment_to_dict a = [
     (''status'', JStr (as_status a)),
     (''total'', JInt (as_total a)),
     (''failing'', JList (map JStr (as_failing a))),
     (''pending'', JList (map JStr (as_pending a))),
     (''flake_confidence'', JObj (map (\<lambda>(k, v). (k, JFloat (py_round_to 2 v))) (as_flake_conf a))),
     (''reasons'', JList (map JStr (as_reasons a)))]"

text \<open>Reading a stored assessment back; \<open>None\<close> when a stored confidence is not a number.\<close>

definition assessment_from_dict :: "jdict \<Rightarrow> ci_assessment option" where
  "assessment_from_dict raw = (if raw = [] then Some empty_assessment else
     map_option (\<lambda>conf. \<lparr>
       as_status = str_or raw ''status'' CI_UNKNOWN,
       as_total = (case jget raw ''total'' of JInt i \<Rightarrow> i | JBool b \<Rightarrow> (if b then 1 else 0) | _ \<Rightarrow> 0),
       as_failing = str_list (jget raw ''failing''),
       as_pending = str_list (jget raw ''pending''),
       as_flake_conf = conf,
       as_reasons = str_list (jget raw ''reasons'')\<rparr>)
     (case jget raw ''flake_confidence'' of JObj m \<Rightarrow> float_dict m | _ \<Rightarrow> Some []))"

lemma str_list_JStr [simp]: "str_list (JList (map JStr xs)) = xs"
  by (induction xs) (auto simp: str_list_def)

lemma float_dict_JFloat:
  "float_dict (map (\<lambda>(k, v). (k, JFloat (g v))) m) = Some (map (\<lambda>(k, v). (k, g v)) m)"
  by (induction m) auto

lemma assessment_roundtrip:
  "as_status a \<noteq> [] \<Longrightarrow> assessment_from_dict (assessment_to_dict a) =
     Some (a\<lparr>as_flake_conf := map (\<lambda>(k, v). (k, py_round_to 2 v)) (as_flake_conf a)\<rparr>)"
  by (cases a) (simp add: assessment_from_dict_def assessment_to_dict_def float_dict_JFloat
      str_or_def jor_def jget_def dict_get_def)

subsection \<open>What each status means\<close>

lemma judge_failing_frame:
  "as_status (judge_failing fc cs a) = as_status a"
  "as_total (judge_failing fc cs a) = as_total a"
  "as_failing (judge_failing fc cs a) = as_failing a"
  "as_pending (judge_failing fc cs a) = as_pending a"
  by (induction cs arbitrary: a) (auto split: prod.splits)

lemma judge_failing_keys:
  "fst ` set (as_flake_conf (judge_failing fc cs a)) = fst ` set (as_flake_conf a) \<union> chk_name ` set cs"
  by (induction cs arbitrary: a) (auto split: prod.splits)

lemma judge_failing_distinct:
  "distinct (map fst (as_flake_conf a)) \<Longrightarrow> distinct (map fst (as_flake_conf (judge_failing fc cs a)))"
  by (induction cs arbitrary: a) (auto split: prod.splits simp: AList.distinct_update)

text \<open>The entry of a name is the verdict on the last failing check of that name.\<close>

lemma judge_failing_conf:
  "map_of (as_flake_conf (judge_failing fc cs a)) n =
     (case rev (filter (\<lambda>c. chk_name c = n) cs) of
        [] \<Rightarrow> map_of (as_flake_conf a) n
      | c # _ \<Rightarrow> Some (fst (flake_confidence fc c)))"
proof (induction cs arbitrary: a)
  case (Cons c cs)
  then show ?case by (auto split: prod.splits list.splits simp: append_eq_Cons_conv)
qed simp

lemma list_all_conf_iff:
  "distinct (map fst m) \<Longrightarrow> list_all (\<lambda>(_, c). t \<le> c) m \<longleftrightarrow> (\<forall>n v. map_of m n = Some v \<longrightarrow> t \<le> v)"
  by (auto simp: list_all_iff map_of_eq_Some_iff)

definition all_flaky :: "flake_context \<Rightarrow> ci_check list \<Rightarrow> bool" where
  "all_flaky fc failing \<longleftrightarrow> list_all (\<lambda>(_, c). FLAKE_THRESHOLD \<le> c)
     (as_flake_conf (judge_failing fc failing empty_assessment))"

lemma judge_conf_cong:
  "as_flake_conf a = as_flake_conf b \<Longrightarrow>
    as_flake_conf (judge_failing fc cs a) = as_flake_conf (judge_failing fc cs b)"
  by (induction cs arbitrary: a b) (auto split: prod.splits)

lemma all_flaky_any_start:
  "as_flake_conf a = [] \<Longrightarrow>
    list_all (\<lambda>(_, c). FLAKE_THRESHOLD \<le> c) (as_flake_conf (judge_failing fc cs a)) = all_flaky fc cs"
  unfolding all_flaky_def
  by (subst judge_conf_cong [of a empty_assessment]) (simp_all add: empty_assessment_def)

lemma as_flake_conf_empty [simp]:
  "as_flake_conf empty_assessment = []" "as_status empty_assessment = CI_UNKNOWN"
  by (simp_all add: empty_assessment_def)

lemma all_flaky_iff_last:
  "all_flaky fc cs \<longleftrightarrow> (\<forall>n c r. rev (filter (\<lambda>c. chk_name c = n) cs) = c # r
     \<longrightarrow> FLAKE_THRESHOLD \<le> fst (flake_confidence fc c))"
proof -
  have d: "distinct (map fst (as_flake_conf (judge_failing fc cs empty_assessment)))"
    by (rule judge_failing_distinct) (simp add: empty_assessment_def)
  show ?thesis
    unfolding all_flaky_def list_all_conf_iff [OF d] judge_failing_conf
    by (fastforce simp: empty_assessment_def split: list.splits)
qed

lemma filter_name_distinct:
  "distinct (map f cs) \<Longrightarrow> c \<in> set cs \<Longrightarrow> filter (\<lambda>d. f d = f c) cs = [c]"
proof (induction cs)
  case (Cons a cs)
  then show ?case by (auto simp: filter_empty_conv image_iff)
qed simp

lemma all_flaky_distinct:
  assumes "distinct (map chk_name cs)"
  shows "all_flaky fc cs \<longleftrightarrow> (\<forall>c \<in> set cs. FLAKE_THRESHOLD \<le> fst (flake_confidence fc c))"
proof
  assume l: "all_flaky fc cs"
  show "\<forall>c \<in> set cs. FLAKE_THRESHOLD \<le> fst (flake_confidence fc c)"
  proof
    fix c assume "c \<in> set cs"
    then have "rev (filter (\<lambda>d. chk_name d = chk_name c) cs) = c # []"
      using assms filter_name_distinct [of chk_name cs c] by simp
    with l show "FLAKE_THRESHOLD \<le> fst (flake_confidence fc c)"
      unfolding all_flaky_iff_last by blast
  qed
next
  assume r: "\<forall>c \<in> set cs. FLAKE_THRESHOLD \<le> fst (flake_confidence fc c)"
  have "c \<in> set cs" if "rev (filter (\<lambda>c. chk_name c = n) cs) = c # rest" for n c rest
    using arg_cong [OF that, of set] by auto
  with r show "all_flaky fc cs" unfolding all_flaky_iff_last by blast
qed

text \<open>The status as a decision over the parsed checks, with the bookkeeping fields set aside.\<close>

lemma classify_status:
  "as_status (classify_ci fc raw) = (let cs = coerce_checks raw; failing = filter chk_failed cs in
     if cs = [] then CI_UNKNOWN
     else if failing = [] then
       (if \<exists>c \<in> set cs. chk_running c \<or> chk_inconclusive c then CI_PENDING else CI_GREEN)
     else if all_flaky fc failing \<and> \<not> majority_failing (length failing) (length cs) then CI_FLAKY
     else CI_RED)"
proof -
  show ?thesis
    by (auto simp: classify_ci_def Let_def all_flaky_any_start as_flake_conf_empty filter_empty_conv)
qed

lemma classify_failing:
  "as_failing (classify_ci fc raw) = map chk_name (filter chk_failed (coerce_checks raw))"
  by (auto simp: classify_ci_def Let_def empty_assessment_def judge_failing_frame)

lemma classify_pending:
  "as_pending (classify_ci fc raw) = map chk_name (filter chk_running (coerce_checks raw)
     @ filter chk_inconclusive (coerce_checks raw))"
  by (auto simp: classify_ci_def Let_def empty_assessment_def judge_failing_frame)

lemma classify_total: "as_total (classify_ci fc raw) = int (length (coerce_checks raw))"
  by (auto simp: classify_ci_def Let_def empty_assessment_def judge_failing_frame)


section \<open>Properties\<close>

lemma none_failed_passed:
  "(\<forall>c \<in> set cs. chk_passed c) \<longleftrightarrow> filter chk_failed cs = [] \<and> \<not> (\<exists>c \<in> set cs. chk_running c \<or> chk_inconclusive c)"
  by (auto simp: filter_empty_conv chk_passed_iff)

text \<open>
  What each CI status means, when no two failing checks share a name: green exactly when
  there are checks and all passed; pending when nothing failed but something has no verdict
  yet; flaky exactly when something failed, every failure clears the flake threshold and the
  failures are no majority; unknown exactly without checks; red in every other case.
\<close>

theorem classify_ci_meaning:
  assumes "distinct (map chk_name (filter chk_failed (coerce_checks raw)))"
  shows "as_status (classify_ci fc raw) = (let cs = coerce_checks raw; failing = filter chk_failed cs in
    if cs = [] then CI_UNKNOWN
    else if \<forall>c \<in> set cs. chk_passed c then CI_GREEN
    else if \<forall>c \<in> set cs. \<not> chk_failed c then CI_PENDING
    else if (\<forall>c \<in> set cs. chk_failed c \<longrightarrow> 1/2 \<le> fst (flake_confidence fc c))
        \<and> length failing \<le> max 2 (length cs div 2) then CI_FLAKY
    else CI_RED)"
proof -
  have failed: "filter chk_failed cs = [] \<longleftrightarrow> (\<forall>c \<in> set cs. \<not> chk_failed c)" for cs
    by (simp add: filter_empty_conv)
  show ?thesis
    unfolding classify_status Let_def none_failed_passed
    using all_flaky_distinct [OF assms, of fc]
    by (auto simp: failed majority_failing_def FLAKE_THRESHOLD_def)
qed

definition sample_context :: flake_context where
  "sample_context = \<lparr>fc_flaky_patterns = [], fc_deterministic_patterns = DEFAULT_DETERMINISTIC_CHECKS,
     fc_history = [], fc_base_failing = [], fc_analysis = []\<rparr>"

definition sample_check :: "string \<Rightarrow> string \<Rightarrow> ci_check" where
  "sample_check n concl = \<lparr>chk_name = n, chk_status = ''completed'', chk_conclusion = concl, chk_url = ''''\<rparr>"

theorem classify_ci_meaning_witness:
  "as_status (classify_ci sample_context
     [RawCheck (sample_check ''unit'' ''timed_out''), RawCheck (sample_check ''lint'' ''success'')]) = CI_FLAKY"
proof -
  let ?raw = "[RawCheck (sample_check ''unit'' ''timed_out''), RawCheck (sample_check ''lint'' ''success'')]"
  have d: "distinct (map chk_name (filter chk_failed (coerce_checks ?raw)))" by code_simp
  show ?thesis unfolding classify_ci_meaning [OF d] by code_simp
qed

text \<open>
  C27: The three-word status the merge queue reads is a function of the classification:
  \<open>pass\<close> is green, \<open>fail\<close> is flaky or red, \<open>pending\<close> is pending, and no checks is the empty
  word. The two summaries of one commit never disagree.
\<close>

theorem summary_agrees:
  "summarize_ci_status (coerce_checks raw) = (let st = as_status (classify_ci fc raw) in
     if st = CI_GREEN then ''pass'' else if st = CI_PENDING then ''pending''
     else if st = CI_UNKNOWN then '''' else ''fail'')"
  by (auto simp: classify_status summarize_ci_status_def list_ex_iff Let_def filter_empty_conv)

text \<open>
  Flake confidence is a probability for every check, whatever patterns, base-branch
  results and analysis it is given, as long as the history holds counts.
\<close>

theorem flake_confidence_probability:
  assumes "good_history (fc_history fc)"
  shows "0 \<le> fst (flake_confidence fc c) \<and> fst (flake_confidence fc c) \<le> 1"
  using assms by (rule flake_confidence_unit)

theorem flake_confidence_probability_witness:
  "0 \<le> fst (flake_confidence (sample_context\<lparr>fc_history := [(''unit'', (4, 1))]\<rparr>) (sample_check ''unit'' ''failure''))
   \<and> fst (flake_confidence (sample_context\<lparr>fc_history := [(''unit'', (4, 1))]\<rparr>) (sample_check ''unit'' ''failure'')) \<le> 1"
  by (rule flake_confidence_probability) (simp add: good_history_def)

text \<open>
  A check earns flaky status from observed flakes alone. With no failure judged real, no
  analysis verdict and no base-branch failure, two flakes lift a check that no pattern names
  over the threshold, and three lift one that the lint-like patterns name.
\<close>

theorem flakes_earn_flaky_status:
  assumes "map_of (fc_analysis fc) (chk_name c) = None" "chk_name c \<notin> set (fc_base_failing fc)"
    and "dict_get (0, 0) (fc_history fc) (chk_name c) = (f, 0)"
    and "2 \<le> f" "matches_any (chk_name c) (fc_deterministic_patterns fc) \<longrightarrow> 3 \<le> f"
  shows "FLAKE_THRESHOLD \<le> fst (flake_confidence fc c)"
proof -
  obtain p w where p: "name_prior fc c = (p, w)" by fastforce
  have "35/100 \<le> p \<or> (1/10 \<le> p \<and> 3 \<le> f)"
    using p assms(5) by (auto simp: prior_defs name_prior_def CONCLUSION_FLAKE_PRIOR_def
        split: if_splits option.splits)
  then show ?thesis
    using assms(1-4) p blend_flakes_enough [of f p] by (simp add: flake_confidence_def analysis_override_def)
qed

theorem flakes_earn_flaky_status_witness:
  "FLAKE_THRESHOLD \<le> fst (flake_confidence (sample_context\<lparr>fc_history := [(''mypy'', (3, 0))]\<rparr>)
     (sample_check ''mypy'' ''failure''))"
  by (rule flakes_earn_flaky_status [where f = 3])
     (simp_all add: sample_context_def sample_check_def dict_get_def)

text \<open>
  An assessment written to the row's JSON and read back is the assessment, with the
  confidences rounded to two places; in particular the failing checks survive unchanged.
\<close>

theorem assessment_json_roundtrip:
  assumes "as_status a \<noteq> []"
  shows "assessment_from_dict (assessment_to_dict a) =
    Some (a\<lparr>as_flake_conf := map (\<lambda>(k, v). (k, py_round_to 2 v)) (as_flake_conf a)\<rparr>)"
  using assms by (rule assessment_roundtrip)

theorem assessment_json_roundtrip_witness:
  "assessment_from_dict (assessment_to_dict (classify_ci sample_context [RawCheck (sample_check ''unit'' ''failure'')]))
     \<noteq> None"
proof -
  have "as_status (classify_ci sample_context [RawCheck (sample_check ''unit'' ''failure'')]) \<noteq> []"
    by code_simp
  from assessment_json_roundtrip [OF this] show ?thesis by simp
qed

text \<open>
  Two failing checks of one name share an entry of the confidence dict, so the second hides
  the first: a run with a failure below the threshold is reported flaky.
\<close>

lemma same_name_failure_hidden:
  "fst (flake_confidence sample_context (sample_check ''unit'' ''failure'')) < FLAKE_THRESHOLD
   \<and> as_status (classify_ci sample_context
       [RawCheck (sample_check ''unit'' ''failure''), RawCheck (sample_check ''unit'' ''timed_out'')]) = CI_FLAKY"
  by code_simp

end
