(* ===== verification/Mentions.thy ===== *)
theory Mentions
  imports Prelude
begin

text \<open>
  Live @-mentions in text about to be posted, and how they are defused
  (\<open>backends/mentions.py\<close>). The regular expressions are written out as the matching they do,
  backtracking included, on ASCII text.
\<close>

section \<open>Lines\<close>

definition backtick :: char where "backtick = char_of (96 :: nat)"

text \<open>\<open>str.splitlines()\<close>: every line end of ASCII, and a carriage return with its line feed.\<close>

definition is_break :: "char \<Rightarrow> bool" where
  "is_break c \<longleftrightarrow> (of_char c :: nat) \<in> {10, 11, 12, 13, 28, 29, 30}"

fun lines_acc :: "string \<Rightarrow> string \<Rightarrow> string list" where
  "lines_acc acc [] = (if acc = [] then [] else [rev acc])"
| "lines_acc acc (c # s) = (if is_break c
     then rev acc # lines_acc [] (if c = CHR 0x0D \<and> s \<noteq> [] \<and> hd s = newline then tl s else s)
     else lines_acc (c # acc) s)"

definition split_lines :: "string \<Rightarrow> string list" where
  "split_lines s = lines_acc [] s"

definition fence_line :: "string \<Rightarrow> bool" where
  "fence_line line = (let s = lstrip line in
     prefix [backtick, backtick, backtick] s \<or> prefix ''~~~'' s)"

definition is_letter :: "char \<Rightarrow> bool" where
  "is_letter c \<longleftrightarrow> (let n = (of_char c :: nat) in (65 \<le> n \<and> n \<le> 90) \<or> (97 \<le> n \<and> n \<le> 122))"

definition word_char :: "char \<Rightarrow> bool" where
  "word_char c \<longleftrightarrow> is_letter c \<or> is_digit c \<or> c = CHR ''_''"

text \<open>\<open>^\s*@[A-Za-z_]\w*(?:\.[\w.]+|\()\<close>; a dot or a parenthesis is no word character, so nothing backtracks.\<close>

definition decorator_line :: "string \<Rightarrow> bool" where
  "decorator_line line = (case lstrip line of
     a # c # r \<Rightarrow> a = CHR ''@'' \<and> (is_letter c \<or> c = CHR ''_'') \<and>
       (case dropWhile word_char r of
          d # e \<Rightarrow> d = CHR ''('' \<or> (d = CHR ''.'' \<and> e \<noteq> [] \<and> (word_char (hd e) \<or> hd e = CHR ''.''))
        | [] \<Rightarrow> False)
   | _ \<Rightarrow> False)"

section \<open>Handles\<close>

definition alnum :: "char \<Rightarrow> bool" where
  "alnum c \<longleftrightarrow> is_letter c \<or> is_digit c"

definition login_char :: "char \<Rightarrow> bool" where
  "login_char c \<longleftrightarrow> alnum c \<or> c = CHR ''-''"

definition team_char :: "char \<Rightarrow> bool" where
  "team_char c \<longleftrightarrow> word_char c \<or> c = CHR ''.'' \<or> c = CHR ''-''"

text \<open>
  The lengths of \<open>[A-Za-z0-9-]{0,38}(/[A-Za-z0-9_.-]+)?\<close> on the text after the first
  character of the handle, in the order the matcher tries them: the longest login first, each
  with the team (longest first) before without.
\<close>

definition team_lengths :: "string \<Rightarrow> nat list" where
  "team_lengths r = (case r of
     c # t \<Rightarrow> if c = CHR ''/'' then map Suc (rev [1..<Suc (length (takeWhile team_char t))]) else []
   | [] \<Rightarrow> [])"

definition handle_lengths :: "string \<Rightarrow> nat list" where
  "handle_lengths s = concat (map (\<lambda>k. map (\<lambda>m. k + m) (team_lengths (drop k s)) @ [k])
     (rev [0..<Suc (min 38 (length (takeWhile login_char s)))]))"

definition word_at :: "string \<Rightarrow> nat \<Rightarrow> bool" where
  "word_at s n \<longleftrightarrow> n < length s \<and> word_char (s ! n)"

text \<open>\<open>\b\<close> after the first \<open>n\<close> characters, and the first length that ends at one.\<close>

definition boundary_after :: "string \<Rightarrow> nat \<Rightarrow> bool" where
  "boundary_after s n \<longleftrightarrow> word_char (s ! (n - 1)) \<noteq> word_at s n"

definition handle_length :: "string \<Rightarrow> nat option" where
  "handle_length s = (case s of
     c # r \<Rightarrow> if alnum c then find (boundary_after s) (map Suc (handle_lengths r)) else None
   | [] \<Rightarrow> None)"

definition blocks_mention :: "char \<Rightarrow> bool" where
  "blocks_mention c \<longleftrightarrow> word_char c \<or> c \<in> {backtick, CHR ''@'', CHR ''.'', CHR ''/''}"

definition free_before :: "char option \<Rightarrow> bool" where
  "free_before prev \<longleftrightarrow> (case prev of None \<Rightarrow> True | Some c \<Rightarrow> \<not> blocks_mention c)"

text \<open>The matches of a text from left to right, between the characters that are not matched.\<close>

datatype segment = Plain char | Handle string

function (sequential) segments :: "char option \<Rightarrow> string \<Rightarrow> segment list" where
  "segments prev [] = []"
| "segments prev (c # s) = (case (if c = CHR ''@'' \<and> free_before prev then handle_length s else None) of
     Some n \<Rightarrow> Handle (take n s) # segments (Some (last (c # take n s))) (drop n s)
   | None \<Rightarrow> Plain c # segments (Some c) s)"
  by pat_completeness auto
termination by (relation "measure (\<lambda>(_, s). length s)") auto

section \<open>Escaping and scanning\<close>

definition CRON :: "string list" where
  "CRON = [''yearly'', ''annually'', ''monthly'', ''weekly'', ''daily'', ''hourly'', ''midnight'', ''once'', ''reboot'']"

definition harmless :: "string list \<Rightarrow> string \<Rightarrow> bool" where
  "harmless allowed handle \<longleftrightarrow> lower handle \<in> set allowed \<or> lower handle \<in> set CRON"

definition normalize_allowlist :: "string list \<Rightarrow> string list" where
  "normalize_allowlist handles = map (\<lambda>h. lower (dropWhile (\<lambda>c. c = CHR ''@'') (strip h)))
     (filter (\<lambda>h. h \<noteq> [] \<and> strip h \<noteq> []) handles)"

fun render :: "string list \<Rightarrow> segment \<Rightarrow> string" where
  "render allowed (Plain c) = [c]"
| "render allowed (Handle h) = (if harmless allowed h then CHR ''@'' # h
     else [backtick, CHR ''@''] @ h @ [backtick])"

definition escape_prose :: "string list \<Rightarrow> string \<Rightarrow> string" where
  "escape_prose allowed p = concat (map (render allowed) (segments None p))"

text \<open>
  \<open>re.split("(`[^`]*`)", line)\<close>: texts and code spans alternate. A piece is a pair of whether
  it is a span and its text.
\<close>

function (sequential) code_split :: "string \<Rightarrow> string \<Rightarrow> (bool \<times> string) list" where
  "code_split acc [] = [(False, rev acc)]"
| "code_split acc (c # s) = (if c = backtick \<and> backtick \<in> set s
     then (False, rev acc) # (True, c # takeWhile (\<lambda>d. d \<noteq> backtick) s @ [backtick])
        # code_split [] (tl (dropWhile (\<lambda>d. d \<noteq> backtick) s))
     else code_split (c # acc) s)"
  by pat_completeness auto
termination
proof (relation "measure (\<lambda>(_, s). length s)")
  fix acc s and c :: char
  show "(([], tl (dropWhile (\<lambda>d. d \<noteq> backtick) s)), acc, c # s) \<in> measure (\<lambda>(_, s). length s)"
    using length_dropWhile_le [of "\<lambda>d. d \<noteq> backtick" s] by (simp add: less_Suc_eq_le diff_le_self le_trans)
qed auto

definition escape_piece :: "string list \<Rightarrow> string \<Rightarrow> string" where
  "escape_piece allowed p = (if prefix [backtick] p then p else escape_prose allowed p)"

definition escape_line :: "string list \<Rightarrow> string \<Rightarrow> string" where
  "escape_line allowed line = concat (map (\<lambda>(_, p). escape_piece allowed p) (code_split [] line))"

fun escape_lines :: "string list \<Rightarrow> bool \<Rightarrow> string list \<Rightarrow> string list" where
  "escape_lines allowed inside [] = []"
| "escape_lines allowed inside (line # lines) =
     (if fence_line line then line # escape_lines allowed (\<not> inside) lines
      else (if inside \<or> decorator_line line then line else escape_line allowed line)
        # escape_lines allowed inside lines)"

definition escape_handles :: "string list \<Rightarrow> string \<Rightarrow> string" where
  "escape_handles allowed text = join [newline] (escape_lines allowed False (split_lines text))"

record mention_hit =
  mh_handle :: string
  mh_line :: nat
  mh_text :: string

definition prose_of :: "string \<Rightarrow> string" where
  "prose_of line = concat (map (\<lambda>(is_span, p). if is_span then [] else p) (code_split [] line))"

fun live_handles :: "string list \<Rightarrow> segment list \<Rightarrow> string list" where
  "live_handles allowed [] = []"
| "live_handles allowed (Plain c # segs) = live_handles allowed segs"
| "live_handles allowed (Handle h # segs) =
     (if harmless allowed h then live_handles allowed segs else h # live_handles allowed segs)"

definition line_hits :: "string list \<Rightarrow> nat \<Rightarrow> string \<Rightarrow> mention_hit list" where
  "line_hits allowed number line = map (\<lambda>h. \<lparr>mh_handle = h, mh_line = number, mh_text = strip line\<rparr>)
     (live_handles allowed (segments None (prose_of line)))"

fun scan_lines :: "string list \<Rightarrow> bool \<Rightarrow> nat \<Rightarrow> string list \<Rightarrow> mention_hit list" where
  "scan_lines allowed inside number [] = []"
| "scan_lines allowed inside number (line # lines) =
     (if fence_line line then scan_lines allowed (\<not> inside) (Suc number) lines
      else (if inside \<or> decorator_line line then [] else line_hits allowed number line)
        @ scan_lines allowed inside (Suc number) lines)"

definition mention_scan :: "string list \<Rightarrow> string \<Rightarrow> mention_hit list" where
  "mention_scan allowed text = scan_lines allowed False 1 (split_lines text)"


section \<open>Escaping only adds backticks\<close>

fun seg_text :: "segment \<Rightarrow> string" where
  "seg_text (Plain c) = [c]"
| "seg_text (Handle h) = CHR ''@'' # h"

lemma segments_text: "concat (map seg_text (segments prev s)) = s"
  by (induction prev s rule: segments.induct) (auto split: option.split if_splits)

definition no_ticks :: "string \<Rightarrow> string" where
  "no_ticks s = filter (\<lambda>c. c \<noteq> backtick) s"

lemma no_ticks_append [simp]: "no_ticks (a @ b) = no_ticks a @ no_ticks b"
  by (simp add: no_ticks_def)

lemma no_ticks_concat: "no_ticks (concat xs) = concat (map no_ticks xs)"
  by (induction xs) (simp_all add: no_ticks_def)

lemma no_ticks_render: "no_ticks (render allowed seg) = no_ticks (seg_text seg)"
  by (cases seg) (simp_all add: no_ticks_def)

lemma no_ticks_escape_prose: "no_ticks (escape_prose allowed p) = no_ticks p"
proof -
  have "no_ticks (escape_prose allowed p) = no_ticks (concat (map seg_text (segments None p)))"
    by (simp add: escape_prose_def no_ticks_concat no_ticks_render comp_def)
  then show ?thesis by (simp add: segments_text)
qed

lemma span_rest: "backtick \<in> set s \<Longrightarrow>
    takeWhile (\<lambda>d. d \<noteq> backtick) s @ backtick # tl (dropWhile (\<lambda>d. d \<noteq> backtick) s) = s"
  by (induction s) auto

lemma code_split_text: "concat (map snd (code_split acc s)) = rev acc @ s"
  by (induction acc s rule: code_split.induct) (auto simp: span_rest)

lemma no_ticks_escape_line: "no_ticks (escape_line allowed line) = no_ticks line"
proof -
  have "no_ticks (escape_piece allowed p) = no_ticks p" for p
    by (simp add: escape_piece_def no_ticks_escape_prose)
  then have "no_ticks (escape_line allowed line) = no_ticks (concat (map snd (code_split [] line)))"
    by (simp add: escape_line_def no_ticks_concat comp_def split_def)
  then show ?thesis by (simp add: code_split_text)
qed

lemma no_ticks_join: "map no_ticks ls = map no_ticks ls' \<Longrightarrow> no_ticks (join sep ls) = no_ticks (join sep ls')"
proof (induction sep ls arbitrary: ls' rule: join.induct)
  case (3 sep x y xs)
  from "3.prems" obtain x' y' xs' where ls': "ls' = x' # y' # xs'" by (auto simp: Cons_eq_map_conv)
  with "3.prems" have "no_ticks (join sep (y # xs)) = no_ticks (join sep (y' # xs'))" by (intro "3.IH") simp
  with "3.prems" ls' show ?case by simp
qed (auto simp: Cons_eq_map_conv)

lemma no_ticks_escape_lines: "map no_ticks (escape_lines allowed inside ls) = map no_ticks ls"
  by (induction ls arbitrary: inside) (simp_all add: no_ticks_escape_line)

text \<open>
  Escaping changes nothing but backticks: with all backticks removed, the escaped text is
  the given text (its lines joined by line feeds).
\<close>

theorem escape_adds_only_backticks:
  "no_ticks (escape_handles allowed text) = no_ticks (join [newline] (split_lines text))"
  unfolding escape_handles_def by (rule no_ticks_join) (rule no_ticks_escape_lines)

section \<open>What is escaped is no longer live\<close>

text \<open>Every @ stands at the start of the text or after white space.\<close>

fun lone_ats :: "bool \<Rightarrow> string \<Rightarrow> bool" where
  "lone_ats start [] = True"
| "lone_ats start (c # s) = ((c = CHR ''@'' \<longrightarrow> start) \<and> lone_ats (is_space c) s)"

lemma lone_ats_append:
  "lone_ats b (u @ v) \<longleftrightarrow> lone_ats b u \<and> lone_ats (if u = [] then b else is_space (last u)) v"
  by (induction u arbitrary: b) auto

lemma space_chars: "is_space c \<Longrightarrow> \<not> word_char c \<and> \<not> alnum c \<and> \<not> login_char c \<and> \<not> team_char c
    \<and> \<not> blocks_mention c \<and> c \<noteq> CHR ''/'' \<and> c \<noteq> CHR ''@'' \<and> c \<noteq> backtick \<and> c \<noteq> CHR ''~''"
  by (auto simp: is_space_def word_char_def is_letter_def is_digit_def alnum_def login_char_def team_char_def
      blocks_mention_def backtick_def Let_def)

lemma special_chars [simp]:
  "\<not> is_space CHR ''@''" "\<not> is_space backtick" "\<not> is_break CHR ''@''" "\<not> is_break backtick"
  "backtick \<noteq> CHR ''@''" "backtick \<noteq> CHR ''~''" "is_break newline"
  by code_simp+

lemma breaks_are_spaces: "is_break c \<Longrightarrow> is_space c"
  by (auto simp: is_break_def is_space_def Let_def)

definition space_head :: "string \<Rightarrow> bool" where
  "space_head r \<longleftrightarrow> r = [] \<or> is_space (hd r)"

lemma takeWhile_space_head:
  "(\<And>c. is_space c \<Longrightarrow> \<not> P c) \<Longrightarrow> space_head r \<Longrightarrow> takeWhile P (w @ r) = takeWhile P w"
  by (induction w) (cases r; simp add: space_head_def)+

lemma team_lengths_append: "space_head r \<Longrightarrow> team_lengths (w @ r) = team_lengths w"
proof (cases w)
  case Nil
  assume "space_head r"
  with Nil show ?thesis using space_chars by (cases r) (auto simp: team_lengths_def space_head_def)
next
  case (Cons c t)
  assume "space_head r"
  then have "takeWhile team_char (t @ r) = takeWhile team_char t"
    using takeWhile_space_head space_chars by blast
  with Cons show ?thesis by (simp add: team_lengths_def)
qed

lemma team_lengths_le: "n \<in> set (team_lengths r) \<Longrightarrow> n \<le> length r"
  using length_takeWhile_le [of team_char "tl r"]
  by (cases r) (auto simp: team_lengths_def split: if_splits)

lemma handle_lengths_append: "space_head r \<Longrightarrow> handle_lengths (w @ r) = handle_lengths w"
proof -
  assume r: "space_head r"
  have tw: "takeWhile login_char (w @ r) = takeWhile login_char w"
    using takeWhile_space_head [OF _ r] space_chars by blast
  have "k \<le> length w \<Longrightarrow> team_lengths (drop k (w @ r)) = team_lengths (drop k w)" for k
    using team_lengths_append [OF r, of "drop k w"] by simp
  moreover have "k \<in> set (rev [0..<Suc (min 38 (length (takeWhile login_char w)))]) \<Longrightarrow> k \<le> length w" for k
    using length_takeWhile_le [of login_char w] by auto
  ultimately show ?thesis unfolding handle_lengths_def tw
    by (intro arg_cong [of _ _ concat] map_cong refl) auto
qed

lemma handle_lengths_le: "n \<in> set (handle_lengths w) \<Longrightarrow> n \<le> length w"
proof -
  assume a: "n \<in> set (handle_lengths w)"
  obtain k where k: "k < Suc (min 38 (length (takeWhile login_char w)))"
    and n: "n \<in> set (map (\<lambda>m. k + m) (team_lengths (drop k w)) @ [k])"
    using a unfolding handle_lengths_def by (auto simp del: upt_Suc)
  then have k: "k \<le> length (takeWhile login_char w)" and n: "n = k \<or> (\<exists>m \<in> set (team_lengths (drop k w)). n = k + m)"
    by auto
  have "k \<le> length w" using k length_takeWhile_le le_trans by blast
  with n team_lengths_le [of _ "drop k w"] show ?thesis by fastforce
qed

text \<open>A match does not look past white space.\<close>

lemma boundary_append: "space_head r \<Longrightarrow> 0 < n \<Longrightarrow> n \<le> length w \<Longrightarrow> boundary_after (w @ r) n = boundary_after w n"
proof -
  assume r: "space_head r" and n: "0 < n" "n \<le> length w"
  have "word_at (w @ r) n = word_at w n"
  proof (cases "n = length w")
    case True
    with r show ?thesis using space_chars by (cases r) (auto simp: word_at_def space_head_def nth_append)
  qed (use n in \<open>simp add: word_at_def nth_append\<close>)
  moreover have "n - 1 < length w" using n by linarith
  then have "(w @ r) ! (n - 1) = w ! (n - 1)" by (simp add: nth_append)
  ultimately show ?thesis by (simp add: boundary_after_def)
qed

lemma find_cong_on: "(\<And>x. x \<in> set xs \<Longrightarrow> P x = Q x) \<Longrightarrow> find P xs = find Q xs"
  by (induction xs) auto

lemma handle_length_append: "space_head r \<Longrightarrow> handle_length (w @ r) = handle_length w"
proof (cases w)
  case Nil
  assume "space_head r"
  with Nil show ?thesis using space_chars by (cases r) (auto simp: handle_length_def space_head_def)
next
  case (Cons c t)
  assume r: "space_head r"
  have "find (boundary_after ((c # t) @ r)) (map Suc (handle_lengths t)) = find (boundary_after (c # t)) (map Suc (handle_lengths t))"
    using handle_lengths_le by (intro find_cong_on boundary_append r) auto
  then show ?thesis using Cons handle_lengths_append [OF r, of t] by (simp add: handle_length_def)
qed

lemma handle_length_bounds: "handle_length w = Some n \<Longrightarrow> 0 < n \<and> n \<le> length w"
proof -
  assume "handle_length w = Some n"
  then obtain c r where "w = c # r" "find (boundary_after w) (map Suc (handle_lengths r)) = Some n"
    by (auto simp: handle_length_def split: list.splits if_splits)
  moreover from this(2) have "n \<in> set (map Suc (handle_lengths r))"
    by (auto simp: find_Some_iff simp del: set_map) (metis length_map nth_map nth_mem)+
  ultimately show ?thesis using handle_lengths_le [of _ r] by auto
qed


text \<open>The text that the scan sees after an escape: the spans are gone.\<close>

fun left_over :: "string list \<Rightarrow> segment \<Rightarrow> string" where
  "left_over allowed (Plain c) = [c]"
| "left_over allowed (Handle h) = (if harmless allowed h then CHR ''@'' # h else [])"

definition left_prose :: "string list \<Rightarrow> segment list \<Rightarrow> string" where
  "left_prose allowed segs = concat (map (left_over allowed) segs)"

lemma left_prose_simps [simp]:
  "left_prose allowed [] = []"
  "left_prose allowed (seg # segs) = left_over allowed seg @ left_prose allowed segs"
  by (simp_all add: left_prose_def)

lemma split_word: "\<exists>w r. s = w @ r \<and> space_head r \<and> list_all (\<lambda>c. \<not> is_space c) w"
proof -
  have "s = takeWhile (\<lambda>c. \<not> is_space c) s @ dropWhile (\<lambda>c. \<not> is_space c) s" by simp
  moreover have "space_head (dropWhile (\<lambda>c. \<not> is_space c) s)"
    unfolding space_head_def using hd_dropWhile by blast
  moreover have "list_all (\<lambda>c. \<not> is_space c) (takeWhile (\<lambda>c. \<not> is_space c) s)"
    by (simp add: list_all_iff) (metis set_takeWhileD)
  ultimately show ?thesis by blast
qed

lemma lone_word: "lone_ats False w \<Longrightarrow> list_all (\<lambda>c. \<not> is_space c) w \<Longrightarrow> CHR ''@'' \<notin> set w"
  by (induction w) auto

lemma segments_plain: "CHR ''@'' \<notin> set w \<Longrightarrow>
    segments prev (w @ r) = map Plain w @ segments (if w = [] then prev else Some (last w)) r"
  by (induction w arbitrary: prev) auto

lemma left_prose_word: "CHR ''@'' \<notin> set w \<Longrightarrow>
    left_prose allowed (segments prev (w @ r)) = w @ left_prose allowed (segments (if w = [] then prev else Some (last w)) r)"
  by (simp add: segments_plain left_prose_def comp_def)

lemma left_prose_space_head: "space_head r \<Longrightarrow> space_head (left_prose allowed (segments prev r))"
  using space_chars by (cases r) (auto simp: space_head_def)

text \<open>
  A position where the scan of what is left over tries a match sees the text up to the next
  white space unchanged.
\<close>

lemma handle_length_left:
  assumes "lone_ats False s"
  shows "handle_length (u @ left_prose allowed (segments prev s)) = handle_length (u @ s)"
proof -
  obtain w r where s: "s = w @ r" "space_head r" "list_all (\<lambda>c. \<not> is_space c) w" using split_word by blast
  then have w: "CHR ''@'' \<notin> set w" using assms lone_word by (simp add: lone_ats_append)
  have "handle_length ((u @ w) @ left_prose allowed (segments (if w = [] then prev else Some (last w)) r)) = handle_length (u @ w)"
    by (intro handle_length_append left_prose_space_head s(2))
  moreover have "handle_length ((u @ w) @ r) = handle_length (u @ w)" using s(2) by (rule handle_length_append)
  ultimately show ?thesis unfolding s(1) left_prose_word [OF w] by simp
qed

definition opens :: "char option \<Rightarrow> bool" where
  "opens prev \<longleftrightarrow> (case prev of None \<Rightarrow> True | Some c \<Rightarrow> is_space c)"

lemma opens_free: "opens prev \<Longrightarrow> free_before prev"
  using space_chars by (cases prev) (auto simp: opens_def free_before_def)

lemma boundary_last: "handle_length s = Some n \<Longrightarrow> list_all (\<lambda>c. \<not> is_space c) (take n s)"
proof -
  assume n: "handle_length s = Some n"
  obtain w r where s: "s = w @ r" "space_head r" "list_all (\<lambda>c. \<not> is_space c) w" using split_word by blast
  have "n \<le> length w" using n handle_length_append [OF s(2)] handle_length_bounds s(1) by metis
  then show ?thesis using s by (auto simp: list_all_iff dest: in_set_takeD)
qed

lemma handle_last: "handle_length s = Some n \<Longrightarrow> take n s \<noteq> [] \<and> \<not> is_space (last (take n s)) \<and> last (c # take n s) = last (take n s)"
proof -
  assume n: "handle_length s = Some n"
  have ne: "take n s \<noteq> []" using handle_length_bounds [OF n] by auto
  then have "last (take n s) \<in> set (take n s)" by simp
  with ne boundary_last [OF n] show ?thesis by (simp add: list_all_iff)
qed

lemma nothing_left_live:
  "lone_ats (opens prev) s \<Longrightarrow> (opens prev \<longrightarrow> prev' = prev) \<Longrightarrow>
     live_handles allowed (segments prev' (left_prose allowed (segments prev s))) = []"
proof (induction prev s arbitrary: prev' rule: segments.induct)
  case (2 prev c s)
  show ?case
  proof (cases "if c = CHR ''@'' \<and> free_before prev then handle_length s else None")
    case None
    show ?thesis
    proof (cases "c = CHR ''@''")
      case True
      with "2.prems" have o: "opens prev" "prev' = prev" by auto
      with True None have n: "handle_length s = None" using opens_free by simp
      have l: "lone_ats False s" using "2.prems"(1) True space_chars by auto
      have "handle_length (left_prose allowed (segments (Some c) s)) = None"
        using handle_length_left [OF l, of "[]"] n by simp
      moreover have "live_handles allowed (segments (Some c) (left_prose allowed (segments (Some c) s))) = []"
        using "2.IH"(1) [OF None, of "Some c"] l True space_chars by (auto simp: opens_def)
      ultimately show ?thesis using n True by simp
    next
      case False
      have "live_handles allowed (segments (Some c) (left_prose allowed (segments (Some c) s))) = []"
        using "2.IH"(1) [OF None, of "Some c"] "2.prems" by (simp add: opens_def)
      with False show ?thesis by simp
    qed
  next
    case (Some n)
    then have c: "c = CHR ''@''" and n: "handle_length s = Some n" by (simp_all split: if_splits)
    note hl = handle_last [OF n, of c]
    let ?p = "Some (last (take n s))"
    have l: "lone_ats False s" using "2.prems"(1) c space_chars by auto
    have ld: "lone_ats False (drop n s)"
      using l hl lone_ats_append [of False "take n s" "drop n s"] by (simp split: if_splits)
    have np: "\<not> opens ?p" using hl by (simp add: opens_def)
    have IH: "live_handles allowed (segments q (left_prose allowed (segments ?p (drop n s)))) = []" for q
      using "2.IH"(2) [OF Some, of q] ld hl np by simp
    show ?thesis
    proof (cases "harmless allowed (take n s)")
      case True
      have o: "opens prev" "prev' = prev" using "2.prems" c by auto
      have "handle_length (take n s @ left_prose allowed (segments ?p (drop n s))) = Some n"
        using handle_length_left [OF ld, of "take n s" allowed ?p] n by simp
      then show ?thesis
        using True c n o opens_free hl IH [of ?p] handle_length_bounds [OF n] by simp
    next
      case False
      then show ?thesis using c n "2.prems" opens_free hl IH by simp
    qed
  qed
qed simp


text \<open>The prose of an escaped text is what is left over.\<close>

lemma code_split_plain: "backtick \<notin> set p \<Longrightarrow> code_split acc (p @ s) = code_split (rev p @ acc) s"
  by (induction p arbitrary: acc) auto

lemma code_split_none: "backtick \<notin> set s \<Longrightarrow> code_split acc s = [(False, rev acc @ s)]"
  using code_split_plain [of s acc "[]"] by simp

lemma takeWhile_ticks: "backtick \<notin> set h \<Longrightarrow>
    takeWhile (\<lambda>d. d \<noteq> backtick) (h @ backtick # s) = h \<and> dropWhile (\<lambda>d. d \<noteq> backtick) (h @ backtick # s) = backtick # s"
  by (induction h) auto

definition prose_pieces :: "(bool \<times> string) list \<Rightarrow> string" where
  "prose_pieces ps = concat (map (\<lambda>(is_span, p). if is_span then [] else p) ps)"

lemma prose_of_rendered: "backtick \<notin> set (concat (map seg_text segs)) \<Longrightarrow>
    prose_pieces (code_split acc (concat (map (render allowed) segs))) = rev acc @ left_prose allowed segs"
proof (induction segs arbitrary: acc)
  case Nil
  show ?case by (simp add: prose_pieces_def left_prose_def)
next
  case (Cons seg segs)
  show ?case
  proof (cases "\<exists>h. seg = Handle h \<and> \<not> harmless allowed h")
    case True
    then obtain h where h: "seg = Handle h" "\<not> harmless allowed h" by blast
    with Cons.prems have t: "backtick \<notin> set (CHR ''@'' # h)" "backtick \<notin> set (concat (map seg_text segs))" by auto
    have "concat (map (render allowed) (seg # segs)) = backtick # (CHR ''@'' # h) @ backtick # concat (map (render allowed) segs)"
      using h by simp
    then show ?thesis
      using h Cons.IH [OF t(2), of "[]"] takeWhile_ticks [OF t(1), of "concat (map (render allowed) segs)"]
      by (simp add: prose_pieces_def)
  next
    case False
    then have r: "render allowed seg = left_over allowed seg" "backtick \<notin> set (left_over allowed seg)"
      using Cons.prems by (cases seg; auto)+
    have "prose_pieces (code_split acc (left_over allowed seg @ concat (map (render allowed) segs)))
      = rev (rev (left_over allowed seg) @ acc) @ left_prose allowed segs"
      using Cons.prems by (subst code_split_plain [OF r(2)], intro Cons.IH) simp
    then show ?thesis by (simp add: r(1))
  qed
qed

lemma escape_line_no_ticks: "backtick \<notin> set line \<Longrightarrow> escape_line allowed line = escape_prose allowed line"
  by (cases line) (auto simp: escape_line_def escape_piece_def code_split_none)

lemma line_defused:
  assumes "backtick \<notin> set line" and "lone_ats True line"
  shows "line_hits allowed n (escape_line allowed line) = []"
proof -
  have "prose_of (escape_line allowed line) = left_prose allowed (segments None line)"
    using prose_of_rendered [of "segments None line" "[]" allowed] assms(1)
    by (simp add: escape_line_no_ticks prose_of_def prose_pieces_def escape_prose_def segments_text)
  moreover have "live_handles allowed (segments None (left_prose allowed (segments None line))) = []"
    using nothing_left_live [of None line None allowed] assms(2) by (simp add: opens_def)
  ultimately show ?thesis by (simp add: line_hits_def)
qed

text \<open>Escaping a line that is no fence does not make it one.\<close>

definition rendered :: "string list \<Rightarrow> char option \<Rightarrow> string \<Rightarrow> string" where
  "rendered allowed prev s = concat (map (render allowed) (segments prev s))"

lemma rendered_Nil [simp]: "rendered allowed prev [] = []"
  by (simp add: rendered_def)

lemma rendered_other: "c \<noteq> CHR ''@'' \<Longrightarrow> rendered allowed prev (c # s) = c # rendered allowed (Some c) s"
  by (simp add: rendered_def)

lemma rendered_at: "\<exists>d r. rendered allowed prev (CHR ''@'' # s) = d # r \<and> (d = CHR ''@'' \<or> (d = backtick \<and> r \<noteq> [] \<and> hd r = CHR ''@''))"
  by (auto simp: rendered_def split: option.split if_splits)

lemma rendered_tilde: "rendered allowed prev s = CHR ''~'' # e \<Longrightarrow> \<exists>s1. s = CHR ''~'' # s1 \<and> e = rendered allowed (Some CHR ''~'') s1"
proof (cases s)
  case (Cons c s1)
  assume e: "rendered allowed prev s = CHR ''~'' # e"
  have "c \<noteq> CHR ''@''"
  proof
    assume "c = CHR ''@''"
    with Cons e rendered_at [of allowed prev s1] show False by (auto dest: sym)
  qed
  with Cons e show ?thesis by (auto simp: rendered_other)
qed simp

lemma fence_rendered: "backtick \<notin> set s \<Longrightarrow> fence_line (rendered allowed prev s) \<Longrightarrow> fence_line s"
proof (induction s arbitrary: prev)
  case (Cons c s)
  show ?case
  proof (cases "c = CHR ''@''")
    case True
    with rendered_at [of allowed prev s] obtain d r where d: "rendered allowed prev (c # s) = d # r"
      "d = CHR ''@'' \<or> (d = backtick \<and> r \<noteq> [] \<and> hd r = CHR ''@'')" by auto
    then have "\<not> fence_line (rendered allowed prev (c # s))"
      by (cases r) (auto simp: fence_line_def lstrip_def Let_def dest: sym)
    with Cons.prems show ?thesis by blast
  next
    case False
    then have r: "rendered allowed prev (c # s) = c # rendered allowed (Some c) s" by (rule rendered_other)
    show ?thesis
    proof (cases "is_space c")
      case True
      with Cons r show ?thesis by (simp add: fence_line_def lstrip_def)
    next
      case sp: False
      have "prefix ''~~~'' (c # rendered allowed (Some c) s)"
        using Cons.prems r sp by (auto simp: fence_line_def lstrip_def Let_def)
      then obtain e where e: "c = CHR ''~''" "rendered allowed (Some c) s = CHR ''~'' # CHR ''~'' # e"
        by (auto simp: prefix_def)
      from rendered_tilde [OF e(2)] obtain s1 where s1: "s = CHR ''~'' # s1"
        "rendered allowed (Some CHR ''~'') s1 = CHR ''~'' # e" by metis
      from rendered_tilde [OF s1(2)] obtain s2 where "s1 = CHR ''~'' # s2" by blast
      with s1 e sp show ?thesis by (simp add: fence_line_def lstrip_def)
    qed
  qed
qed (simp add: fence_line_def lstrip_def)

lemma escaped_fence: "backtick \<notin> set line \<Longrightarrow> \<not> fence_line line \<Longrightarrow> \<not> fence_line (escape_line allowed line)"
  using fence_rendered [of line allowed None] by (auto simp: escape_line_no_ticks escape_prose_def rendered_def)

definition tame :: "string \<Rightarrow> bool" where
  "tame line \<longleftrightarrow> backtick \<notin> set line \<and> lone_ats True line"

lemma lines_defused: "list_all tame ls \<Longrightarrow> scan_lines allowed inside n (escape_lines allowed inside ls) = []"
  by (induction ls arbitrary: inside n) (auto simp: line_defused escaped_fence tame_def)


text \<open>The lines of a tame text are tame, and the escaped lines survive the join.\<close>

lemma tame_lines_acc:
  "backtick \<notin> set s \<Longrightarrow> tame (rev acc) \<Longrightarrow> lone_ats (if acc = [] then True else is_space (hd acc)) s \<Longrightarrow>
     list_all tame (lines_acc acc s)"
proof (induction acc s rule: lines_acc.induct)
  case (2 acc c s)
  show ?case
  proof (cases "is_break c")
    case True
    let ?s = "if c = CHR 0x0D \<and> s \<noteq> [] \<and> hd s = newline then tl s else s"
    have "lone_ats True s" using "2.prems" breaks_are_spaces [OF True] by simp
    moreover have "is_space newline" by code_simp
    ultimately have "lone_ats True ?s" by (cases s) auto
    moreover have "backtick \<notin> set ?s" using "2.prems" by (cases s) auto
    moreover have "tame (rev [])" by (simp add: tame_def)
    ultimately have "list_all tame (lines_acc [] ?s)" by (intro "2.IH"(1) [OF True]) simp_all
    with True "2.prems" show ?thesis by simp
  next
    case False
    have "tame (rev (c # acc))"
      using "2.prems" by (cases acc) (auto simp: tame_def lone_ats_append)
    then show ?thesis using "2.IH"(2) [OF False] "2.prems" False by simp
  qed
qed simp

definition unbroken :: "string \<Rightarrow> bool" where
  "unbroken line \<longleftrightarrow> list_all (\<lambda>c. \<not> is_break c) line"

lemma unbroken_lines: "unbroken acc \<Longrightarrow> list_all unbroken (lines_acc acc s)"
  by (induction acc s rule: lines_acc.induct) (auto simp: unbroken_def)

lemma unbroken_text: "unbroken (no_ticks s) \<longleftrightarrow> unbroken s"
  by (induction s) (auto simp: unbroken_def no_ticks_def)

lemma unbroken_escaped: "list_all unbroken ls \<Longrightarrow> list_all unbroken (escape_lines allowed inside ls)"
proof -
  assume u: "list_all unbroken ls"
  have "list_all (unbroken \<circ> no_ticks) (escape_lines allowed inside ls) = list_all (unbroken \<circ> no_ticks) ls"
    using no_ticks_escape_lines [of allowed inside ls] by (metis list.pred_map)
  then show ?thesis using u by (simp add: comp_def unbroken_text)
qed

lemma lines_acc_line: "unbroken l \<Longrightarrow> lines_acc acc (l @ newline # s) = (rev acc @ l) # lines_acc [] s"
  by (induction l arbitrary: acc) (auto simp: unbroken_def)

lemma lines_acc_last: "unbroken l \<Longrightarrow> lines_acc acc l = (if acc = [] \<and> l = [] then [] else [rev acc @ l])"
  by (induction l arbitrary: acc) (auto simp: unbroken_def)

lemma split_join: "list_all unbroken ls \<Longrightarrow>
    split_lines (join [newline] ls) = (if ls \<noteq> [] \<and> last ls = [] then butlast ls else ls)"
proof (induction "[newline]" ls rule: join.induct)
  case (3 x y xs)
  then have "split_lines (join [newline] (x # y # xs)) = x # split_lines (join [newline] (y # xs))"
    by (simp add: split_lines_def lines_acc_line)
  with 3 show ?case by simp
qed (simp_all add: split_lines_def lines_acc_last)

lemma scan_lines_append: "scan_lines allowed inside n (xs @ ys) = [] \<Longrightarrow> scan_lines allowed inside n xs = []"
  by (induction xs arbitrary: inside n) (auto split: if_splits)

text \<open>
  Escaping defuses. For a text without backticks in which every @ begins a word, a scan of
  the escaped text finds no live mention: every handle is inside a code span, on a fenced or
  decorator line, on the allow-list, or a cron alias.
\<close>

theorem escape_defuses:
  assumes "backtick \<notin> set text" and "lone_ats True text"
  shows "mention_scan allowed (escape_handles allowed text) = []"
proof -
  let ?ls = "escape_lines allowed False (split_lines text)"
  have "list_all tame (split_lines text)"
    unfolding split_lines_def using assms by (intro tame_lines_acc) (simp_all add: tame_def)
  then have none: "scan_lines allowed False 1 ?ls = []" by (rule lines_defused)
  have "list_all unbroken ?ls"
    unfolding split_lines_def by (intro unbroken_escaped unbroken_lines) (simp add: unbroken_def)
  then have sj: "split_lines (join [newline] ?ls) = (if ?ls \<noteq> [] \<and> last ?ls = [] then butlast ?ls else ?ls)"
    by (rule split_join)
  have "?ls \<noteq> [] \<Longrightarrow> scan_lines allowed False 1 (butlast ?ls) = []"
    using none scan_lines_append [of allowed False 1 "butlast ?ls" "[last ?ls]"] by simp
  with none show ?thesis unfolding mention_scan_def escape_handles_def sj by auto
qed

definition sample_note :: string where
  "sample_note = ''Thanks @bob, see @org/team-x. '' @ newline # ''@daily (@ann)'' @ [newline]"

theorem escape_defuses_witness:
  "mention_scan [] sample_note \<noteq> [] \<and> mention_scan [] (escape_handles [] ''cc @bob and @org/team-x.'') = []"
proof -
  have "backtick \<notin> set ''cc @bob and @org/team-x.''" "lone_ats True ''cc @bob and @org/team-x.''" by code_simp+
  from escape_defuses [OF this, of "[]"] have "mention_scan [] (escape_handles [] ''cc @bob and @org/team-x.'') = []" .
  moreover have "mention_scan [] sample_note \<noteq> []" by code_simp
  ultimately show ?thesis by blast
qed

text \<open>
  The two conditions are needed. A line that starts with an unpaired backtick is not escaped
  at all, and a handle glued to an escaped one becomes live.
\<close>

lemma unpaired_backtick_escapes_nothing:
  "escape_handles [] (backtick # '' ping @bob'') = backtick # '' ping @bob''"
  "map mh_handle (mention_scan [] (escape_handles [] (backtick # '' ping @bob''))) = [''bob'']"
  by code_simp+

lemma glued_handle_goes_live:
  "map mh_handle (mention_scan [] ''@bob@alice'') = [''bob'']"
  "map mh_handle (mention_scan [] (escape_handles [] ''@bob@alice'')) = [''alice'']"
  by code_simp+

end
