(* ===== verification/Signals.thy ===== *)
theory Signals
  imports Glob Mentions
begin

text \<open>
  Interest signals (\<open>scoring/signals.py\<close>, \<open>scoring/blame.py\<close>,
  \<open>scoring/collaborators.py\<close>, \<open>scoring/downstream.py\<close>). Each signal is a function of
  the PR's data that returns points, or \<open>None\<close> when it does not fire.
\<close>

section \<open>Weights\<close>

definition WEIGHTS :: "(string \<times> int) list" where
  "WEIGHTS = [
     (''path_overlap'', 30), (''mentioned_or_assigned'', 25), (''has_review_request'', 20),
     (''recently_updated'', 20), (''prior_review_history'', 15), (''collaborator'', 15),
     (''touches_operator_code'', 20), (''merge_conflict'', -15), (''new_human_contributor'', 10),
     (''keyword_match'', 10), (''ai_generated'', 10), (''llm_interest'', 20),
     (''committer_is_on_it'', -25), (''updated_since_operator_review'', 25),
     (''pending_response'', 20), (''author_awaiting_maintainer'', 20), (''downstream_impact'', 20),
     (''sentry_errors'', 15), (''cve_file_history'', 25), (''draft_findings'', 5),
     (''jira_linked'', 5), (''jira_priority_author_created'', 15),
     (''jira_priority_author_commented'', 3), (''mailing_list_mention'', 15),
     (''mailing_list_blame_author'', 10)]"

definition weight :: "string \<Rightarrow> int" where
  "weight name = dict_get 0 WEIGHTS name"

abbreviation MAX_SCORE :: rat where "MAX_SCORE \<equiv> 100"
abbreviation LARGE_PR_THRESHOLD :: int where "LARGE_PR_THRESHOLD \<equiv> 500"

type_synonym sdict = "(string \<times> string) list"

definition sget :: "sdict \<Rightarrow> string \<Rightarrow> string" where
  "sget d k = dict_get '''' d k"

section \<open>Identities\<close>

definition lowered :: "string list \<Rightarrow> string list" where
  "lowered items = map lower items"

fun words_acc :: "string \<Rightarrow> string \<Rightarrow> string list" where
  "words_acc acc [] = (if acc = [] then [] else [rev acc])"
| "words_acc acc (c # cs) = (if is_space c
     then (if acc = [] then words_acc [] cs else rev acc # words_acc [] cs)
     else words_acc (c # acc) cs)"

definition py_split :: "string \<Rightarrow> string list" where
  "py_split s = words_acc [] s"

definition is_lower_alnum :: "char \<Rightarrow> bool" where
  "is_lower_alnum c \<longleftrightarrow> is_digit c \<or> (let n = (of_char c :: nat) in 97 \<le> n \<and> n \<le> 122)"

definition identity_variants :: "string \<Rightarrow> string list" where
  "identity_variants raw = (let folded = join '' '' (py_split (lower raw)) in
     if folded = [] then []
     else (let compact = filter is_lower_alnum folded in
       if compact \<noteq> [] then [folded, compact] else [folded]))"

definition matches_identity :: "string \<Rightarrow> string list \<Rightarrow> bool" where
  "matches_identity raw wanted = (if raw = [] \<or> wanted = [] then False
     else list_ex (\<lambda>v. v \<in> set wanted) (identity_variants raw))"

definition KNOWN_ASSOCIATIONS :: "string list" where
  "KNOWN_ASSOCIATIONS = [''CONTRIBUTOR'', ''COLLABORATOR'', ''MEMBER'', ''OWNER'']"

definition FIRST_TIME_ASSOCIATIONS :: "string list" where
  "FIRST_TIME_ASSOCIATIONS = [''FIRST_TIME_CONTRIBUTOR'', ''FIRST_TIMER'']"

definition association_says_new :: "string \<Rightarrow> bool option" where
  "association_says_new association = (let value = upper association in
     if value \<in> set KNOWN_ASSOCIATIONS then Some False
     else if value \<in> set FIRST_TIME_ASSOCIATIONS then Some True
     else None)"

text \<open>
  \<open>$\<close> also matches before a final newline. \<open>ends_at_dollar p s\<close>: \<open>s\<close> is \<open>p\<close>, up to that
  newline.
\<close>


definition chop_newline :: "string \<Rightarrow> string" where
  "chop_newline s = (if s \<noteq> [] \<and> last s = newline then butlast s else s)"

definition is_likely_bot :: "string \<Rightarrow> bool" where
  "is_likely_bot author = (let a = lower author; b = chop_newline a; brk = ''[bot]'' in
     (suffix brk b \<and> newline \<notin> set b)
     \<or> b = ''dependabot'' \<or> b = ''renovate'' \<or> b = ''greenkeeper'')"

definition is_ai_agent :: "string \<Rightarrow> string list \<Rightarrow> bool" where
  "is_ai_agent author ai_agents = (if is_likely_bot author then True
     else if ai_agents \<noteq> [] then lower author \<in> set (lowered ai_agents) else False)"

section \<open>Paths\<close>

definition has_glob_char :: "string \<Rightarrow> bool" where
  "has_glob_char p = list_ex (\<lambda>c. c \<in> set p) ''*?[''"

definition path_matches :: "string \<Rightarrow> string \<Rightarrow> bool" where
  "path_matches file_path pat = (if has_glob_char pat then fnmatch file_path pat
     else prefix pat file_path)"

definition watched :: "string list \<Rightarrow> string \<Rightarrow> bool" where
  "watched watched_paths f = list_ex (path_matches f) watched_paths"

definition path_overlap_fraction :: "string list \<Rightarrow> string list \<Rightarrow> rat" where
  "path_overlap_fraction changed_files watched_paths = (if changed_files = [] then 0
     else of_nat (length (filter (watched watched_paths) changed_files)) / of_nat (length changed_files))"

definition score_path_overlap :: "string list \<Rightarrow> string list \<Rightarrow> int option" where
  "score_path_overlap changed_files watched_paths = (
     if watched_paths = [] \<or> changed_files = [] then None
     else (let overlap = path_overlap_fraction changed_files watched_paths in
       if 0 < overlap then Some (py_round (of_int (weight ''path_overlap'') * overlap)) else None))"

section \<open>The operator's involvement\<close>

definition is_word_char :: "char \<Rightarrow> bool" where
  "is_word_char c \<longleftrightarrow> is_digit c \<or> c = CHR ''_'' \<or> (let n = (of_char c :: nat) in
     (65 \<le> n \<and> n \<le> 90) \<or> (97 \<le> n \<and> n \<le> 122))"

definition head_is_word :: "string \<Rightarrow> bool" where
  "head_is_word s = (case s of [] \<Rightarrow> False | c # _ \<Rightarrow> is_word_char c)"

text \<open>
  \<open>re.search("@name\\b", text, IGNORECASE)\<close>: some occurrence of \<open>@name\<close>, case aside,
  that ends at a word boundary.
\<close>

fun mentions :: "string \<Rightarrow> string \<Rightarrow> bool" where
  "mentions name [] = False"
| "mentions name (c # cs) = (let pat = CHR ''@'' # name in
     (prefix (lower pat) (lower (c # cs))
       \<and> (is_word_char (last pat) \<noteq> head_is_word (drop (length pat) (c # cs))))
     \<or> mentions name cs)"

definition score_mentioned_or_assigned ::
    "string \<Rightarrow> string list \<Rightarrow> string \<Rightarrow> string list \<Rightarrow> int option" where
  "score_mentioned_or_assigned body assignees operator_username comment_bodies = (
     if lower operator_username \<in> set (lowered assignees) then Some (weight ''mentioned_or_assigned'')
     else if mentions operator_username body then Some (weight ''mentioned_or_assigned'')
     else if list_ex (mentions operator_username) comment_bodies
       then Some (weight ''mentioned_or_assigned'')
     else None)"

definition score_has_review_request :: "string list \<Rightarrow> string \<Rightarrow> int option" where
  "score_has_review_request requested_reviewers operator_username = (
     if lower operator_username \<in> set (lowered requested_reviewers)
     then Some (weight ''has_review_request'') else None)"

definition is_operator_involved ::
    "string \<Rightarrow> string list \<Rightarrow> string list \<Rightarrow> string \<Rightarrow> bool" where
  "is_operator_involved body assignees requested_reviewers operator_username = (
     if operator_username = [] then False
     else if score_has_review_request requested_reviewers operator_username \<noteq> None then True
     else score_mentioned_or_assigned body assignees operator_username [] \<noteq> None)"

section \<open>People\<close>

definition score_prior_review_history :: "string \<Rightarrow> string \<Rightarrow> sdict list \<Rightarrow> int option" where
  "score_prior_review_history author operator_username review_history = (
     if review_history = [] then None
     else if list_ex (\<lambda>e. lower (sget e ''author'') = lower author
         \<and> lower (sget e ''reviewer'') = lower operator_username) review_history
       then Some (weight ''prior_review_history'') else None)"

definition score_new_human_contributor ::
    "string \<Rightarrow> string \<Rightarrow> string list \<Rightarrow> string list \<Rightarrow> string \<Rightarrow> int option" where
  "score_new_human_contributor author operator_username known_authors ai_agents association = (
     if is_ai_agent author ai_agents
        \<or> lower author = lower operator_username
        \<or> lower author \<in> set (lowered known_authors)
        \<or> association_says_new association = Some False
     then None else Some (weight ''new_human_contributor''))"

definition score_keyword_match :: "string \<Rightarrow> string \<Rightarrow> string list \<Rightarrow> int option" where
  "score_keyword_match title body keywords = (if keywords = [] then None
     else if list_ex (\<lambda>kw. sublist (lower kw) (lower (title @ [newline] @ body))) keywords
       then Some (weight ''keyword_match'') else None)"

definition score_ai_generated :: "string \<Rightarrow> string list \<Rightarrow> int option" where
  "score_ai_generated author ai_agents =
     (if is_ai_agent author ai_agents then Some (weight ''ai_generated'') else None)"

definition score_committer_is_on_it ::
    "sdict list \<Rightarrow> string \<Rightarrow> string list \<Rightarrow> string list \<Rightarrow> string list \<Rightarrow> bool \<Rightarrow> int option" where
  "score_committer_is_on_it recent_reviews operator_username committers watched_paths changed_files
     mentioned = (
     if mentioned then None
     else if watched_paths \<noteq> [] \<and> changed_files \<noteq> []
        \<and> list_ex (\<lambda>f. list_ex (path_matches f) watched_paths) changed_files then None
     else (let committer_set = removeAll (lower operator_username) (lowered committers) in
       if committer_set = [] then None
       else if list_ex (\<lambda>e. lower (sget e ''reviewer'') \<in> set committer_set) recent_reviews
         then Some (weight ''committer_is_on_it'') else None))"

section \<open>State of the PR\<close>

definition score_recently_updated :: "rat option \<Rightarrow> int option" where
  "score_recently_updated hours_since_update = (case hours_since_update of
     None \<Rightarrow> None
   | Some h \<Rightarrow>
       (let today_boost = weight ''recently_updated''; week_boost = today_boost div 2 in
        if h < 24 then Some today_boost else if h < 168 then Some week_boost else None))"

definition score_merge_conflict :: "bool option \<Rightarrow> int option" where
  "score_merge_conflict mergeable = (case mergeable of
     None \<Rightarrow> None
   | Some m \<Rightarrow> if \<not> m then Some (weight ''merge_conflict'') else None)"

definition is_cve_pattern :: "string \<Rightarrow> bool" where
  "is_cve_pattern p \<longleftrightarrow> has_glob_char p \<or> suffix ''/'' p"

definition score_cve_file_history :: "string list \<Rightarrow> string list \<Rightarrow> int option" where
  "score_cve_file_history changed_files cve_affected_files = (
     if changed_files = [] \<or> cve_affected_files = [] then None
     else (let patterns = filter is_cve_pattern cve_affected_files;
       matches = length (filter (\<lambda>f. f \<in> set cve_affected_files \<or> list_ex (path_matches f) patterns)
                   changed_files) in
       if matches = 0 then None
       else Some (py_round (of_int (weight ''cve_file_history'')
              * (of_nat matches / of_nat (length changed_files))))))"

definition score_llm_interest :: "string option \<Rightarrow> int option" where
  "score_llm_interest judgment = (case judgment of
     None \<Rightarrow> None
   | Some j \<Rightarrow> if j = [] then None
       else if lower (strip j) = ''high'' then Some (weight ''llm_interest'')
       else if lower (strip j) = ''medium'' then Some (weight ''llm_interest'' div 2)
       else None)"

definition score_pending_response :: "string option \<Rightarrow> string list \<Rightarrow> int option" where
  "score_pending_response operator_review_posted_at replies = (
     if (case operator_review_posted_at of None \<Rightarrow> True | Some t \<Rightarrow> t = []) \<or> replies = [] then None
     else Some (weight ''pending_response''))"

definition score_draft_findings :: "int option \<Rightarrow> int option" where
  "score_draft_findings count = (case count of
     None \<Rightarrow> None
   | Some n \<Rightarrow> if n = 0 \<or> n \<le> 0 then None else Some (weight ''draft_findings''))"

section \<open>JIRA\<close>

definition jira_has_ticket :: "jdict option \<Rightarrow> bool" where
  "jira_has_ticket jira_cache = (case jira_cache of
     None \<Rightarrow> False
   | Some d \<Rightarrow> d \<noteq> [] \<and> (case jget d ''ticket_id'' of JStr s \<Rightarrow> strip s \<noteq> [] | _ \<Rightarrow> False))"

definition jira_priority_author_set :: "string list \<Rightarrow> string list" where
  "jira_priority_author_set priority_authors = concat (map identity_variants priority_authors)"

definition jira_field_matches :: "jdict \<Rightarrow> string list \<Rightarrow> string \<Rightarrow> bool" where
  "jira_field_matches d wanted key = (case jget d key of JStr raw \<Rightarrow> matches_identity raw wanted | _ \<Rightarrow> False)"

definition jira_creator_matches :: "jdict option \<Rightarrow> string list \<Rightarrow> bool" where
  "jira_creator_matches jira_cache wanted = (case jira_cache of
     None \<Rightarrow> False
   | Some d \<Rightarrow> d \<noteq> [] \<and> wanted \<noteq> [] \<and> list_ex (jira_field_matches d wanted)
       [''creator'', ''creator_username'', ''reporter'', ''reporter_username''])"

definition score_jira_linked :: "jdict option \<Rightarrow> int option" where
  "score_jira_linked jira_cache = (if \<not> jira_has_ticket jira_cache then None
     else Some (weight ''jira_linked''))"

definition score_jira_priority_author_created :: "jdict option \<Rightarrow> string list \<Rightarrow> int option" where
  "score_jira_priority_author_created jira_cache priority_authors = (
     if \<not> jira_has_ticket jira_cache then None
     else (let wanted = jira_priority_author_set priority_authors in
       if wanted = [] then None
       else if jira_creator_matches jira_cache wanted then Some (weight ''jira_priority_author_created'')
       else None))"

definition comment_by :: "string list \<Rightarrow> json \<Rightarrow> bool" where
  "comment_by wanted raw_comment = (case raw_comment of
     JObj c \<Rightarrow> list_ex (jira_field_matches c wanted) [''author'', ''author_username'']
   | _ \<Rightarrow> False)"

definition score_jira_priority_author_commented :: "jdict option \<Rightarrow> string list \<Rightarrow> int option" where
  "score_jira_priority_author_commented jira_cache priority_authors = (
     if \<not> jira_has_ticket jira_cache then None
     else (let wanted = jira_priority_author_set priority_authors in
       if wanted = [] \<or> jira_creator_matches jira_cache wanted then None
       else (case dict_get (JList []) (case jira_cache of None \<Rightarrow> [] | Some d \<Rightarrow> d) ''recent_comments'' of
         JList cs \<Rightarrow> if list_ex (comment_by wanted) cs
           then Some (weight ''jira_priority_author_commented'') else None
       | _ \<Rightarrow> None)))"

section \<open>Blame, collaborators, downstream\<close>

definition str_set :: "json \<Rightarrow> string list" where
  "str_set v = (case v of JList xs \<Rightarrow> map (\<lambda>x. lower (py_str x)) xs | _ \<Rightarrow> [])"

definition blame_credit :: "string \<Rightarrow> jdict \<Rightarrow> rat" where
  "blame_credit op entry = (
     if op \<in> set (str_set (jget entry ''authors'')) then 1
     else if op \<in> set (str_set (jget entry ''near_authors'')) then 1/2
     else 0)"

definition score_touches_operator_code :: "jdict list \<Rightarrow> string \<Rightarrow> int option" where
  "score_touches_operator_code blame_data operator_username = (
     if blame_data = [] then None
     else (let op = lower operator_username;
               fraction = sum_list (map (blame_credit op) blame_data) / of_nat (length blame_data) in
       if fraction \<le> 0 then None
       else Some (py_round (of_int (weight ''touches_operator_code'') * fraction))))"

fun first_collaborator :: "string \<Rightarrow> (string \<times> rat option) list \<Rightarrow> rat option option" where
  "first_collaborator a [] = None"
| "first_collaborator a ((name, s) # rest) =
     (if lower name = a then Some s else first_collaborator a rest)"

definition is_mutual :: "string \<Rightarrow> string \<Rightarrow> sdict \<Rightarrow> bool" where
  "is_mutual a op e \<longleftrightarrow> (lower (sget e ''author'') = a \<and> lower (sget e ''reviewer'') = op)
     \<or> (lower (sget e ''author'') = op \<and> lower (sget e ''reviewer'') = a)"

definition compute_collaborator_score ::
    "string \<Rightarrow> string \<Rightarrow> sdict list \<Rightarrow> string list \<Rightarrow> (string \<times> rat option) list \<Rightarrow> int option" where
  "compute_collaborator_score author operator_username review_history frequent_contributors scores = (
     let a = lower author; w = weight ''collaborator'' in
     case first_collaborator a scores of
       Some None \<Rightarrow> Some w
     | Some (Some score) \<Rightarrow> Some (py_round (score / 100 * of_int w))
     | None \<Rightarrow>
         if a \<in> set (lowered frequent_contributors) then Some w
         else if review_history = [] then None
         else (let mutual = int (length (filter (is_mutual a (lower operator_username)) review_history)) in
           if mutual \<le> 0 then None
           else Some (py_round (of_int (min (mutual * 20) 100) / 100 * of_int w))))"

type_synonym tracked_apis = "(string \<times> string list) list"

definition score_downstream_impact :: "string list \<Rightarrow> string \<Rightarrow> tracked_apis \<Rightarrow> int \<Rightarrow> int option" where
  "score_downstream_impact changed_files diff_text tracked w = (
     if tracked = [] then None
     else (let tracked_files = dict_get [] tracked ''files'';
               patterns = dict_get [] tracked ''patterns'';
               symbols = dict_get [] tracked ''symbols'' in
       if list_ex (\<lambda>f. f \<in> set tracked_files) changed_files then Some w
       else if list_ex (\<lambda>f. list_ex (\<lambda>p. sublist p f) patterns) changed_files then Some w
       else if diff_text \<noteq> [] \<and> symbols \<noteq> []
          \<and> list_ex (\<lambda>s. sublist (lower s) (lower diff_text)) symbols then Some w
       else None))"


section \<open>Re-engagement\<close>

text \<open>
  A \<open>datetime\<close> has a zone or has none; it is its microseconds since the epoch, in UTC or in
  its own clock. Python does not order one of each kind: that comparison raises.
  \<open>datetime.fromisoformat\<close> is a parameter, \<open>None\<close> being its \<open>ValueError\<close>.
\<close>

datatype datetime = Naive int | Aware int

definition GRACE_PERIOD :: int where "GRACE_PERIOD = 300 * 1000000"

fun after_grace :: "datetime \<Rightarrow> datetime \<Rightarrow> exn + bool" where
  "after_grace (Naive r) (Naive u) = Inr (r + GRACE_PERIOD < u)"
| "after_grace (Aware r) (Aware u) = Inr (r + GRACE_PERIOD < u)"
| "after_grace _ _ = Inl type_error"

definition parse_iso :: "(string \<Rightarrow> datetime option) \<Rightarrow> string \<Rightarrow> datetime option" where
  "parse_iso fromiso s = fromiso (concat (map (\<lambda>c. if c = CHR ''Z'' then ''+00:00'' else [c]) s))"

definition score_updated_since_operator_review ::
    "(string \<Rightarrow> datetime option) \<Rightarrow> string \<Rightarrow> string \<Rightarrow> exn + int option" where
  "score_updated_since_operator_review fromiso posted_at updated_at = (
     if posted_at = [] \<or> updated_at = [] then Inr None
     else (case (parse_iso fromiso posted_at, parse_iso fromiso updated_at) of
       (Some r, Some u) \<Rightarrow> bind_sum (after_grace r u)
          (\<lambda>b. Inr (if b then Some (weight ''updated_since_operator_review'') else None))
     | _ \<Rightarrow> Inr None))"

definition is_human :: "sdict \<Rightarrow> bool" where
  "is_human c \<longleftrightarrow> sget c ''author'' \<noteq> [] \<and> \<not> is_likely_bot (sget c ''author'')"

definition calls_maintainer :: "string \<Rightarrow> string list \<Rightarrow> string \<Rightarrow> bool" where
  "calls_maintainer org maintainers handle \<longleftrightarrow>
     (if org \<noteq> [] then prefix (lower org @ ''/'') (lower handle) else CHR ''/'' \<in> set (lower handle))
     \<or> lower handle \<in> set maintainers"

definition score_author_awaiting_maintainer ::
    "sdict list \<Rightarrow> string \<Rightarrow> string \<Rightarrow> string list \<Rightarrow> string \<Rightarrow> int option" where
  "score_author_awaiting_maintainer comments pr_author operator_username committers org = (
     let op = lower operator_username; author = lower pr_author in
     if author = [] \<or> author = op then None
     else (let human = filter is_human comments in
       if human = [] \<or> lower (sget (last human) ''author'') \<noteq> author then None
       else (let maintainers = lowered committers @ (if op = [] then [] else [op]) in
         if list_ex (\<lambda>hit. calls_maintainer org maintainers (mh_handle hit))
              (mention_scan [] (sget (last human) ''body''))
         then Some (weight ''author_awaiting_maintainer'') else None)))"

section \<open>Mailing lists\<close>

text \<open>The first truth of a test over a list, with the exceptions the test may raise before it.\<close>

fun any_raising :: "('a \<Rightarrow> exn + bool) \<Rightarrow> 'a list \<Rightarrow> exn + bool" where
  "any_raising hit [] = Inr False"
| "any_raising hit (x # xs) = bind_sum (hit x) (\<lambda>b. if b then Inr True else any_raising hit xs)"

definition ref_matches :: "string list \<Rightarrow> json \<Rightarrow> exn + bool" where
  "ref_matches ids r = (case r of JStr s \<Rightarrow> Inr (s \<in> set ids) | JList _ \<Rightarrow> Inl type_error
     | JObj _ \<Rightarrow> Inl type_error | _ \<Rightarrow> Inr False)"

definition refers_to :: "string list \<Rightarrow> json \<Rightarrow> exn + bool" where
  "refers_to ids thread = (case thread of
     JObj t \<Rightarrow> (case jget t ''pr_references'' of JList refs \<Rightarrow> any_raising (ref_matches ids) refs | _ \<Rightarrow> Inr False)
   | _ \<Rightarrow> Inr False)"

definition blame_hit :: "json \<Rightarrow> exn + bool" where
  "blame_hit thread = Inr (case thread of JObj t \<Rightarrow> truthy (jget t ''blame_hit'') | _ \<Rightarrow> False)"

definition source_has :: "(json \<Rightarrow> exn + bool) \<Rightarrow> json \<Rightarrow> exn + bool" where
  "source_has hit src = (case src of
     JObj d \<Rightarrow> if jget d ''type'' \<noteq> JStr ''mailing-list'' then Inr False
       else bind_sum (iter_json (dict_get (JList []) d ''threads'')) (any_raising hit)
   | _ \<Rightarrow> Inr False)"

definition mailing_list_signal :: "(json \<Rightarrow> exn + bool) \<Rightarrow> int \<Rightarrow> jdict \<Rightarrow> exn + int option" where
  "mailing_list_signal hit points ctx = (case dict_get (JList []) ctx ''sources'' of
     JList sources \<Rightarrow> bind_sum (any_raising (source_has hit) sources) (\<lambda>b. Inr (if b then Some points else None))
   | _ \<Rightarrow> Inr None)"

definition score_mailing_list_mention :: "jdict \<Rightarrow> string list \<Rightarrow> exn + int option" where
  "score_mailing_list_mention ctx ids = (if ctx = [] \<or> ids = [] then Inr None
     else mailing_list_signal (refers_to ids) (weight ''mailing_list_mention'') ctx)"

definition score_mailing_list_blame_author :: "jdict \<Rightarrow> exn + int option" where
  "score_mailing_list_blame_author ctx = (if ctx = [] then Inr None
     else mailing_list_signal blame_hit (weight ''mailing_list_blame_author'') ctx)"

end
