(* ===== verification/Moderation.thy ===== *)
theory Moderation
  imports Signals
begin

text \<open>
  Moderation flags (\<open>scoring/moderation.py\<close>): the labels that route a PR to the dashboard's
  queues, computed from the PR's dictionary.
\<close>

definition WIP_TITLE_PREFIXES :: "string list" where
  "WIP_TITLE_PREFIXES = [''[wip]'', ''wip:'', ''draft:'', ''[draft]'']"

definition SOURCE_PREFIXES :: "string list" where
  "SOURCE_PREFIXES = [''src/'', ''lib/'', ''app/'', ''core/'']"

definition TEST_INDICATORS :: "string list" where
  "TEST_INDICATORS = [''test'', ''spec'']"

abbreviation MIN_BODY_LENGTH :: nat where "MIN_BODY_LENGTH \<equiv> 50"
abbreviation DEFAULT_UNOWNED_DAYS :: int where "DEFAULT_UNOWNED_DAYS \<equiv> 14"

definition starts_with_any :: "string list \<Rightarrow> string \<Rightarrow> bool" where
  "starts_with_any ps s = list_ex (\<lambda>p. prefix p s) ps"

definition is_wip_title :: "string \<Rightarrow> bool" where
  "is_wip_title title = starts_with_any WIP_TITLE_PREFIXES (lstrip (lower title))"

text \<open>\<open>int(x)\<close> of a float truncates towards zero.\<close>

definition int_field :: "jdict \<Rightarrow> string \<Rightarrow> int \<Rightarrow> int" where
  "int_field pr key dflt = (case dict_get (JInt dflt) pr key of
     JInt i \<Rightarrow> i | JBool b \<Rightarrow> (if b then 1 else 0) | JFloat x \<Rightarrow> py_trunc x | _ \<Rightarrow> dflt)"

definition field_str_list :: "jdict \<Rightarrow> string \<Rightarrow> string list" where
  "field_str_list pr key = (case jget pr key of JList xs \<Rightarrow> map py_str xs | _ \<Rightarrow> [])"

definition field_str :: "jdict \<Rightarrow> string \<Rightarrow> string" where
  "field_str pr key = py_str (dict_get (JStr '''') pr key)"

record moderation_args =
  ma_operator :: string
  ma_known_authors :: "string list option"
  ma_contributor_evidence :: bool
  ma_mentioned_via_comment :: bool

definition new_contributor_rule :: "moderation_args \<Rightarrow> string \<Rightarrow> string \<Rightarrow> bool" where
  "new_contributor_rule ma author association = (
     let says = association_says_new association;
         known = (case ma_known_authors ma of None \<Rightarrow> False
                  | Some ks \<Rightarrow> lower author \<in> set (lowered ks)) in
     (says = Some True \<and> \<not> known)
     \<or> (says = None \<and> ma_contributor_evidence ma \<and> ma_known_authors ma \<noteq> None \<and> \<not> known))"

definition flag_if :: "bool \<Rightarrow> string \<Rightarrow> string list \<Rightarrow> string list" where
  "flag_if b f flags = (if b then flags @ [f] else flags)"

definition compute_moderation_flags :: "moderation_args \<Rightarrow> jdict \<Rightarrow> string list" where
  "compute_moderation_flags ma pr = (
     let author = field_str pr ''author'';
         body = str_or pr ''body'' '''';
         reviewers = field_str_list pr ''requested_reviewers'';
         f1 = flag_if (author \<noteq> [] \<and> lower author = lower (ma_operator ma)) ''is_operator_pr'' [];
         f2 = flag_if (ma_mentioned_via_comment ma \<or>
                is_operator_involved body (field_str_list pr ''assignees'') reviewers (ma_operator ma))
                ''mentioned'' f1;
         f3 = flag_if (truthy (jget pr ''is_draft'')) ''draft'' f2;
         f4 = flag_if (is_wip_title (field_str pr ''title'')) ''wip_title'' f3;
         f5 = flag_if (author \<noteq> [] \<and> is_likely_bot author) ''bot'' f4;
         f6 = flag_if (int_field pr ''additions'' 0 + int_field pr ''deletions'' 0 > LARGE_PR_THRESHOLD)
                ''large_pr'' f5;
         f7 = flag_if (length (strip body) < MIN_BODY_LENGTH \<and> field_str_list pr ''labels'' = [])
                ''low_context'' f6;
         f8 = flag_if (author \<noteq> [] \<and> \<not> is_likely_bot author
                \<and> new_contributor_rule ma author (str_or pr ''author_association'' ''''))
                ''new_contributor'' f7;
         changed = field_str_list pr ''changed_files'';
         has_source = list_ex (starts_with_any SOURCE_PREFIXES) changed;
         has_tests = list_ex (\<lambda>f. list_ex (\<lambda>ind. sublist ind (lower f)) TEST_INDICATORS) changed;
         f9 = flag_if (has_source \<and> \<not> has_tests) ''needs_tests'' f8
     in flag_if (int_field pr ''pr_age_days'' (-1) > DEFAULT_UNOWNED_DAYS \<and> reviewers = []
          \<and> ''draft'' \<notin> set f9 \<and> ''wip_title'' \<notin> set f9) ''likely_unowned'' f9)"

lemma in_flag_if [simp]: "x \<in> set (flag_if b f fs) \<longleftrightarrow> b \<and> x = f \<or> x \<in> set fs"
  by (auto simp: flag_if_def)

lemma distinct_flag_if: "f \<notin> set fs \<Longrightarrow> distinct (flag_if b f fs) \<longleftrightarrow> distinct fs"
  by (simp add: flag_if_def)


definition FLAGS :: "string list" where
  "FLAGS = [''is_operator_pr'', ''mentioned'', ''draft'', ''wip_title'', ''bot'', ''large_pr'', ''low_context'',
     ''new_contributor'', ''needs_tests'', ''likely_unowned'']"

lemma flag_set: "set (compute_moderation_flags ma pr) \<subseteq> set FLAGS"
proof
  fix x assume "x \<in> set (compute_moderation_flags ma pr)"
  then show "x \<in> set FLAGS"
    unfolding compute_moderation_flags_def Let_def in_flag_if FLAGS_def by (elim disjE conjE) simp_all
qed

text \<open>When each of the flags the properties speak of is given.\<close>

lemma flag_given:
  "''bot'' \<in> set (compute_moderation_flags ma pr) \<longleftrightarrow>
     field_str pr ''author'' \<noteq> [] \<and> is_likely_bot (field_str pr ''author'')"
  "''new_contributor'' \<in> set (compute_moderation_flags ma pr) \<longleftrightarrow>
     field_str pr ''author'' \<noteq> [] \<and> \<not> is_likely_bot (field_str pr ''author'') \<and>
     new_contributor_rule ma (field_str pr ''author'') (str_or pr ''author_association'' [])"
  "''draft'' \<in> set (compute_moderation_flags ma pr) \<longleftrightarrow> truthy (jget pr ''is_draft'')"
  "''wip_title'' \<in> set (compute_moderation_flags ma pr) \<longleftrightarrow> is_wip_title (field_str pr ''title'')"
  "''low_context'' \<in> set (compute_moderation_flags ma pr) \<longleftrightarrow>
     length (strip (str_or pr ''body'' [])) < MIN_BODY_LENGTH \<and> field_str_list pr ''labels'' = []"
  "''likely_unowned'' \<in> set (compute_moderation_flags ma pr) \<longleftrightarrow>
     DEFAULT_UNOWNED_DAYS < int_field pr ''pr_age_days'' (-1) \<and> field_str_list pr ''requested_reviewers'' = [] \<and>
     \<not> truthy (jget pr ''is_draft'') \<and> \<not> is_wip_title (field_str pr ''title'')"
  unfolding compute_moderation_flags_def Let_def in_flag_if by simp_all

lemma flags_distinct: "distinct (compute_moderation_flags ma pr)"
  unfolding compute_moderation_flags_def Let_def
  by (intro distinct_flag_if [THEN iffD2]; simp)+

text \<open>
  The flags are consistent: each of the ten labels is given at most once; a bot is never
  a new contributor; a draft or work-in-progress PR is never called unowned; a PR with a
  label or a body of twenty characters is never of low context.
\<close>

theorem flags_consistent:
  "distinct (compute_moderation_flags ma pr) \<and> set (compute_moderation_flags ma pr) \<subseteq> set FLAGS \<and>
   \<not> (''bot'' \<in> set (compute_moderation_flags ma pr) \<and> ''new_contributor'' \<in> set (compute_moderation_flags ma pr)) \<and>
   \<not> (''likely_unowned'' \<in> set (compute_moderation_flags ma pr) \<and>
      (''draft'' \<in> set (compute_moderation_flags ma pr) \<or> ''wip_title'' \<in> set (compute_moderation_flags ma pr))) \<and>
   \<not> (''low_context'' \<in> set (compute_moderation_flags ma pr) \<and>
      (field_str_list pr ''labels'' \<noteq> [] \<or> MIN_BODY_LENGTH \<le> length (strip (str_or pr ''body'' []))))"
  using flags_distinct flag_set unfolding flag_given by auto

text \<open>
  The queue and the score agree on newcomers: an author whose PR is flagged as a new
  contributor's gets the new-human-contributor points, given the same known authors, unless
  the author is the operator or a configured AI agent.
\<close>

theorem new_contributor_is_scored:
  assumes "''new_contributor'' \<in> set (compute_moderation_flags ma pr)"
    and "lower (field_str pr ''author'') \<noteq> lower (ma_operator ma)"
    and "\<not> is_ai_agent (field_str pr ''author'') agents"
    and "known = (case ma_known_authors ma of None \<Rightarrow> [] | Some ks \<Rightarrow> ks)"
  shows "score_new_human_contributor (field_str pr ''author'') (ma_operator ma) known agents
      (str_or pr ''author_association'' []) = Some (weight ''new_human_contributor'')"
proof -
  have "new_contributor_rule ma (field_str pr ''author'') (str_or pr ''author_association'' [])"
    using assms(1) unfolding flag_given by blast
  then have "lower (field_str pr ''author'') \<notin> set (lowered known)"
    "association_says_new (str_or pr ''author_association'' []) \<noteq> Some False"
    using assms(4) by (auto simp: new_contributor_rule_def Let_def lowered_def split: option.splits)
  then show ?thesis using assms(2,3) by (simp add: score_new_human_contributor_def)
qed

definition newcomer_pr :: jdict where
  "newcomer_pr = [(''author'', JStr ''Zoe''), (''title'', JStr ''Fix docs''), (''is_draft'', JBool True)]"

definition newcomer_args :: moderation_args where
  "newcomer_args = \<lparr>ma_operator = ''frank'', ma_known_authors = Some [''ann''], ma_contributor_evidence = True,
     ma_mentioned_via_comment = False\<rparr>"

theorem new_contributor_is_scored_witness:
  "score_new_human_contributor ''Zoe'' ''frank'' [''ann''] [''codex''] [] = Some (weight ''new_human_contributor'')"
proof -
  have "''new_contributor'' \<in> set (compute_moderation_flags newcomer_args newcomer_pr)"
    "lower (field_str newcomer_pr ''author'') \<noteq> lower (ma_operator newcomer_args)"
    "\<not> is_ai_agent (field_str newcomer_pr ''author'') [''codex'']"
    "[''ann''] = (case ma_known_authors newcomer_args of None \<Rightarrow> [] | Some ks \<Rightarrow> ks)"
    "field_str newcomer_pr ''author'' = ''Zoe''" "ma_operator newcomer_args = ''frank''"
    "str_or newcomer_pr ''author_association'' [] = []"
    by code_simp+
  then show ?thesis
    using new_contributor_is_scored [of newcomer_args newcomer_pr "[''codex'']" "[''ann'']"] by metis
qed

theorem flags_consistent_witness:
  "''new_contributor'' \<in> set (compute_moderation_flags newcomer_args newcomer_pr)
   \<and> ''draft'' \<in> set (compute_moderation_flags newcomer_args newcomer_pr)
   \<and> ''bot'' \<notin> set (compute_moderation_flags newcomer_args newcomer_pr)
   \<and> ''likely_unowned'' \<notin> set (compute_moderation_flags newcomer_args newcomer_pr)"
proof -
  have "''new_contributor'' \<in> set (compute_moderation_flags newcomer_args newcomer_pr)"
    "''draft'' \<in> set (compute_moderation_flags newcomer_args newcomer_pr)" by code_simp+
  with flags_consistent [of newcomer_args newcomer_pr] show ?thesis by blast
qed

end
