(* ===== verification/Readiness.thy ===== *)
theory Readiness
  imports CIChecks Moderation
begin

text \<open>
  The readiness evaluator (\<open>scoring/merge_readiness.py\<close>, the second pure half): stored
  reviews, feature tokens, what was learned from past verdicts, and
  \<open>evaluate_merge_readiness\<close>, which turns a PR's data into a verdict with reasons and
  blockers. The evaluator is one function of the source; its sections are one definition
  each, in the source's order, over the \<open>merge_readiness\<close> record that the source mutates.
\<close>

section \<open>Tables\<close>

abbreviation (input) VERDICT_READY :: string where "VERDICT_READY \<equiv> ''ready''"
abbreviation (input) VERDICT_FLAKY_CI :: string where "VERDICT_FLAKY_CI \<equiv> ''flaky-ci''"
abbreviation (input) VERDICT_NOT_READY :: string where "VERDICT_NOT_READY \<equiv> ''''"

definition LISTED_VERDICTS :: "string list" where
  "LISTED_VERDICTS = [VERDICT_READY, VERDICT_FLAKY_CI]"

definition READINESS_WEIGHTS :: "(string \<times> int) list" where
  "READINESS_WEIGHTS = [
     (''ci_green'', 30), (''ci_flaky'', 10), (''approved'', 25), (''committer_approved'', 10),
     (''operator_approved'', 10), (''clean_review'', 15), (''small_diff'', 10), (''medium_diff'', 5),
     (''committer_author'', 15), (''known_contributor'', 10), (''new_contributor'', -10),
     (''tests_good'', 10), (''tests_suspect'', -5), (''touches_tests'', 5), (''fresh'', 5),
     (''open_nits'', -5), (''learned_dismissals'', -20)]"

definition readiness_weight :: "string \<Rightarrow> rat" where
  "readiness_weight name = of_int (dict_get 0 READINESS_WEIGHTS name)"

abbreviation MAX_READINESS :: rat where "MAX_READINESS \<equiv> 100"
abbreviation LEARNED_MIN_OBSERVATIONS :: int where "LEARNED_MIN_OBSERVATIONS \<equiv> 3"
definition LEARNED_DISMISS_RATE :: rat where "LEARNED_DISMISS_RATE = 6/10"
abbreviation LEARNED_BLOCKER_MIN :: int where "LEARNED_BLOCKER_MIN \<equiv> 3"

definition LEARNED_BLOCKER_GAPS :: "(string \<times> string) list" where
  "LEARNED_BLOCKER_GAPS = [(''needs-tests'', ''no test changes''),
     (''needs-committer-review'', ''no committer approval'')]"

definition TEST_PATH_HINTS :: "string list" where
  "TEST_PATH_HINTS = [''test'', ''spec'', ''suite'']"

section \<open>Features of a PR\<close>

definition size_bucket :: "int \<Rightarrow> int \<Rightarrow> string" where
  "size_bucket additions deletions = (let tot = additions + deletions in
     if tot < 100 then ''small'' else if tot < 500 then ''medium''
     else if tot < 1000 then ''large'' else ''huge'')"

definition top_level :: "string \<Rightarrow> string" where
  "top_level path = (if CHR ''/'' \<in> set path then before (CHR ''/'') path else ''(root)'')"

definition feature_tokens :: "string \<Rightarrow> string list \<Rightarrow> string list \<Rightarrow> int \<Rightarrow> int \<Rightarrow> string list" where
  "feature_tokens author labels changed_files additions deletions =
     (if author \<noteq> [] then [''author:'' @ lower author] else []) @
     map (\<lambda>l. ''label:'' @ lower l) (filter (\<lambda>l. l \<noteq> []) labels) @
     sorted_set (map (\<lambda>f. ''path:'' @ top_level f) (filter (\<lambda>f. f \<noteq> []) changed_files)) @
     [''size:'' @ size_bucket additions deletions]"

definition touches_tests :: "string list \<Rightarrow> bool" where
  "touches_tests changed_files =
     list_ex (\<lambda>f. list_ex (\<lambda>h. sublist h (lower f)) TEST_PATH_HINTS) changed_files"

section \<open>Learned adjustments\<close>

record learned_adjustments =
  la_feature_rates :: "(string \<times> (int \<times> int)) list"
  la_reason_counts :: "(string \<times> int) list"

definition nothing_learned :: learned_adjustments where
  "nothing_learned = \<lparr>la_feature_rates = [], la_reason_counts = []\<rparr>"

type_synonym worst = "(string \<times> int \<times> int) option"

fun worst_loop :: "learned_adjustments \<Rightarrow> string list \<Rightarrow> worst \<Rightarrow> rat \<Rightarrow> worst" where
  "worst_loop la [] w r = w"
| "worst_loop la (token # tokens) w r = (let (dismissed, tot) = dict_get (0, 0) (la_feature_rates la) token in
     if tot < LEARNED_MIN_OBSERVATIONS then worst_loop la tokens w r
     else (let rate = of_int dismissed / of_int tot in
       if LEARNED_DISMISS_RATE \<le> rate \<and> r < rate
         then worst_loop la tokens (Some (token, dismissed, tot)) rate
       else worst_loop la tokens w r))"

definition worst_feature :: "learned_adjustments \<Rightarrow> string list \<Rightarrow> worst" where
  "worst_feature la tokens = worst_loop la tokens None 0"

definition blocker_reasons :: "learned_adjustments \<Rightarrow> string list" where
  "blocker_reasons la = sort (map fst (filter (\<lambda>(code, count).
     map_of LEARNED_BLOCKER_GAPS code \<noteq> None \<and> LEARNED_BLOCKER_MIN \<le> count) (la_reason_counts la)))"

definition penalised_features :: "learned_adjustments \<Rightarrow> (string \<times> int \<times> int) list" where
  "penalised_features la = sort_key fst (filter (\<lambda>(token, d, t).
     LEARNED_MIN_OBSERVATIONS \<le> t \<and> LEARNED_DISMISS_RATE \<le> of_int d / of_int t) (la_feature_rates la))"

definition summary_lines :: "learned_adjustments \<Rightarrow> string list" where
  "summary_lines la =
     map (\<lambda>code. ''You've sent back '' @ int_str (dict_get 0 (la_reason_counts la) code) @ '' PRs for ''
         @ str_repr code @ '': a PR with '' @ dict_get '''' LEARNED_BLOCKER_GAPS code
         @ '' no longer counts as almost ready.'') (blocker_reasons la) @
     map (\<lambda>(token, dismissed, tot). ''Sent back '' @ int_str dismissed @ '' of '' @ int_str tot
         @ '' candidates matching '' @ token @ '': similar PRs are docked ''
         @ int_str (- dict_get 0 READINESS_WEIGHTS ''learned_dismissals'') @ '' points.'')
       (penalised_features la)"

section \<open>Reviews\<close>

type_synonym review_states = "(string \<times> sdict) list"

definition is_bot :: "string \<Rightarrow> bool" where
  "is_bot login \<longleftrightarrow> suffix ''[bot]'' (lower login)"

definition review_login :: "jdict \<Rightarrow> string" where
  "review_login review = (case jor (jget review ''user'') (JObj []) of
     JObj u \<Rightarrow> str_or u ''login'' '''' | _ \<Rightarrow> '''')"

definition review_state :: "jdict \<Rightarrow> string" where
  "review_state review = (let state = upper (str_or review ''state'' '''') in
     if state = ''REQUEST_CHANGES'' then ''CHANGES_REQUESTED'' else state)"

definition normalize_step :: "string \<Rightarrow> review_states \<Rightarrow> jdict \<Rightarrow> review_states" where
  "normalize_step author states review = (let login = review_login review; state = review_state review in
     if login = [] \<or> lower login = lower author \<or> is_bot login then states
     else if state = ''DISMISSED'' then AList.delete login states
     else if state \<notin> set [''APPROVED'', ''CHANGES_REQUESTED''] then states
     else AList.update login [(''state'', state),
            (''commit_id'', str_or review ''commit_id'' ''''),
            (''submitted_at'', str_or review ''submitted_at'' '''')] states)"

definition normalize_reviews :: "jdict list \<Rightarrow> string \<Rightarrow> review_states" where
  "normalize_reviews raw_reviews author = foldl (normalize_step author) [] raw_reviews"

definition review_verdict :: "sdict \<Rightarrow> string" where
  "review_verdict state = upper (sget state ''state'')"

definition is_stale_approval :: "string \<Rightarrow> sdict \<Rightarrow> bool" where
  "is_stale_approval head_sha state \<longleftrightarrow> (let commit = sget state ''commit_id'' in
     head_sha \<noteq> [] \<and> commit \<noteq> [] \<and> commit \<noteq> head_sha)"

fun split_loop :: "string \<Rightarrow> review_states \<Rightarrow> string list \<times> string list \<times> string list" where
  "split_loop head_sha [] = ([], [], [])"
| "split_loop head_sha ((login, state) # rest) =
     (let (approvers, stale, changes) = split_loop head_sha rest; verdict = review_verdict state in
      if verdict = ''APPROVED'' then
        (if is_stale_approval head_sha state then (approvers, login # stale, changes)
         else (login # approvers, stale, changes))
      else if verdict = ''CHANGES_REQUESTED'' then (approvers, stale, login # changes)
      else (approvers, stale, changes))"

definition split_reviews :: "review_states \<Rightarrow> string \<Rightarrow> string list \<times> string list \<times> string list" where
  "split_reviews states head_sha = split_loop head_sha (sort_key fst states)"

section \<open>The evaluator\<close>

record readiness_config =
  rc_ready_threshold :: rat
  rc_max_diff_lines :: int
  rc_stale_after_days :: int
  rc_require_ci :: bool
  rc_require_committer_approval :: bool

record readiness_input =
  ri_author :: string
  ri_operator :: string
  ri_title :: string
  ri_is_draft :: bool
  ri_mergeable :: "bool option"
  ri_additions :: int
  ri_deletions :: int
  ri_changed_files :: "string list"
  ri_labels :: "string list"
  ri_review_states :: review_states
  ri_head_sha :: string
  ri_committers :: "string list"
  ri_known_contributors :: "string list"
  ri_is_new_contributor :: bool
  ri_open_findings :: "(string \<times> int) list"
  ri_review_ran :: bool
  ri_test_verdict :: "string option"
  ri_days_since_update :: "rat option"
  ri_ci :: ci_assessment
  ri_dismissed_sha :: string
  ri_learned :: learned_adjustments

record merge_readiness =
  mr_verdict :: string
  mr_score :: rat
  mr_reasons :: "string list"
  mr_blockers :: "string list"
  mr_breakdown :: "(string \<times> rat) list"
  mr_ci :: ci_assessment
  mr_approvers :: "string list"
  mr_stale_approvers :: "string list"
  mr_changes_requested_by :: "string list"

definition listed :: "merge_readiness \<Rightarrow> bool" where
  "listed r \<longleftrightarrow> mr_verdict r \<in> set LISTED_VERDICTS"

definition start_readiness :: "ci_assessment \<Rightarrow> merge_readiness" where
  "start_readiness ci = \<lparr>mr_verdict = VERDICT_NOT_READY, mr_score = 0, mr_reasons = [], mr_blockers = [],
     mr_breakdown = [], mr_ci = ci, mr_approvers = [], mr_stale_approvers = [],
     mr_changes_requested_by = []\<rparr>"

definition add_if :: "bool \<Rightarrow> string \<Rightarrow> string \<Rightarrow> merge_readiness \<Rightarrow> merge_readiness" where
  "add_if b name note r = (if b then
     r\<lparr>mr_breakdown := AList.update name (readiness_weight name) (mr_breakdown r),
       mr_reasons := mr_reasons r @ [note]\<rparr> else r)"

definition block_if :: "bool \<Rightarrow> string \<Rightarrow> merge_readiness \<Rightarrow> merge_readiness" where
  "block_if b note r = (if b then r\<lparr>mr_blockers := mr_blockers r @ [note]\<rparr> else r)"

definition commas :: "string list \<Rightarrow> string" where
  "commas = join '', ''"

definition total_lines :: "readiness_input \<Rightarrow> int" where
  "total_lines inp = ri_additions inp + ri_deletions inp"

definition serious_findings :: "readiness_input \<Rightarrow> int" where
  "serious_findings inp = dict_get 0 (ri_open_findings inp) ''critical''
     + dict_get 0 (ri_open_findings inp) ''important''"

definition is_stale :: "readiness_config \<Rightarrow> readiness_input \<Rightarrow> bool" where
  "is_stale cfg inp \<longleftrightarrow> 0 < rc_stale_after_days cfg \<and> (case ri_days_since_update inp of
     None \<Rightarrow> False | Some d \<Rightarrow> of_int (rc_stale_after_days cfg) < d)"

definition hard_stops :: "readiness_config \<Rightarrow> readiness_input \<Rightarrow> merge_readiness \<Rightarrow> merge_readiness" where
  "hard_stops cfg inp r0 = (
     let r1 = block_if (ri_is_draft inp \<or> is_wip_title (ri_title inp)) ''draft / WIP'' r0;
         r2 = block_if (ri_mergeable inp = Some False) (''merge conflicts '' @ em_dash @ '' needs a rebase'') r1;
         r3 = block_if (ri_dismissed_sha inp \<noteq> [] \<and> ri_dismissed_sha inp = ri_head_sha inp)
                ''you marked this not ready at this commit'' r2;
         (approvers, stale_approvers, changes) = split_reviews (ri_review_states inp) (ri_head_sha inp);
         r4 = r3\<lparr>mr_approvers := approvers, mr_stale_approvers := stale_approvers,
                 mr_changes_requested_by := changes\<rparr>;
         r5 = block_if (changes \<noteq> []) (''changes requested by '' @ commas changes) r4;
         r6 = block_if (rc_max_diff_lines cfg < total_lines inp)
                (int_str (total_lines inp) @ '' changed lines is too big for a quick merge'') r5;
         r7 = block_if (is_stale cfg inp)
                (''no activity for '' @ int_str (py_trunc (case ri_days_since_update inp of None \<Rightarrow> 0 | Some d \<Rightarrow> d))
                 @ '' days'') r6;
         r8 = block_if (serious_findings inp \<noteq> 0) (int_str (serious_findings inp)
                @ '' unresolved critical/important finding(s) from your review'') r7
     in block_if (ri_test_verdict inp = Some ''broken'') ''differential tests fail on the PR branch'' r8)"

definition ci_section :: "readiness_config \<Rightarrow> readiness_input \<Rightarrow> merge_readiness \<Rightarrow> merge_readiness" where
  "ci_section cfg inp r = (let ci = ri_ci inp in
     if as_status ci = ''green'' then add_if True ''ci_green'' ''CI green'' r
     else if as_status ci = ''flaky'' then add_if True ''ci_flaky'' (''CI failed on '' @ commas (as_failing ci)
         @ '' '' @ em_dash @ '' probably a flake (a rebase should clear it)'') r
     else if as_status ci = ''red'' then block_if True (''CI failing: '' @ commas (as_failing ci)) r
     else if as_status ci = ''pending'' then block_if True ''CI still running'' r
     else block_if (rc_require_ci cfg) ''no CI results for this commit'' r)"

definition committer_approvers :: "readiness_input \<Rightarrow> string list \<Rightarrow> string list" where
  "committer_approvers inp approvers =
     filter (\<lambda>a. lower a \<in> set (lowered (ri_committers inp))) approvers"

definition review_section :: "readiness_config \<Rightarrow> readiness_input \<Rightarrow> merge_readiness \<Rightarrow> merge_readiness" where
  "review_section cfg inp r = (
     let approvers = mr_approvers r; stale = mr_stale_approvers r;
         committed = committer_approvers inp approvers; op = lower (ri_operator inp);
         r1 = (if approvers \<noteq> [] then add_if True ''approved'' (''approved by '' @ commas approvers) r
               else if stale \<noteq> [] then
                 r\<lparr>mr_breakdown := AList.update ''approved'' (readiness_weight ''approved'' / 2) (mr_breakdown r),
                   mr_reasons := mr_reasons r @ [''approved by '' @ commas stale
                     @ '' before the latest push (half credit)'']\<rparr>
               else r);
         r2 = (if committed \<noteq> [] then add_if True ''committer_approved''
                 (''committer approval from '' @ commas committed) r1
               else block_if (rc_require_committer_approval cfg) ''no committer approval yet'' r1)
     in add_if (op \<noteq> [] \<and> op \<in> set (lowered approvers)) ''operator_approved''
          ''you already approved this on the forge'' r2)"

definition own_review_section :: "readiness_input \<Rightarrow> merge_readiness \<Rightarrow> merge_readiness" where
  "own_review_section inp r = (let nits = dict_get 0 (ri_open_findings inp) ''nit'' in
     add_if (nits \<noteq> 0) ''open_nits'' (int_str nits @ '' open nit(s) '' @ em_dash @ '' fine to merge with or without'')
       (add_if (ri_review_ran inp \<and> serious_findings inp = 0) ''clean_review''
          ''your review found nothing serious'' r))"

definition people_section :: "readiness_input \<Rightarrow> merge_readiness \<Rightarrow> merge_readiness" where
  "people_section inp r = (
     let bucket = size_bucket (ri_additions inp) (ri_deletions inp);
         author = lower (ri_author inp); op = lower (ri_operator inp);
         r1 = (if bucket = ''small'' then add_if True ''small_diff''
                 (''small change ('' @ int_str (total_lines inp) @ '' lines)'') r
               else add_if (bucket = ''medium'') ''medium_diff''
                 (''medium change ('' @ int_str (total_lines inp) @ '' lines)'') r);
         r2 = (if author \<noteq> [] \<and> author \<in> set (lowered (ri_committers inp))
                 then add_if True ''committer_author'' (ri_author inp @ '' is a committer'') r1
               else if author \<noteq> [] \<and> (author \<in> set (lowered (ri_known_contributors inp)) \<or> author = op)
                 then add_if True ''known_contributor'' (ri_author inp @ '' is a known contributor'') r1
               else add_if (ri_is_new_contributor inp) ''new_contributor''
                 (ri_author inp @ '' is a new contributor '' @ em_dash @ '' worth a closer look'') r1);
         r3 = (if ri_test_verdict inp = Some ''good'' then add_if True ''tests_good''
                 ''new tests fail without the change (differential run)'' r2
               else add_if (ri_test_verdict inp = Some ''suspect'') ''tests_suspect''
                 ''differential tests pass with and without the change'' r2);
         r4 = add_if (touches_tests (ri_changed_files inp)) ''touches_tests'' ''touches tests'' r3
     in add_if (case ri_days_since_update inp of None \<Rightarrow> False | Some d \<Rightarrow> d \<le> 14) ''fresh''
          ''active in the last two weeks'' r4)"

definition input_tokens :: "readiness_input \<Rightarrow> string list" where
  "input_tokens inp = feature_tokens (ri_author inp) (ri_labels inp) (ri_changed_files inp)
     (ri_additions inp) (ri_deletions inp)"

definition learned_section :: "readiness_input \<Rightarrow> merge_readiness \<Rightarrow> merge_readiness" where
  "learned_section inp r = (
     let la = ri_learned inp; blockers = blocker_reasons la;
         r1 = (case worst_feature la (input_tokens inp) of
                 None \<Rightarrow> r
               | Some (token, dismissed, tot) \<Rightarrow> add_if True ''learned_dismissals''
                   (''you sent back '' @ int_str dismissed @ '' of '' @ int_str tot
                    @ '' candidates like this ('' @ token @ '')'') r);
         r2 = block_if (''needs-tests'' \<in> set blockers \<and> \<not> touches_tests (ri_changed_files inp))
                (''no test changes (you've sent back '' @ int_str (dict_get 0 (la_reason_counts la) ''needs-tests'')
                 @ '' candidates for that)'') r1
     in block_if (''needs-committer-review'' \<in> set blockers \<and> committer_approvers inp (mr_approvers r) = [])
          (''no committer approval (you've sent back ''
           @ int_str (dict_get 0 (la_reason_counts la) ''needs-committer-review'') @ '' candidates for that)'') r2)"

definition collect :: "readiness_config \<Rightarrow> readiness_input \<Rightarrow> merge_readiness" where
  "collect cfg inp = learned_section inp (people_section inp (own_review_section inp
     (review_section cfg inp (ci_section cfg inp (hard_stops cfg inp (start_readiness (ri_ci inp)))))))"

definition raw_points :: "merge_readiness \<Rightarrow> rat" where
  "raw_points r = sum_list (map snd (mr_breakdown r))"

definition decide :: "readiness_config \<Rightarrow> readiness_input \<Rightarrow> merge_readiness \<Rightarrow> merge_readiness" where
  "decide cfg inp r = (let s = unit_score MAX_READINESS (raw_points r) in
     if mr_blockers r \<noteq> [] then r\<lparr>mr_score := s, mr_verdict := VERDICT_NOT_READY\<rparr>
     else if rc_ready_threshold cfg \<le> s then
       r\<lparr>mr_score := s, mr_verdict := (if as_is_flaky (ri_ci inp) then VERDICT_FLAKY_CI else VERDICT_READY)\<rparr>
     else r\<lparr>mr_score := s, mr_verdict := VERDICT_NOT_READY,
            mr_blockers := mr_blockers r @ [''readiness '' @ int_str (py_round (s * 100)) @ '' below the ''
              @ int_str (py_round (rc_ready_threshold cfg * 100)) @ '' bar'']\<rparr>)"

definition evaluate_merge_readiness :: "readiness_config \<Rightarrow> readiness_input \<Rightarrow> merge_readiness" where
  "evaluate_merge_readiness cfg inp = decide cfg inp (collect cfg inp)"


section \<open>Reviews, by reviewer\<close>

text \<open>The three lists are the logins of the three verdicts, each login in at most one.\<close>

lemma split_loop_sets:
  assumes "split_loop h sts = (a, s, c)"
  shows "set a = {l. \<exists>st. (l, st) \<in> set sts \<and> review_verdict st = ''APPROVED'' \<and> \<not> is_stale_approval h st}"
    and "set s = {l. \<exists>st. (l, st) \<in> set sts \<and> review_verdict st = ''APPROVED'' \<and> is_stale_approval h st}"
    and "set c = {l. \<exists>st. (l, st) \<in> set sts \<and> review_verdict st = ''CHANGES_REQUESTED''}"
  using assms
proof (induction sts arbitrary: a s c)
  case (Cons x sts)
  obtain l st where x: "x = (l, st)" by fastforce
  obtain a' s' c' where r: "split_loop h sts = (a', s', c')" by (cases "split_loop h sts")
  { case 1 then show ?case using Cons.IH [OF r] by (auto simp: x r Let_def split: if_splits) }
  { case 2 then show ?case using Cons.IH [OF r] by (auto simp: x r Let_def split: if_splits) }
  { case 3 then show ?case using Cons.IH [OF r] by (auto simp: x r Let_def split: if_splits) }
qed auto

lemma split_reviews_sets:
  assumes "split_reviews sts h = (a, s, c)"
  shows "set a = {l. \<exists>st. (l, st) \<in> set sts \<and> review_verdict st = ''APPROVED'' \<and> \<not> is_stale_approval h st}"
    and "set s = {l. \<exists>st. (l, st) \<in> set sts \<and> review_verdict st = ''APPROVED'' \<and> is_stale_approval h st}"
    and "set c = {l. \<exists>st. (l, st) \<in> set sts \<and> review_verdict st = ''CHANGES_REQUESTED''}"
  using split_loop_sets [of h "sort_key fst sts" a s c] assms by (simp_all add: split_reviews_def)

lemma split_loop_sorted:
  "split_loop h sts = (a, s, c) \<Longrightarrow> sorted (map fst sts) \<Longrightarrow> sorted a \<and> sorted s \<and> sorted c"
proof (induction sts arbitrary: a s c)
  case (Cons x sts)
  obtain l st where x: "x = (l, st)" by fastforce
  obtain a' s' c' where r: "split_loop h sts = (a', s', c')" by (cases "split_loop h sts")
  have "sorted a' \<and> sorted s' \<and> sorted c'" using Cons.IH [OF r] Cons.prems(2) by simp
  moreover have "\<forall>y \<in> set a' \<union> set s' \<union> set c'. l \<le> y"
    using Cons.prems(2) by (auto simp: x split_loop_sets [OF r])
  ultimately show ?case using Cons.prems(1) by (auto simp: x r Let_def split: if_splits)
qed simp

text \<open>
  What \<open>normalize_reviews\<close> keeps: for each login, the last review that says something about
  it, if that was an approval or a request for changes.
\<close>

definition meaningful :: "string \<Rightarrow> string \<Rightarrow> jdict \<Rightarrow> bool" where
  "meaningful author login review \<longleftrightarrow> review_login review = login \<and> login \<noteq> []
     \<and> lower login \<noteq> lower author \<and> \<not> is_bot login
     \<and> review_state review \<in> {''DISMISSED'', ''APPROVED'', ''CHANGES_REQUESTED''}"

definition stored_review :: "jdict \<Rightarrow> sdict" where
  "stored_review review = [(''state'', review_state review),
     (''commit_id'', str_or review ''commit_id'' ''''), (''submitted_at'', str_or review ''submitted_at'' '''')]"

lemma normalize_step_lookup:
  "map_of (normalize_step author sts review) login =
     (if meaningful author login review then
        (if review_state review = ''DISMISSED'' then None else Some (stored_review review))
      else map_of sts login)"
  by (auto simp: normalize_step_def meaningful_def stored_review_def Let_def)

lemma normalize_fold_lookup:
  "map_of (foldl (normalize_step author) sts reviews) login =
     (case rev (filter (meaningful author login) reviews) of
        [] \<Rightarrow> map_of sts login
      | r # _ \<Rightarrow> if review_state r = ''DISMISSED'' then None else Some (stored_review r))"
proof (induction reviews arbitrary: sts)
  case (Cons r rs)
  then show ?case by (auto simp: normalize_step_lookup split: list.splits)
qed simp

lemma normalize_distinct: "distinct (map fst (normalize_reviews reviews author))"
proof -
  have "distinct (map fst (foldl (normalize_step author) sts reviews))"
    if "distinct (map fst sts)" for sts
    using that
  proof (induction reviews arbitrary: sts)
    case (Cons r rs)
    then show ?case
      by (simp add: normalize_step_def Let_def AList.distinct_update AList.distinct_delete)
  qed simp
  then show ?thesis by (simp add: normalize_reviews_def)
qed

section \<open>What a listed PR satisfies\<close>

text \<open>The blockers a section leaves alone, and the fields it does not touch.\<close>

lemma add_if_frame [simp]:
  "mr_blockers (add_if b n t r) = mr_blockers r" "mr_approvers (add_if b n t r) = mr_approvers r"
  "mr_ci (add_if b n t r) = mr_ci r"
  by (simp_all add: add_if_def)

lemma block_if_frame [simp]:
  "mr_blockers (block_if b t r) = mr_blockers r @ (if b then [t] else [])"
  "mr_approvers (block_if b t r) = mr_approvers r" "mr_ci (block_if b t r) = mr_ci r"
  "mr_breakdown (block_if b t r) = mr_breakdown r"
  by (simp_all add: block_if_def)

lemma split_approvers: "split_reviews (ri_review_states inp) (ri_head_sha inp) = (a, s, c) \<Longrightarrow>
  mr_approvers (hard_stops cfg inp r) = a"
  by (simp add: hard_stops_def Let_def)

lemma section_approvers [simp]:
  "mr_approvers (ci_section cfg inp r) = mr_approvers r"
  "mr_approvers (review_section cfg inp r) = mr_approvers r"
  "mr_approvers (own_review_section inp r) = mr_approvers r"
  "mr_approvers (people_section inp r) = mr_approvers r"
  by (simp_all add: ci_section_def review_section_def own_review_section_def people_section_def Let_def)

lemma section_ci [simp]:
  "mr_ci (ci_section cfg inp r) = mr_ci r" "mr_ci (review_section cfg inp r) = mr_ci r"
  "mr_ci (own_review_section inp r) = mr_ci r" "mr_ci (people_section inp r) = mr_ci r"
  by (simp_all add: ci_section_def review_section_def own_review_section_def people_section_def Let_def)

lemma section_ci2 [simp]:
  "mr_ci (learned_section inp r) = mr_ci r" "mr_ci (hard_stops cfg inp r) = mr_ci r"
  by (simp_all add: learned_section_def hard_stops_def Let_def split: option.split prod.split)

lemma evaluate_ci: "mr_ci (evaluate_merge_readiness cfg inp) = ri_ci inp"
  by (simp add: evaluate_merge_readiness_def decide_def collect_def start_readiness_def Let_def)

text \<open>
  The contract of the blockers, as a condition on the input: what must hold for no section
  to raise one.
\<close>

definition no_changes_requested :: "readiness_input \<Rightarrow> bool" where
  "no_changes_requested inp \<longleftrightarrow>
     (\<forall>(l, st) \<in> set (ri_review_states inp). review_verdict st \<noteq> ''CHANGES_REQUESTED'')"

definition ci_acceptable :: "readiness_config \<Rightarrow> readiness_input \<Rightarrow> bool" where
  "ci_acceptable cfg inp \<longleftrightarrow> (let st = as_status (ri_ci inp) in
     st \<in> {''green'', ''flaky''} \<or> (st \<notin> {''red'', ''pending''} \<and> \<not> rc_require_ci cfg))"

definition committer_approved :: "readiness_input \<Rightarrow> bool" where
  "committer_approved inp \<longleftrightarrow> (\<exists>(l, st) \<in> set (ri_review_states inp). review_verdict st = ''APPROVED''
     \<and> \<not> is_stale_approval (ri_head_sha inp) st \<and> lower l \<in> set (lowered (ri_committers inp)))"

definition code_clear :: "readiness_config \<Rightarrow> readiness_input \<Rightarrow> bool" where
  "code_clear cfg inp \<longleftrightarrow> \<not> ri_is_draft inp \<and> \<not> is_wip_title (ri_title inp) \<and> ri_mergeable inp \<noteq> Some False
     \<and> (ri_dismissed_sha inp = [] \<or> ri_dismissed_sha inp \<noteq> ri_head_sha inp)
     \<and> total_lines inp \<le> rc_max_diff_lines cfg \<and> \<not> is_stale cfg inp
     \<and> serious_findings inp = 0 \<and> ri_test_verdict inp \<noteq> Some ''broken''"

definition learned_clear :: "readiness_input \<Rightarrow> bool" where
  "learned_clear inp \<longleftrightarrow> (let bs = set (blocker_reasons (ri_learned inp)) in
     (''needs-tests'' \<in> bs \<longrightarrow> touches_tests (ri_changed_files inp))
     \<and> (''needs-committer-review'' \<in> bs \<longrightarrow> committer_approved inp))"

definition clear_to_merge :: "readiness_config \<Rightarrow> readiness_input \<Rightarrow> bool" where
  "clear_to_merge cfg inp \<longleftrightarrow> code_clear cfg inp \<and> no_changes_requested inp \<and> ci_acceptable cfg inp
     \<and> (rc_require_committer_approval cfg \<longrightarrow> committer_approved inp) \<and> learned_clear inp"

lemma committer_approved_iff:
  assumes "split_reviews (ri_review_states inp) (ri_head_sha inp) = (a, s, c)"
  shows "committer_approvers inp a \<noteq> [] \<longleftrightarrow> committer_approved inp"
  using split_reviews_sets(1) [OF assms]
  by (fastforce simp: committer_approvers_def committer_approved_def filter_empty_conv)

lemma hard_stops_clear:
  assumes "mr_blockers r = []"
  shows "mr_blockers (hard_stops cfg inp r) = [] \<longleftrightarrow> code_clear cfg inp \<and> no_changes_requested inp"
proof -
  obtain a s c where sp: "split_reviews (ri_review_states inp) (ri_head_sha inp) = (a, s, c)"
    by (cases "split_reviews (ri_review_states inp) (ri_head_sha inp)")
  have c: "c = [] \<longleftrightarrow> no_changes_requested inp"
    unfolding set_empty [of c, symmetric] split_reviews_sets(3) [OF sp] no_changes_requested_def by auto
  have "mr_blockers (hard_stops cfg inp r) = [] \<longleftrightarrow> code_clear cfg inp \<and> c = []"
    using assms by (simp add: hard_stops_def sp code_clear_def) fastforce
  with c show ?thesis by simp
qed

lemma ci_section_clear:
  "mr_blockers (ci_section cfg inp r) = [] \<longleftrightarrow> mr_blockers r = [] \<and> ci_acceptable cfg inp"
  by (simp add: ci_section_def ci_acceptable_def Let_def)

lemma review_section_clear:
  "mr_blockers (review_section cfg inp r) = [] \<longleftrightarrow> mr_blockers r = []
     \<and> (rc_require_committer_approval cfg \<longrightarrow> committer_approvers inp (mr_approvers r) \<noteq> [])"
  by (simp add: review_section_def Let_def)

lemma quiet_sections [simp]:
  "mr_blockers (own_review_section inp r) = mr_blockers r"
  "mr_blockers (people_section inp r) = mr_blockers r"
  by (simp_all add: own_review_section_def people_section_def Let_def)

lemma learned_section_clear:
  "mr_blockers (learned_section inp r) = [] \<longleftrightarrow> mr_blockers r = []
     \<and> (''needs-tests'' \<in> set (blocker_reasons (ri_learned inp)) \<longrightarrow> touches_tests (ri_changed_files inp))
     \<and> (''needs-committer-review'' \<in> set (blocker_reasons (ri_learned inp))
          \<longrightarrow> committer_approvers inp (mr_approvers r) \<noteq> [])"
  by (auto simp: learned_section_def Let_def split: option.splits)

lemma collect_clear: "mr_blockers (collect cfg inp) = [] \<longleftrightarrow> clear_to_merge cfg inp"
proof -
  obtain a s c where sp: "split_reviews (ri_review_states inp) (ri_head_sha inp) = (a, s, c)"
    by (cases "split_reviews (ri_review_states inp) (ri_head_sha inp)")
  have start: "mr_blockers (start_readiness (ri_ci inp)) = []" by (simp add: start_readiness_def)
  show ?thesis
    by (simp add: collect_def learned_section_clear review_section_clear ci_section_clear
        hard_stops_clear [OF start] split_approvers [OF sp] committer_approved_iff [OF sp]
        clear_to_merge_def learned_clear_def Let_def)
qed

lemma evaluate_score: "mr_score (evaluate_merge_readiness cfg inp)
    = unit_score MAX_READINESS (raw_points (collect cfg inp))"
  by (simp add: evaluate_merge_readiness_def decide_def Let_def)

lemma evaluate_listed:
  "listed (evaluate_merge_readiness cfg inp) \<longleftrightarrow>
     clear_to_merge cfg inp \<and> rc_ready_threshold cfg \<le> mr_score (evaluate_merge_readiness cfg inp)"
  unfolding evaluate_score collect_clear [symmetric]
  by (simp add: evaluate_merge_readiness_def decide_def listed_def LISTED_VERDICTS_def Let_def)

lemma evaluate_blockers:
  "mr_blockers (evaluate_merge_readiness cfg inp) = [] \<longleftrightarrow> listed (evaluate_merge_readiness cfg inp)"
  by (simp add: evaluate_merge_readiness_def decide_def listed_def LISTED_VERDICTS_def Let_def)


section \<open>Properties\<close>

text \<open>
  C11: The contract of the queue. A PR is listed exactly when nothing stands in its way and
  its points reach the threshold. Nothing in its way means: not draft or WIP, no conflicts,
  not dismissed at this head, nobody requesting changes, small enough, not stale, no serious
  findings, no broken differential tests, acceptable CI, the required committer approval, and
  no learned gap.
\<close>

theorem listed_contract:
  "listed (evaluate_merge_readiness cfg inp) \<longleftrightarrow>
     clear_to_merge cfg inp \<and> rc_ready_threshold cfg \<le> unit_score 100 (raw_points (collect cfg inp))"
  by (simp add: evaluate_listed evaluate_score)

text \<open>
  C33: The verdict and its explanation agree: a PR is not ready exactly when the blocker list
  the operator reads is non-empty, and otherwise it is \<open>flaky-ci\<close> when its CI is flaky and
  \<open>ready\<close> when not.
\<close>

theorem verdict_explained:
  "mr_verdict (evaluate_merge_readiness cfg inp) =
     (if mr_blockers (evaluate_merge_readiness cfg inp) \<noteq> [] then VERDICT_NOT_READY
      else if as_status (ri_ci inp) = CI_FLAKY then VERDICT_FLAKY_CI else VERDICT_READY)"
  by (simp add: evaluate_merge_readiness_def decide_def as_is_flaky_def Let_def)

text \<open>
  Stored reviews are each reviewer's latest meaningful review: an approval or a request
  for changes is stored as it came, a dismissal removes the entry, and comments, the author's
  own reviews and bots leave no trace.
\<close>

theorem normalize_keeps_latest:
  "map_of (normalize_reviews reviews author) login =
     (case rev (filter (meaningful author login) reviews) of
        [] \<Rightarrow> None
      | r # _ \<Rightarrow> if review_state r = ''DISMISSED'' then None else Some (stored_review r))"
  by (simp add: normalize_reviews_def normalize_fold_lookup cong: list.case_cong)

text \<open>
  Splitting the stored reviews loses and invents nobody: the three lists are sorted, and
  hold exactly the logins that approved this head (or an unknown commit), approved another
  commit, and requested changes.
\<close>

theorem split_reviews_exact:
  "case split_reviews sts head of (approvers, stale, changes) \<Rightarrow>
     sorted approvers \<and> sorted stale \<and> sorted changes
     \<and> set approvers = {l. \<exists>st. (l, st) \<in> set sts \<and> review_verdict st = ''APPROVED'' \<and> \<not> is_stale_approval head st}
     \<and> set stale = {l. \<exists>st. (l, st) \<in> set sts \<and> review_verdict st = ''APPROVED'' \<and> is_stale_approval head st}
     \<and> set changes = {l. \<exists>st. (l, st) \<in> set sts \<and> review_verdict st = ''CHANGES_REQUESTED''}"
proof -
  obtain a s c where sp: "split_reviews sts head = (a, s, c)" by (cases "split_reviews sts head")
  have "sorted a \<and> sorted s \<and> sorted c"
    using sp by (intro split_loop_sorted [of head "sort_key fst sts"]) (simp_all add: split_reviews_def)
  then show ?thesis using split_reviews_sets [OF sp] by (simp add: sp)
qed

subsection \<open>The worst feature\<close>

definition feature_rate :: "learned_adjustments \<Rightarrow> string \<Rightarrow> rat" where
  "feature_rate la x = (let (d, n) = dict_get (0, 0) (la_feature_rates la) x in of_int d / of_int n)"

definition clears_bar :: "learned_adjustments \<Rightarrow> string \<Rightarrow> bool" where
  "clears_bar la x \<longleftrightarrow> LEARNED_MIN_OBSERVATIONS \<le> snd (dict_get (0, 0) (la_feature_rates la) x)
     \<and> LEARNED_DISMISS_RATE \<le> feature_rate la x"

definition worst_ok :: "learned_adjustments \<Rightarrow> worst \<Rightarrow> rat \<Rightarrow> bool" where
  "worst_ok la w r \<longleftrightarrow> (case w of None \<Rightarrow> r = 0
     | Some (t, d, n) \<Rightarrow> dict_get (0, 0) (la_feature_rates la) t = (d, n) \<and> clears_bar la t \<and> r = feature_rate la t)"

lemma worst_loop_Cons: "worst_loop la (x # xs) w r =
   (if clears_bar la x \<and> r < feature_rate la x
    then worst_loop la xs (Some (x, dict_get (0, 0) (la_feature_rates la) x)) (feature_rate la x)
    else worst_loop la xs w r)"
  by (auto simp: clears_bar_def feature_rate_def Let_def split: prod.splits)

declare worst_loop.simps(2) [simp del]
declare worst_loop_Cons [simp]

lemma worst_ok_Some [simp]: "worst_ok la (Some (x, dict_get (0, 0) (la_feature_rates la) x)) q
    \<longleftrightarrow> clears_bar la x \<and> q = feature_rate la x"
  by (cases "dict_get (0, 0) (la_feature_rates la) x") (simp add: worst_ok_def)

lemma worst_loop_ok: "worst_ok la w r \<Longrightarrow> worst_loop la xs w r = Some (t, d, n) \<Longrightarrow>
    worst_ok la (Some (t, d, n)) (feature_rate la t) \<and> r \<le> feature_rate la t
    \<and> (t \<in> set xs \<or> w = Some (t, d, n))"
proof (induction xs arbitrary: w r)
  case Nil
  then show ?case by (auto simp: worst_ok_def)
next
  case (Cons x xs)
  show ?case
  proof (cases "clears_bar la x \<and> r < feature_rate la x")
    case True
    with Cons.prems(2) Cons.IH [of "Some (x, dict_get (0, 0) (la_feature_rates la) x)" "feature_rate la x"]
    show ?thesis by auto
  next
    case False
    with Cons.prems Cons.IH [of w r] show ?thesis by auto
  qed
qed

lemma worst_loop_Some: "w \<noteq> None \<Longrightarrow> worst_loop la xs w r \<noteq> None"
  by (induction xs arbitrary: w r) auto

lemma worst_loop_max:
  "worst_ok la w r \<Longrightarrow> x \<in> set xs \<Longrightarrow> clears_bar la x \<Longrightarrow>
    \<exists>t d n. worst_loop la xs w r = Some (t, d, n) \<and> feature_rate la x \<le> feature_rate la t"
proof (induction xs arbitrary: w r)
  case (Cons y ys)
  show ?case
  proof (cases "x \<in> set ys")
    case True
    with Cons show ?thesis by simp
  next
    case False
    with Cons.prems have x: "x = y" by simp
    define w' where "w' = (if r < feature_rate la x
      then Some (x, dict_get (0, 0) (la_feature_rates la) x) else w)"
    define r' where "r' = (if r < feature_rate la x then feature_rate la x else r)"
    have step: "worst_loop la (y # ys) w r = worst_loop la ys w' r'"
      using Cons.prems(3) by (simp add: x w'_def r'_def)
    have ok: "worst_ok la w' r'" using Cons.prems by (simp add: w'_def r'_def)
    have "0 < feature_rate la x" using Cons.prems(3) by (simp add: clears_bar_def LEARNED_DISMISS_RATE_def)
    with ok have "w' \<noteq> None" by (cases w) (auto simp: worst_ok_def w'_def r'_def split: if_splits)
    then obtain t d n where e: "worst_loop la ys w' r' = Some (t, d, n)"
      using worst_loop_Some [of w' la ys r'] by auto
    with worst_loop_ok [OF ok e] show ?thesis unfolding step by (auto simp: r'_def split: if_splits)
  qed
qed simp

text \<open>
  The worst feature is an honest maximum: it is one of the PR's tokens, reported with its
  recorded counts, seen and dismissed often enough, and no token that clears the bar has a
  higher dismissal rate; it is absent only when no token clears the bar.
\<close>

lemma worst_feature_maximal:
  "case worst_feature la tokens of
     None \<Rightarrow> \<not> list_ex (clears_bar la) tokens
   | Some (t, d, n) \<Rightarrow> t \<in> set tokens \<and> dict_get (0, 0) (la_feature_rates la) t = (d, n) \<and> clears_bar la t
       \<and> list_all (\<lambda>x. if clears_bar la x then feature_rate la x \<le> feature_rate la t else True) tokens"
proof -
  have start: "worst_ok la None 0" by (simp add: worst_ok_def)
  show ?thesis
    using worst_loop_ok [OF start] worst_loop_max [OF start]
    by (fastforce simp: worst_feature_def worst_ok_def list_ex_iff list_all_iff split: option.splits)
qed

end
