(* ===== verification/DataModel.thy ===== *)
theory DataModel
  imports Readiness
begin

text \<open>
  The rows of the database that the merge-readiness, CI-analysis and merge-queue components
  read and write (\<open>core/models.py\<close>), and the CI check history as an interface.

  A row is a record; the columns kept are those the modelled code uses. A JSON column that
  the code itself writes in one shape has the type of that shape; the others are \<open>json\<close>.
  Timestamps are seconds. A table is the list of its rows.
\<close>

section \<open>Rows\<close>

record pr_row =
  pr_pk :: nat
  pr_project :: nat
  pr_number :: int
  pr_title :: string
  pr_author :: string
  pr_state :: string
  pr_labels :: "string list"
  pr_changed_files :: "string list"
  pr_additions :: int
  pr_deletions :: int
  pr_interest_score :: rat
  pr_is_draft :: bool
  pr_is_new_contributor :: bool
  pr_mergeable :: "bool option"
  pr_base_sha :: string
  pr_head_sha :: string
  pr_head_branch :: string
  pr_ci_status :: string
  pr_approval_count :: int
  pr_merge_queue_eligible :: bool
  pr_merged_at :: "int option"
  pr_merged_by :: string
  pr_review_states :: review_states
  pr_ci_checks :: "json list"
  pr_ci_checks_sha :: string
  pr_ci_analysis :: jdict
  pr_readiness_score :: rat
  pr_readiness_verdict :: string
  pr_readiness_detail :: jdict
  pr_readiness_dismissed_sha :: string
  pr_approved_critical :: bool
  pr_approved_critical_detail :: jdict
  pr_rebase_requested_sha :: string
  pr_rebase_requested_at :: "int option"
  pr_rebase_requested_checks :: "string list"
  pr_github_updated_at :: "int option"
  pr_agent_runs :: jdict

record project_ref =
  pj_pk :: nat
  pj_owner :: string
  pj_repo :: string

record history_row =
  hr_project :: nat
  hr_check_name :: string
  hr_flaky_count :: int
  hr_real_count :: int
  hr_last_failed_at :: "int option"

record feedback_row =
  fb_pull_request :: nat
  fb_project :: nat
  fb_verdict :: string
  fb_reason_code :: string
  fb_reason_text :: string
  fb_head_sha :: string
  fb_features :: jdict

record action_row =
  oa_action_type :: string
  oa_pull_request :: nat
  oa_notes :: string

record draft_row =
  rd_pk :: nat
  rd_pull_request :: nat
  rd_severity :: string
  rd_line_number :: "int option"
  rd_auto_suppressed :: bool
  rd_status :: string

record test_run_row =
  tr_pull_request :: nat
  tr_status :: string
  tr_verdict :: "string option"
  tr_created_at :: int

record db =
  db_history :: "history_row list"
  db_feedback :: "feedback_row list"
  db_actions :: "action_row list"
  db_drafts :: "draft_row list"
  db_test_runs :: "test_run_row list"

text \<open>The clock as the code reads it: the instant, and its ISO rendering to the second.\<close>

record clock =
  now_ts :: int
  now_iso :: string

section \<open>The check history as an interface\<close>

text \<open>
  What the learning code needs of the history: the counts of a check, and the two ways to
  record an outcome, each of which adds one to its own count of its own check.
\<close>

locale check_history =
  fixes counts :: "'s \<Rightarrow> string \<Rightarrow> int \<times> int"
    and note_flaky :: "string \<Rightarrow> 's \<Rightarrow> 's"
    and note_real :: "string \<Rightarrow> 's \<Rightarrow> 's"
  assumes counts_note_flaky: "counts (note_flaky n s) m =
      (if m = n then (fst (counts s m) + 1, snd (counts s m)) else counts s m)"
    and counts_note_real: "counts (note_real n s) m =
      (if m = n then (fst (counts s m), snd (counts s m) + 1) else counts s m)"
begin

lemma counts_fold_flaky:
  "counts (foldl (\<lambda>s n. note_flaky n s) s ns) m
     = (fst (counts s m) + int (count_list ns m), snd (counts s m))"
  by (induction ns arbitrary: s) (auto simp: counts_note_flaky)

lemma counts_fold_real:
  "counts (foldl (\<lambda>s n. note_real n s) s ns) m
     = (fst (counts s m), snd (counts s m) + int (count_list ns m))"
  by (induction ns arbitrary: s) (auto simp: counts_note_real)

lemma counts_outcomes:
  "counts (foldl (\<lambda>s n. note_real n s) (foldl (\<lambda>s n. note_flaky n s) s fs) rs) m
     = (fst (counts s m) + int (count_list fs m), snd (counts s m) + int (count_list rs m))"
  by (simp add: counts_fold_flaky counts_fold_real)

lemma counts_grow:
  "fst (counts s m) \<le> fst (counts (foldl (\<lambda>s n. note_flaky n s) s ns) m)"
  "snd (counts s m) \<le> snd (counts (foldl (\<lambda>s n. note_real n s) s ns) m)"
  by (simp_all add: counts_fold_flaky counts_fold_real)

end

section \<open>The table that provides it\<close>

definition is_row :: "nat \<Rightarrow> string \<Rightarrow> history_row \<Rightarrow> bool" where
  "is_row p n r \<longleftrightarrow> hr_project r = p \<and> hr_check_name r = n"

definition get_or_create :: "nat \<Rightarrow> string \<Rightarrow> history_row list \<Rightarrow> history_row list" where
  "get_or_create p n rows = (if list_ex (is_row p n) rows then rows
     else rows @ [\<lparr>hr_project = p, hr_check_name = n, hr_flaky_count = 0, hr_real_count = 0,
                   hr_last_failed_at = None\<rparr>])"

definition bump_flaky :: "nat \<Rightarrow> string \<Rightarrow> history_row list \<Rightarrow> history_row list" where
  "bump_flaky p n rows = map (\<lambda>r. if is_row p n r
     then r\<lparr>hr_flaky_count := hr_flaky_count r + 1\<rparr> else r) (get_or_create p n rows)"

definition bump_real :: "int \<Rightarrow> nat \<Rightarrow> string \<Rightarrow> history_row list \<Rightarrow> history_row list" where
  "bump_real now p n rows = map (\<lambda>r. if is_row p n r
     then r\<lparr>hr_real_count := hr_real_count r + 1, hr_last_failed_at := Some now\<rparr> else r)
     (get_or_create p n rows)"

definition check_history_for :: "nat \<Rightarrow> history_row list \<Rightarrow> flake_history" where
  "check_history_for p rows = map (\<lambda>r. (hr_check_name r, (hr_flaky_count r, hr_real_count r)))
     (filter (\<lambda>r. hr_project r = p) rows)"

text \<open>The table's uniqueness constraint on \<open>(project, check_name)\<close>.\<close>

definition unique_history :: "history_row list \<Rightarrow> bool" where
  "unique_history rows \<longleftrightarrow> distinct (map (\<lambda>r. (hr_project r, hr_check_name r)) rows)"

definition good_rows :: "history_row list \<Rightarrow> bool" where
  "good_rows rows \<longleftrightarrow> (\<forall>r \<in> set rows. 0 \<le> hr_flaky_count r \<and> 0 \<le> hr_real_count r)"

lemma row_keys_map: "(\<And>r. hr_project (f r) = hr_project r \<and> hr_check_name (f r) = hr_check_name r) \<Longrightarrow>
    unique_history (map f rows) = unique_history rows"
  by (simp add: unique_history_def comp_def)

lemma unique_get_or_create: "unique_history rows \<Longrightarrow> unique_history (get_or_create p n rows)"
  by (auto simp: unique_history_def get_or_create_def is_row_def list_ex_iff)

lemma unique_bumps:
  "unique_history rows \<Longrightarrow> unique_history (bump_flaky p n rows)"
  "unique_history rows \<Longrightarrow> unique_history (bump_real now p n rows)"
  unfolding bump_flaky_def bump_real_def
  by (subst row_keys_map, simp, erule unique_get_or_create)+

lemma good_bumps:
  "good_rows rows \<Longrightarrow> good_rows (bump_flaky p n rows)"
  "good_rows rows \<Longrightarrow> good_rows (bump_real now p n rows)"
  by (auto simp: good_rows_def bump_flaky_def bump_real_def get_or_create_def)

lemma good_history_for: "good_rows rows \<Longrightarrow> good_history (check_history_for p rows)"
  by (auto simp: good_rows_def good_history_def check_history_for_def)

text \<open>Looking a check up in the table: the first row of the project with that name.\<close>

lemma map_of_history:
  "map_of (check_history_for p rows) n = (case filter (is_row p n) rows of
     [] \<Rightarrow> None | r # _ \<Rightarrow> Some (hr_flaky_count r, hr_real_count r))"
  by (induction rows) (auto simp: check_history_for_def is_row_def)

definition history_counts :: "nat \<Rightarrow> history_row list \<Rightarrow> string \<Rightarrow> int \<times> int" where
  "history_counts p rows n = dict_get (0, 0) (check_history_for p rows) n"

lemma history_counts_filter:
  "history_counts p rows n = (case filter (is_row p n) rows of
     [] \<Rightarrow> (0, 0) | r # _ \<Rightarrow> (hr_flaky_count r, hr_real_count r))"
  by (simp add: history_counts_def dict_get_def map_of_history split: list.splits)

lemma filter_row_map:
  "(\<And>r. is_row p m (f r) = is_row p m r) \<Longrightarrow> filter (is_row p m) (map f rows) = map f (filter (is_row p m) rows)"
  by (induction rows) auto

lemma filter_get_or_create:
  "filter (is_row p m) (get_or_create p n rows) =
     (if m = n \<and> filter (is_row p n) rows = []
      then [\<lparr>hr_project = p, hr_check_name = n, hr_flaky_count = 0, hr_real_count = 0, hr_last_failed_at = None\<rparr>]
      else filter (is_row p m) rows)"
  by (auto simp: get_or_create_def list_ex_iff filter_empty_conv is_row_def)

lemma filter_head: "filter P xs = y # ys \<Longrightarrow> P y"
  by (drule filter_eq_ConsD) auto

lemma counts_bump_flaky:
  "history_counts p (bump_flaky p n rows) m =
     (if m = n then (fst (history_counts p rows m) + 1, snd (history_counts p rows m))
      else history_counts p rows m)"
proof (cases "filter (is_row p m) rows")
  case Nil
  then show ?thesis
    unfolding history_counts_filter bump_flaky_def
    by (subst filter_row_map) (auto simp: filter_get_or_create is_row_def)
next
  case (Cons r rs)
  then have "is_row p m r" by (rule filter_head)
  with Cons show ?thesis
    unfolding history_counts_filter bump_flaky_def
    by (subst filter_row_map) (auto simp: filter_get_or_create is_row_def)
qed

lemma counts_bump_real:
  "history_counts p (bump_real now p n rows) m =
     (if m = n then (fst (history_counts p rows m), snd (history_counts p rows m) + 1)
      else history_counts p rows m)"
proof (cases "filter (is_row p m) rows")
  case Nil
  then show ?thesis
    unfolding history_counts_filter bump_real_def
    by (subst filter_row_map) (auto simp: filter_get_or_create is_row_def)
next
  case (Cons r rs)
  then have "is_row p m r" by (rule filter_head)
  with Cons show ?thesis
    unfolding history_counts_filter bump_real_def
    by (subst filter_row_map) (auto simp: filter_get_or_create is_row_def)
qed

interpretation hist: check_history "history_counts p" "bump_flaky p" "bump_real now p" for p now
  by unfold_locales (rule counts_bump_flaky, rule counts_bump_real)

section \<open>A sample PR and database\<close>

definition sample_pr :: pr_row where
  "sample_pr = \<lparr>pr_pk = 1, pr_project = 7, pr_number = 42, pr_title = ''Fix shuffle'', pr_author = ''ann'',
     pr_state = ''open'', pr_labels = [], pr_changed_files = [''src/a.py''], pr_additions = 10, pr_deletions = 2,
     pr_interest_score = 0, pr_is_draft = False, pr_is_new_contributor = False, pr_mergeable = Some True,
     pr_base_sha = ''b0'', pr_head_sha = ''h1'', pr_head_branch = ''fix'', pr_ci_status = ''fail'',
     pr_approval_count = 0, pr_merge_queue_eligible = False, pr_merged_at = None, pr_merged_by = '''',
     pr_review_states = [], pr_ci_checks = [JObj [(''name'', JStr ''unit''), (''conclusion'', JStr ''timed_out'')]],
     pr_ci_checks_sha = ''h1'', pr_ci_analysis = [], pr_readiness_score = 0, pr_readiness_verdict = '''',
     pr_readiness_detail = [(''ci'', JObj [(''failing'', JList [JStr ''unit''])])],
     pr_readiness_dismissed_sha = '''', pr_approved_critical = False, pr_approved_critical_detail = [],
     pr_rebase_requested_sha = '''', pr_rebase_requested_at = None, pr_rebase_requested_checks = [],
     pr_github_updated_at = None, pr_agent_runs = []\<rparr>"

definition empty_db :: db where
  "empty_db = \<lparr>db_history = [], db_feedback = [], db_actions = [], db_drafts = [], db_test_runs = []\<rparr>"

definition sample_clock :: clock where
  "sample_clock = \<lparr>now_ts = 1000, now_iso = ''1970-01-01T00:16:40+00:00''\<rparr>"

end
