(* ===== verification/ReadinessStore.thy ===== *)
theory ReadinessStore
  imports DataModel
begin

text \<open>
  The database half of \<open>scoring/merge_readiness.py\<close>: what is read off the rows to evaluate a
  PR, what the evaluation writes back, what the operator's verdict records, and what a
  requested rebase teaches about the checks that were failing.
\<close>

section \<open>Reading the row\<close>

definition json_objs :: "json list \<Rightarrow> jdict list" where
  "json_objs xs = concat (map (\<lambda>x. case x of JObj d \<Rightarrow> [d] | _ \<Rightarrow> []) xs)"

definition current_checks :: "pr_row \<Rightarrow> jdict list" where
  "current_checks pr = (if pr_ci_checks_sha pr \<noteq> pr_head_sha pr then [] else json_objs (pr_ci_checks pr))"

definition str_values :: "jdict \<Rightarrow> sdict" where
  "str_values m = map (\<lambda>(k, v). (k, py_str v)) m"

definition current_ci_analysis :: "pr_row \<Rightarrow> string list \<times> verdict_map" where
  "current_ci_analysis pr = (let analysis = pr_ci_analysis pr in
     if analysis = [] \<or> jget analysis ''sha'' \<noteq> JStr (pr_head_sha pr) then ([], [])
     else (let
       base = concat (map (\<lambda>n. case n of JStr s \<Rightarrow> [s] | _ \<Rightarrow> [])
                (case dict_get (JList []) analysis ''base_failing'' of JList xs \<Rightarrow> xs | _ \<Rightarrow> []));
       verdicts = concat (map (\<lambda>(k, v). case v of JObj m \<Rightarrow> [(k, str_values m)] | _ \<Rightarrow> [])
                (case dict_get (JObj []) analysis ''verdicts'' of JObj m \<Rightarrow> m | _ \<Rightarrow> []))
       in (base, verdicts)))"

definition counts_as_open :: "nat \<Rightarrow> draft_row \<Rightarrow> bool" where
  "counts_as_open pk d \<longleftrightarrow> rd_pull_request d = pk \<and> rd_line_number d \<noteq> None \<and> \<not> rd_auto_suppressed d
     \<and> rd_status d \<in> set [''pending'', ''accepted'', ''edited'']"

definition count_by_severity :: "draft_row list \<Rightarrow> (string \<times> int) list" where
  "count_by_severity ds = foldl (\<lambda>m d. AList.update (rd_severity d) (dict_get 0 m (rd_severity d) + 1) m) [] ds"

definition run_ok :: "json \<Rightarrow> bool" where
  "run_ok info = (case info of
     JObj d \<Rightarrow> jget d ''status'' = JStr ''ok'' \<and> \<not> truthy (jget d ''stale'') | _ \<Rightarrow> False)"

definition open_findings :: "pr_row \<Rightarrow> db \<Rightarrow> (string \<times> int) list \<times> bool" where
  "open_findings pr d = (count_by_severity (filter (counts_as_open (pr_pk pr)) (db_drafts d)),
     list_ex run_ok (map snd (pr_agent_runs pr)))"

definition finished_run :: "nat \<Rightarrow> test_run_row \<Rightarrow> bool" where
  "finished_run pk t \<longleftrightarrow> tr_pull_request t = pk \<and> tr_status t = ''completed'' \<and> tr_verdict t \<noteq> None"

definition latest_test_verdict :: "pr_row \<Rightarrow> db \<Rightarrow> string option" where
  "latest_test_verdict pr d =
     (case sort_key (\<lambda>t. - tr_created_at t) (filter (finished_run (pr_pk pr)) (db_test_runs d)) of
        [] \<Rightarrow> None
      | t # _ \<Rightarrow> (case tr_verdict t of None \<Rightarrow> None | Some v \<Rightarrow> if v = [] then None else Some v))"

section \<open>What was learned\<close>

definition feedback_tokens :: "jdict \<Rightarrow> string list option" where
  "feedback_tokens features = (case jget features ''tokens'' of JList ts \<Rightarrow> Some (map py_str ts) | _ \<Rightarrow> None)"

definition count_token :: "bool \<Rightarrow> (string \<times> (int \<times> int)) list \<Rightarrow> string \<Rightarrow> (string \<times> (int \<times> int)) list" where
  "count_token dismissed m token = (let (d, t) = dict_get (0, 0) m token in
     AList.update token (d + (if dismissed then 1 else 0), t + 1) m)"

definition learn_row :: "learned_adjustments \<Rightarrow> feedback_row \<Rightarrow> learned_adjustments" where
  "learn_row la fb = (let dismissed = (fb_verdict fb = ''not-ready''); code = fb_reason_code fb;
     la1 = (if dismissed \<and> code \<noteq> []
            then la\<lparr>la_reason_counts := AList.update code (dict_get 0 (la_reason_counts la) code + 1)
                      (la_reason_counts la)\<rparr> else la)
     in (case feedback_tokens (fb_features fb) of
          None \<Rightarrow> la1
        | Some tokens \<Rightarrow> la1\<lparr>la_feature_rates := foldl (count_token dismissed) (la_feature_rates la1) tokens\<rparr>))"

definition is_observation :: "nat \<Rightarrow> feedback_row \<Rightarrow> bool" where
  "is_observation p fb \<longleftrightarrow> fb_project fb = p \<and> fb_verdict fb \<in> set [''lgtm'', ''merged'', ''not-ready'']"

definition learned_adjustments_for :: "nat \<Rightarrow> feedback_row list \<Rightarrow> learned_adjustments" where
  "learned_adjustments_for p rows = foldl learn_row nothing_learned (filter (is_observation p) rows)"

section \<open>Evaluating a row\<close>

record project_config =
  pc_readiness :: readiness_config
  pc_flaky_checks :: "string list"
  pc_deterministic_checks :: "string list"
  pc_committers :: "string list"
  pc_frequent_contributors :: "string list"
  pc_contributors_cache :: "string list"

definition flake_context_for :: "project_config \<Rightarrow> flake_history \<Rightarrow> pr_row \<Rightarrow> flake_context" where
  "flake_context_for pc history pr = (let (base_failing, analysis) = current_ci_analysis pr in
     \<lparr>fc_flaky_patterns = pc_flaky_checks pc, fc_deterministic_patterns = pc_deterministic_checks pc,
      fc_history = history, fc_base_failing = base_failing, fc_analysis = analysis\<rparr>)"

definition row_ci :: "project_config \<Rightarrow> flake_history \<Rightarrow> pr_row \<Rightarrow> ci_assessment" where
  "row_ci pc history pr = (let ci = classify_ci (flake_context_for pc history pr)
       (map RawDict (current_checks pr)) in
     if pr_ci_checks pr \<noteq> [] \<and> current_checks pr = []
     then ci\<lparr>as_reasons := as_reasons ci @ [''the CI results on file are for an older commit'']\<rparr>
     else ci)"

definition build_readiness_input ::
    "clock \<Rightarrow> project_config \<Rightarrow> string \<Rightarrow> pr_row \<Rightarrow> db \<Rightarrow> readiness_input" where
  "build_readiness_input now pc operator_username pr d = (
     let (findings, review_ran) = open_findings pr d in
     \<lparr>ri_author = pr_author pr,
      ri_operator = operator_username,
      ri_title = pr_title pr,
      ri_is_draft = pr_is_draft pr,
      ri_mergeable = pr_mergeable pr,
      ri_additions = pr_additions pr,
      ri_deletions = pr_deletions pr,
      ri_changed_files = pr_changed_files pr,
      ri_labels = pr_labels pr,
      ri_review_states = pr_review_states pr,
      ri_head_sha = pr_head_sha pr,
      ri_committers = pc_committers pc,
      ri_known_contributors = pc_contributors_cache pc @ pc_frequent_contributors pc,
      ri_is_new_contributor = pr_is_new_contributor pr,
      ri_open_findings = findings,
      ri_review_ran = review_ran,
      ri_test_verdict = latest_test_verdict pr d,
      ri_days_since_update = map_option (\<lambda>t. of_int (now_ts now - t) / 86400) (pr_github_updated_at pr),
      ri_ci = row_ci pc (check_history_for (pr_project pr) (db_history d)) pr,
      ri_dismissed_sha = pr_readiness_dismissed_sha pr,
      ri_learned = learned_adjustments_for (pr_project pr) (db_feedback d)\<rparr>)"

definition strs :: "string list \<Rightarrow> json" where
  "strs xs = JList (map JStr xs)"

definition to_detail :: "clock \<Rightarrow> merge_readiness \<Rightarrow> jdict" where
  "to_detail now r = [
     (''reasons'', strs (mr_reasons r)),
     (''blockers'', strs (mr_blockers r)),
     (''breakdown'', JObj (map (\<lambda>(k, v). (k, JFloat v)) (mr_breakdown r))),
     (''ci'', JObj (assessment_to_dict (mr_ci r))),
     (''approvers'', strs (mr_approvers r)),
     (''stale_approvers'', strs (mr_stale_approvers r)),
     (''changes_requested_by'', strs (mr_changes_requested_by r)),
     (''evaluated_at'', JStr (now_iso now))]"

definition refresh_merge_readiness ::
    "clock \<Rightarrow> project_config \<Rightarrow> string \<Rightarrow> db \<Rightarrow> pr_row \<Rightarrow> merge_readiness \<times> pr_row" where
  "refresh_merge_readiness now pc operator_username d pr = (
     let readiness = evaluate_merge_readiness (pc_readiness pc)
           (build_readiness_input now pc operator_username pr d)
     in (readiness, pr\<lparr>pr_readiness_score := mr_score readiness,
          pr_readiness_verdict := mr_verdict readiness,
          pr_readiness_detail := to_detail now readiness\<rparr>))"

definition clear_merge_readiness :: "pr_row \<Rightarrow> pr_row" where
  "clear_merge_readiness pr = (if pr_readiness_verdict pr = [] \<and> pr_readiness_detail pr = [] then pr
     else pr\<lparr>pr_readiness_verdict := VERDICT_NOT_READY, pr_readiness_score := 0, pr_readiness_detail := []\<rparr>)"

section \<open>The operator's verdict\<close>

definition VERDICT_TO_ACTION :: "(string \<times> string) list" where
  "VERDICT_TO_ACTION = [(''lgtm'', ''lgtm_pr''), (''merged'', ''merge_pr''),
     (''not-ready'', ''dismiss_merge_candidate''), (''rebase-requested'', ''request_rebase'')]"

definition strip_set :: "string \<Rightarrow> string \<Rightarrow> string" where
  "strip_set cs s = rev (dropWhile (\<lambda>c. c \<in> set cs) (rev (dropWhile (\<lambda>c. c \<in> set cs) s)))"

definition stored_ci :: "pr_row \<Rightarrow> ci_assessment option" where
  "stored_ci pr = (case jget (pr_readiness_detail pr) ''ci'' of
     JObj m \<Rightarrow> assessment_from_dict m | _ \<Rightarrow> Some empty_assessment)"

definition feedback_features :: "pr_row \<Rightarrow> ci_assessment \<Rightarrow> jdict" where
  "feedback_features pr ci = [
     (''tokens'', strs (feature_tokens (pr_author pr) (pr_labels pr) (pr_changed_files pr)
        (pr_additions pr) (pr_deletions pr))),
     (''failing_checks'', strs (as_failing ci)),
     (''ci_status'', JStr (as_status ci)),
     (''approvers'', strs (str_list (jget (pr_readiness_detail pr) ''approvers''))),
     (''readiness_score'', JFloat (pr_readiness_score pr)),
     (''is_new_contributor'', JBool (pr_is_new_contributor pr))]"

definition count_approved :: "review_states \<Rightarrow> int" where
  "count_approved sts = int (length (filter (\<lambda>(_, s). map_of s ''state'' = Some ''APPROVED'') sts))"

record feedback_args =
  fa_verdict :: string
  fa_reason_code :: string
  fa_reason_text :: string
  fa_operator :: string

definition log_feedback :: "pr_row \<Rightarrow> feedback_args \<Rightarrow> ci_assessment \<Rightarrow> db \<Rightarrow> db" where
  "log_feedback pr fa ci d = d\<lparr>
     db_feedback := db_feedback d @ [\<lparr>fb_pull_request = pr_pk pr, fb_project = pr_project pr,
       fb_verdict = fa_verdict fa, fb_reason_code = fa_reason_code fa, fb_reason_text = fa_reason_text fa,
       fb_head_sha = pr_head_sha pr, fb_features = feedback_features pr ci\<rparr>],
     db_actions := db_actions d @ [\<lparr>
       oa_action_type = dict_get ''dismiss_merge_candidate'' VERDICT_TO_ACTION (fa_verdict fa),
       oa_pull_request = pr_pk pr,
       oa_notes = (if fa_reason_code fa \<noteq> [] \<or> fa_reason_text fa \<noteq> []
         then strip_set '': '' (fa_reason_code fa @ '': '' @ fa_reason_text fa) else '''')\<rparr>]\<rparr>"

definition apply_feedback ::
    "clock \<Rightarrow> feedback_args \<Rightarrow> ci_assessment \<Rightarrow> pr_row \<times> db \<Rightarrow> pr_row \<times> db" where
  "apply_feedback now fa ci st = (case st of (pr, d) \<Rightarrow>
     if fa_verdict fa = ''not-ready'' then
       (pr\<lparr>pr_readiness_dismissed_sha := pr_head_sha pr\<rparr>,
        if fa_reason_code fa = ''not-a-flake''
        then d\<lparr>db_history := foldl (\<lambda>h n. bump_real (now_ts now) (pr_project pr) n h) (db_history d) (as_failing ci)\<rparr>
        else d)
     else if fa_verdict fa = ''lgtm'' \<and> fa_operator fa \<noteq> [] then
       (let states = AList.update (fa_operator fa) [(''state'', ''APPROVED''),
              (''commit_id'', pr_head_sha pr), (''submitted_at'', now_iso now)] (pr_review_states pr)
        in (pr\<lparr>pr_review_states := states, pr_approval_count := count_approved states\<rparr>, d))
     else if fa_verdict fa = ''rebase-requested'' then
       (pr\<lparr>pr_rebase_requested_sha := pr_head_sha pr, pr_rebase_requested_at := Some (now_ts now),
          pr_rebase_requested_checks := as_failing ci\<rparr>, d)
     else (pr, d))"

text \<open>\<open>None\<close>: reading the stored CI assessment raised, before anything was written.\<close>

definition record_merge_feedback ::
    "clock \<Rightarrow> feedback_args \<Rightarrow> pr_row \<times> db \<Rightarrow> (pr_row \<times> db) option" where
  "record_merge_feedback now fa st = (case st of (pr, d) \<Rightarrow>
     map_option (\<lambda>ci. apply_feedback now fa ci (pr, log_feedback pr fa ci d)) (stored_ci pr))"

section \<open>What a requested rebase teaches\<close>

definition check_by_name :: "ci_check list \<Rightarrow> string \<Rightarrow> ci_check option" where
  "check_by_name checks n = map_of (rev (map (\<lambda>c. (chk_name c, c)) checks)) n"

definition answered :: "(ci_check \<Rightarrow> bool) \<Rightarrow> ci_check list \<Rightarrow> string \<Rightarrow> bool" where
  "answered P checks n = (case check_by_name checks n of None \<Rightarrow> False | Some c \<Rightarrow> P c)"

definition note_rebase_outcome ::
    "clock \<Rightarrow> ci_check list \<Rightarrow> pr_row \<times> db \<Rightarrow> pr_row \<times> db" where
  "note_rebase_outcome now checks st = (case st of (pr, d) \<Rightarrow>
     if pr_rebase_requested_sha pr = [] \<or> pr_rebase_requested_sha pr = pr_head_sha pr then (pr, d)
     else if pr_ci_checks_sha pr \<noteq> pr_head_sha pr then (pr, d)
     else (let asked = pr_rebase_requested_checks pr; p = pr_project pr;
       unanswered = filter (answered chk_running checks) asked;
       flaky_now = filter (answered (\<lambda>c. \<not> chk_running c \<and> chk_passed c) checks) asked;
       real_now = filter (answered (\<lambda>c. \<not> chk_running c \<and> \<not> chk_passed c \<and> chk_failed c) checks) asked in
     if unanswered \<noteq> [] then (pr, d)
     else (pr\<lparr>pr_rebase_requested_sha := '''', pr_rebase_requested_at := None, pr_rebase_requested_checks := []\<rparr>,
           d\<lparr>db_history := foldl (\<lambda>h n. bump_real (now_ts now) p n h)
               (foldl (\<lambda>h n. bump_flaky p n h) (db_history d) flaky_now) real_now\<rparr>)))"

section \<open>Forge to row\<close>

text \<open>How a forge call ends: with data, not implemented by this forge, or failed.\<close>

datatype 'a fetch = Fetched 'a | NotImplemented | Failed

definition check_to_dict :: "ci_check \<Rightarrow> jdict" where
  "check_to_dict c = [(''name'', JStr (chk_name c)), (''status'', JStr (chk_status c)),
     (''conclusion'', JStr (chk_conclusion c)), (''url'', JStr (chk_url c))]"

definition refresh_checks :: "clock \<Rightarrow> jdict list fetch \<Rightarrow> pr_row \<times> db \<Rightarrow> pr_row \<times> db" where
  "refresh_checks now fetched st = (case st of (pr, d) \<Rightarrow>
     case fetched of
       NotImplemented \<Rightarrow> (pr, d)
     | Failed \<Rightarrow> (if pr_ci_checks_sha pr \<noteq> pr_head_sha pr then (pr\<lparr>pr_ci_status := ''''\<rparr>, d) else (pr, d))
     | Fetched raw \<Rightarrow> (let checks = parse_checks raw in
         note_rebase_outcome now checks
           (pr\<lparr>pr_ci_checks := map (\<lambda>c. JObj (check_to_dict c)) checks, pr_ci_checks_sha := pr_head_sha pr,
              pr_ci_status := summarize_ci_status checks\<rparr>, d)))"

definition refresh_review_and_ci_state ::
    "clock \<Rightarrow> jdict list fetch \<Rightarrow> jdict list fetch \<Rightarrow> pr_row \<times> db \<Rightarrow> jdict list option \<times> pr_row \<times> db" where
  "refresh_review_and_ci_state now reviews checks st = (case st of (pr, d) \<Rightarrow>
     case reviews of
       NotImplemented \<Rightarrow> (None, pr, d)
     | Failed \<Rightarrow> (None, if pr_head_sha pr = [] then (pr, d) else refresh_checks now checks (pr, d))
     | Fetched raw \<Rightarrow>
         (let states = normalize_reviews raw (pr_author pr);
              pr1 = pr\<lparr>pr_review_states := states, pr_approval_count := count_approved states\<rparr>
          in (Some raw, if pr_head_sha pr = [] then (pr1, d) else refresh_checks now checks (pr1, d))))"


section \<open>The store keeps its invariant\<close>

definition ok_history :: "history_row list \<Rightarrow> bool" where
  "ok_history h \<longleftrightarrow> unique_history h \<and> good_rows h"

definition good_db :: "db \<Rightarrow> bool" where
  "good_db d \<longleftrightarrow> ok_history (db_history d)"

lemma ok_bumps [simp]:
  "ok_history h \<Longrightarrow> ok_history (bump_flaky p n h)" "ok_history h \<Longrightarrow> ok_history (bump_real now p n h)"
  by (simp_all add: ok_history_def unique_bumps good_bumps)

lemma ok_fold_bumps [simp]:
  "ok_history h \<Longrightarrow> ok_history (foldl (\<lambda>h n. bump_flaky p n h) h ns)"
  "ok_history h \<Longrightarrow> ok_history (foldl (\<lambda>h n. bump_real now p n h) h ns)"
  by (induction ns arbitrary: h) simp_all

lemma log_feedback_frame [simp]:
  "db_history (log_feedback pr fa ci d) = db_history d" "db_drafts (log_feedback pr fa ci d) = db_drafts d"
  "db_test_runs (log_feedback pr fa ci d) = db_test_runs d"
  by (simp_all add: log_feedback_def)

lemma apply_feedback_history:
  "db_history (snd (apply_feedback now fa ci (pr, d))) =
     (if fa_verdict fa = ''not-ready'' \<and> fa_reason_code fa = ''not-a-flake''
      then foldl (\<lambda>h n. bump_real (now_ts now) (pr_project pr) n h) (db_history d) (as_failing ci)
      else db_history d)"
  by (simp add: apply_feedback_def Let_def)

lemma record_history:
  "record_merge_feedback now fa (pr, d) = Some (pr', d') \<Longrightarrow> \<exists>ci. stored_ci pr = Some ci \<and> db_history d' =
     (if fa_verdict fa = ''not-ready'' \<and> fa_reason_code fa = ''not-a-flake''
      then foldl (\<lambda>h n. bump_real (now_ts now) (pr_project pr) n h) (db_history d) (as_failing ci)
      else db_history d)"
proof -
  assume r: "record_merge_feedback now fa (pr, d) = Some (pr', d')"
  then obtain ci where ci: "stored_ci pr = Some ci"
    and e: "apply_feedback now fa ci (pr, log_feedback pr fa ci d) = (pr', d')"
    by (auto simp: record_merge_feedback_def)
  from ci show ?thesis
    using apply_feedback_history [of now fa ci pr "log_feedback pr fa ci d"] by (simp add: e)
qed

lemma record_good:
  "record_merge_feedback now fa (pr, d) = Some (pr', d') \<Longrightarrow> good_db d \<Longrightarrow> good_db d'"
  by (drule record_history) (clarsimp simp: good_db_def)

lemma note_rebase_history:
  "good_db d \<Longrightarrow> good_db (snd (note_rebase_outcome now checks (pr, d)))"
  by (simp add: note_rebase_outcome_def good_db_def Let_def)

lemma refresh_checks_good: "good_db d \<Longrightarrow> good_db (snd (refresh_checks now fc (pr, d)))"
  by (simp add: refresh_checks_def note_rebase_history Let_def split: fetch.split)

lemma refresh_review_good:
  "good_db d \<Longrightarrow> good_db (snd (snd (refresh_review_and_ci_state now fr fc (pr, d))))"
  by (simp add: refresh_review_and_ci_state_def refresh_checks_good Let_def split: fetch.split)

section \<open>Counting verdicts\<close>

lemma record_counts:
  assumes "record_merge_feedback now fa (pr, d) = Some (pr', d')"
    and "fa_verdict fa = ''not-ready''" "fa_reason_code fa = ''not-a-flake''" "stored_ci pr = Some ci"
  shows "history_counts (pr_project pr) (db_history d') n =
    (fst (history_counts (pr_project pr) (db_history d) n),
     snd (history_counts (pr_project pr) (db_history d) n) + int (count_list (as_failing ci) n))"
  using record_history [OF assms(1)] assms(2-) by (auto simp: hist.counts_fold_real)

definition said :: "nat \<Rightarrow> string \<Rightarrow> feedback_row \<Rightarrow> bool" where
  "said p code fb \<longleftrightarrow> fb_project fb = p \<and> fb_verdict fb = ''not-ready'' \<and> fb_reason_code fb = code"

lemma learn_row_counts:
  "dict_get 0 (la_reason_counts (learn_row la fb)) code = dict_get 0 (la_reason_counts la) code
     + (if fb_verdict fb = ''not-ready'' \<and> fb_reason_code fb = code \<and> code \<noteq> [] then 1 else 0)"
  by (auto simp: learn_row_def Let_def split: option.splits)

lemma learn_fold_counts:
  "code \<noteq> [] \<Longrightarrow> dict_get 0 (la_reason_counts (foldl learn_row la rows)) code
     = dict_get 0 (la_reason_counts la) code
       + int (length (filter (\<lambda>fb. fb_verdict fb = ''not-ready'' \<and> fb_reason_code fb = code) rows))"
  by (induction rows arbitrary: la) (auto simp: learn_row_counts)

lemma learned_reason_count:
  "code \<noteq> [] \<Longrightarrow> dict_get 0 (la_reason_counts (learned_adjustments_for p rows)) code
     = int (length (filter (said p code) rows))"
proof -
  assume c: "code \<noteq> []"
  have "filter (\<lambda>fb. fb_verdict fb = ''not-ready'' \<and> fb_reason_code fb = code) (filter (is_observation p) rows)
      = filter (said p code) rows"
    by (induction rows) (auto simp: said_def is_observation_def)
  with c show ?thesis
    by (simp add: learned_adjustments_for_def learn_fold_counts nothing_learned_def)
qed

lemma blocker_reasonsI:
  "map_of LEARNED_BLOCKER_GAPS code \<noteq> None \<Longrightarrow> 3 \<le> dict_get 0 (la_reason_counts la) code
     \<Longrightarrow> code \<in> set (blocker_reasons la)"
  by (force simp: blocker_reasons_def dict_get_def split: option.splits dest: map_of_SomeD)

lemma row_ci_status: "as_status (row_ci pc history pr)
    = as_status (classify_ci (flake_context_for pc history pr) (map RawDict (current_checks pr)))"
  by (simp add: row_ci_def Let_def)

lemma row_ci_wrong_head: "pr_ci_checks_sha pr \<noteq> pr_head_sha pr \<Longrightarrow> as_status (row_ci pc history pr) = CI_UNKNOWN"
  by (simp add: row_ci_status current_checks_def classify_ci_def)

lemma build_input_simps [simp]:
  "ri_ci (build_readiness_input now pc op pr d) = row_ci pc (check_history_for (pr_project pr) (db_history d)) pr"
  "ri_learned (build_readiness_input now pc op pr d) = learned_adjustments_for (pr_project pr) (db_feedback d)"
  "ri_dismissed_sha (build_readiness_input now pc op pr d) = pr_readiness_dismissed_sha pr"
  "ri_head_sha (build_readiness_input now pc op pr d) = pr_head_sha pr"
  "ri_changed_files (build_readiness_input now pc op pr d) = pr_changed_files pr"
  "ri_review_states (build_readiness_input now pc op pr d) = pr_review_states pr"
  "ri_operator (build_readiness_input now pc op pr d) = op"
  "ri_committers (build_readiness_input now pc op pr d) = pc_committers pc"
  by (simp_all add: build_readiness_input_def split: prod.splits)

lemma refresh_listed:
  "listed (fst (refresh_merge_readiness now pc op d pr)) \<Longrightarrow>
     clear_to_merge (pc_readiness pc) (build_readiness_input now pc op pr d)"
  using evaluate_listed by (simp add: refresh_merge_readiness_def Let_def)

lemma flake_confidence_real:
  assumes "map_of (fc_analysis fc) (chk_name c) = None"
    and "dict_get (0, 0) (fc_history fc) (chk_name c) = (0, r)" "3 \<le> r"
  shows "fst (flake_confidence fc c) < FLAKE_THRESHOLD"
proof -
  obtain p w where p: "(if chk_name c \<in> set (fc_base_failing fc) then (BASE_FAILING_PRIOR, base_note)
      else name_prior fc c) = (p, w)" by fastforce
  have "0 \<le> p \<and> p \<le> 9/10"
    using p by (auto simp: prior_defs name_prior_def CONCLUSION_FLAKE_PRIOR_def split: if_splits option.splits)
  moreover have "analysis_override fc c = None" using assms(1) by (simp add: analysis_override_def)
  ultimately show ?thesis
    using assms(2,3) p blend_three_real [of p r] by (simp add: flake_confidence_def)
qed


section \<open>Sample rows, for the witnesses\<close>

definition sample_config :: project_config where
  "sample_config = \<lparr>pc_readiness = \<lparr>rc_ready_threshold = 1/2, rc_max_diff_lines = 2000, rc_stale_after_days = 90,
       rc_require_ci = True, rc_require_committer_approval = False\<rparr>,
     pc_flaky_checks = [''unit''], pc_deterministic_checks = DEFAULT_DETERMINISTIC_CHECKS,
     pc_committers = [], pc_frequent_contributors = [], pc_contributors_cache = []\<rparr>"

definition not_ready :: "string \<Rightarrow> feedback_args" where
  "not_ready code = \<lparr>fa_verdict = ''not-ready'', fa_reason_code = code, fa_reason_text = '''', fa_operator = ''''\<rparr>"

section \<open>Properties\<close>

text \<open>Dismissing a series of candidates with "the CI failure is real".\<close>

fun dismiss_each :: "clock \<Rightarrow> pr_row list \<Rightarrow> db \<Rightarrow> db option" where
  "dismiss_each now [] d = Some d"
| "dismiss_each now (pr # prs) d =
     (case record_merge_feedback now (not_ready ''not-a-flake'') (pr, d) of
        None \<Rightarrow> None | Some (_, d') \<Rightarrow> dismiss_each now prs d')"

definition blames :: "nat \<Rightarrow> string \<Rightarrow> pr_row \<Rightarrow> bool" where
  "blames p n pr \<longleftrightarrow> pr_project pr = p \<and> (case stored_ci pr of None \<Rightarrow> False | Some ci \<Rightarrow> n \<in> set (as_failing ci))"

lemma count_list_pos: "x \<in> set xs \<Longrightarrow> 1 \<le> count_list xs x"
  using count_list_0_iff [of xs x] by linarith

lemma dismiss_each_counts:
  "dismiss_each now prs d = Some d' \<Longrightarrow> list_all (blames p n) prs \<Longrightarrow>
     fst (history_counts p (db_history d') n) = fst (history_counts p (db_history d) n)
     \<and> snd (history_counts p (db_history d) n) + int (length prs) \<le> snd (history_counts p (db_history d') n)"
proof (induction prs arbitrary: d)
  case (Cons pr prs)
  from Cons.prems obtain ci where ci: "stored_ci pr = Some ci" "n \<in> set (as_failing ci)" "pr_project pr = p"
    by (auto simp: blames_def split: option.splits)
  from Cons.prems(1) obtain pr1 d1 where r: "record_merge_feedback now (not_ready ''not-a-flake'') (pr, d) = Some (pr1, d1)"
    and rest: "dismiss_each now prs d1 = Some d'"
    by (auto split: option.splits)
  have "history_counts p (db_history d1) n = (fst (history_counts p (db_history d) n),
      snd (history_counts p (db_history d) n) + int (count_list (as_failing ci) n))"
    using record_counts [OF r _ _ ci(1)] ci(3) by (simp add: not_ready_def)
  moreover have "1 \<le> int (count_list (as_failing ci) n)" using count_list_pos [OF ci(2)] by linarith
  moreover have "list_all (blames p n) prs" using Cons.prems(2) by simp
  ultimately show ?case using Cons.IH [OF rest] by auto
qed simp

text \<open>
  The operator's word beats every name-based prior. After she has dismissed three or more
  candidates because a check's failure was real, and nothing has ever shown that check to
  flake, a later PR of the project on which that check fails is classified red, even if the
  check is configured as flaky or also fails on the base branch. (The later PR's failing
  checks have distinct names and the check has no LLM verdict.)
\<close>

theorem real_failures_overrule:
  assumes "dismiss_each now prs d = Some d'" "list_all (blames p n) prs" "3 \<le> length prs"
    and "history_counts p (db_history d) n = (0, 0)"
    and "pr_project pr = p" "map_of (snd (current_ci_analysis pr)) n = None"
    and "distinct (map chk_name (filter chk_failed (parse_checks (current_checks pr))))"
    and "c \<in> set (parse_checks (current_checks pr))" "chk_name c = n" "chk_failed c"
  shows "as_status (row_ci pc (check_history_for p (db_history d')) pr) = CI_RED"
proof -
  let ?fc = "flake_context_for pc (check_history_for p (db_history d')) pr"
  obtain r where r: "history_counts p (db_history d') n = (0, r)" "3 \<le> r"
    using dismiss_each_counts [OF assms(1,2)] assms(3,4)
    by (cases "history_counts p (db_history d') n") auto
  have "fst (flake_confidence ?fc c) < FLAKE_THRESHOLD"
    using r assms(6,9)
    by (intro flake_confidence_real [where r = r])
       (auto simp: flake_context_for_def history_counts_def split: prod.splits)
  then have "\<not> all_flaky ?fc (filter chk_failed (parse_checks (current_checks pr)))"
    using all_flaky_distinct [OF assms(7), of ?fc] assms(8,10) by auto
  then show ?thesis
    using assms(8,10) by (auto simp: row_ci_status classify_status Let_def filter_empty_conv)
qed

theorem real_failures_overrule_witness:
  "\<exists>d'. dismiss_each sample_clock [sample_pr, sample_pr, sample_pr] empty_db = Some d'
     \<and> as_status (row_ci sample_config (check_history_for 7 (db_history d')) sample_pr) = CI_RED
     \<and> as_status (row_ci sample_config [] sample_pr) = CI_FLAKY"
proof -
  let ?prs = "[sample_pr, sample_pr, sample_pr]"
  have some: "dismiss_each sample_clock ?prs empty_db \<noteq> None" by code_simp
  then obtain d' where d': "dismiss_each sample_clock ?prs empty_db = Some d'" by auto
  have b: "list_all (blames 7 ''unit'') ?prs" by code_simp
  have l: "3 \<le> length ?prs" by simp
  have h: "history_counts 7 (db_history empty_db) ''unit'' = (0, 0)" by code_simp
  have p: "pr_project sample_pr = 7" "map_of (snd (current_ci_analysis sample_pr)) ''unit'' = None"
    "distinct (map chk_name (filter chk_failed (parse_checks (current_checks sample_pr))))"
    by code_simp+
  let ?c = "hd (parse_checks (current_checks sample_pr))"
  have c: "?c \<in> set (parse_checks (current_checks sample_pr))" "chk_name ?c = ''unit''" "chk_failed ?c"
    by code_simp+
  have "as_status (row_ci sample_config [] sample_pr) = CI_FLAKY" by code_simp
  with d' real_failures_overrule [OF d' b l h p c, of sample_config] show ?thesis by auto
qed

text \<open>
  A dismissal parks the candidate at its commit. Whatever else changes on the row or in
  the project, a PR that still has the head it was dismissed at is not listed.
\<close>

theorem dismissal_parks:
  assumes "record_merge_feedback now (not_ready code) (pr, d) = Some (pr', d')" "pr_head_sha pr \<noteq> []"
    and "pr_head_sha later = pr_head_sha pr'"
    and "pr_readiness_dismissed_sha later = pr_readiness_dismissed_sha pr'"
  shows "\<not> listed (fst (refresh_merge_readiness now2 pc op d2 later))"
proof -
  have "pr_readiness_dismissed_sha pr' = pr_head_sha pr \<and> pr_head_sha pr' = pr_head_sha pr"
    using assms(1) by (auto simp: record_merge_feedback_def apply_feedback_def not_ready_def)
  with assms(2-4) have "\<not> clear_to_merge (pc_readiness pc) (build_readiness_input now2 pc op later d2)"
    by (simp add: clear_to_merge_def code_clear_def)
  then show ?thesis using refresh_listed by blast
qed

theorem dismissal_parks_witness:
  "\<not> listed (fst (refresh_merge_readiness sample_clock sample_config ''op'' empty_db
     (sample_pr\<lparr>pr_readiness_dismissed_sha := ''h1'', pr_mergeable := None\<rparr>)))"
proof -
  define r where "r = the (record_merge_feedback sample_clock (not_ready ''design'') (sample_pr, empty_db))"
  have "record_merge_feedback sample_clock (not_ready ''design'') (sample_pr, empty_db) \<noteq> None" by code_simp
  then have r: "record_merge_feedback sample_clock (not_ready ''design'') (sample_pr, empty_db) = Some (fst r, snd r)"
    by (auto simp: r_def)
  have f: "pr_readiness_dismissed_sha (fst r) = ''h1''" "pr_head_sha (fst r) = ''h1''"
    unfolding r_def by code_simp+
  have "pr_head_sha sample_pr \<noteq> []" by code_simp
  then show ?thesis
    by (rule dismissal_parks [OF r]) (simp_all add: f, simp add: sample_pr_def)
qed

text \<open>
  C37: A recurring reason becomes a rule. Once three candidates of a project have been sent
  back for \<open>needs-tests\<close>, no PR of that project without test changes is listed, whatever its
  score.
\<close>

theorem recurring_reason_blocks:
  assumes "3 \<le> length (filter (said (pr_project pr) ''needs-tests'') (db_feedback d))"
    and "\<not> touches_tests (pr_changed_files pr)"
  shows "\<not> listed (fst (refresh_merge_readiness now pc op d pr))"
proof -
  have "''needs-tests'' \<in> set (blocker_reasons (learned_adjustments_for (pr_project pr) (db_feedback d)))"
    using assms(1) by (intro blocker_reasonsI) (simp_all add: learned_reason_count LEARNED_BLOCKER_GAPS_def)
  with assms(2) have "\<not> clear_to_merge (pc_readiness pc) (build_readiness_input now pc op pr d)"
    by (simp add: clear_to_merge_def learned_clear_def Let_def)
  then show ?thesis using refresh_listed by blast
qed

definition sample_feedback :: feedback_row where
  "sample_feedback = \<lparr>fb_pull_request = 1, fb_project = 7, fb_verdict = ''not-ready'',
     fb_reason_code = ''needs-tests'', fb_reason_text = '''', fb_head_sha = ''h0'', fb_features = []\<rparr>"

theorem recurring_reason_blocks_witness:
  "\<not> listed (fst (refresh_merge_readiness sample_clock sample_config ''op''
     (empty_db\<lparr>db_feedback := [sample_feedback, sample_feedback, sample_feedback]\<rparr>) sample_pr))"
  by (rule recurring_reason_blocks; code_simp)

text \<open>
  Results of an older commit never vouch for the current head: when the stored checks
  belong to another commit the CI assessment is unknown, and a project that requires CI does
  not list the PR.
\<close>

theorem old_checks_never_vouch:
  assumes "pr_ci_checks_sha pr \<noteq> pr_head_sha pr"
  shows "as_status (row_ci pc history pr) = CI_UNKNOWN
    \<and> \<not> (rc_require_ci (pc_readiness pc) \<and> listed (fst (refresh_merge_readiness now pc op d pr)))"
proof -
  have u: "as_status (row_ci pc h pr) = CI_UNKNOWN" for h using assms by (rule row_ci_wrong_head)
  then have "rc_require_ci (pc_readiness pc) \<Longrightarrow>
      \<not> clear_to_merge (pc_readiness pc) (build_readiness_input now pc op pr d)"
    by (simp add: clear_to_merge_def ci_acceptable_def Let_def)
  with u show ?thesis using refresh_listed by blast
qed

theorem old_checks_never_vouch_witness:
  "as_status (row_ci sample_config [] (sample_pr\<lparr>pr_head_sha := ''h2''\<rparr>)) = CI_UNKNOWN"
proof -
  have "pr_ci_checks_sha (sample_pr\<lparr>pr_head_sha := ''h2''\<rparr>) \<noteq> pr_head_sha (sample_pr\<lparr>pr_head_sha := ''h2''\<rparr>)"
    by code_simp
  from old_checks_never_vouch [OF this] show ?thesis by blast
qed



text \<open>
  The history table stays a table of counts: no call of the learning code breaks the
  uniqueness of a project's check names or makes a count negative.
\<close>

theorem history_invariant:
  assumes "good_db d"
  shows "good_db (snd (snd (refresh_review_and_ci_state now reviews checks (pr, d))))
    \<and> (case record_merge_feedback now fa (pr, d) of None \<Rightarrow> True | Some (_, d') \<Rightarrow> good_db d')"
  using assms by (auto simp: refresh_review_good split: option.split dest: record_good)

theorem history_invariant_witness:
  "good_db (snd (snd (refresh_review_and_ci_state sample_clock NotImplemented Failed (sample_pr, empty_db))))"
proof -
  have "good_db empty_db" by code_simp
  from history_invariant [OF this] show ?thesis by blast
qed

text \<open>
  Verdicts can always be recorded on an evaluated row: after an evaluation, reading the
  stored assessment back cannot raise, and it names exactly the checks that were failing.
\<close>

theorem feedback_after_refresh:
  "case stored_ci (snd (refresh_merge_readiness now pc op d pr)) of
     None \<Rightarrow> False
   | Some ci \<Rightarrow> as_failing ci = map chk_name (filter chk_failed (parse_checks (current_checks pr)))
       \<and> as_status ci = as_status (row_ci pc (check_history_for (pr_project pr) (db_history d)) pr)"
proof -
  let ?ci = "row_ci pc (check_history_for (pr_project pr) (db_history d)) pr"
  have ne: "as_status ?ci \<noteq> []" by (simp add: row_ci_status classify_status Let_def)
  have "jget (pr_readiness_detail (snd (refresh_merge_readiness now pc op d pr))) ''ci''
      = JObj (assessment_to_dict ?ci)"
    by (simp add: refresh_merge_readiness_def Let_def to_detail_def jget_def dict_get_def evaluate_ci)
  then have "stored_ci (snd (refresh_merge_readiness now pc op d pr)) =
      Some (?ci\<lparr>as_flake_conf := map (\<lambda>(k, v). (k, py_round_to 2 v)) (as_flake_conf ?ci)\<rparr>)"
    using assessment_roundtrip [OF ne] by (simp add: stored_ci_def)
  then show ?thesis by (simp add: row_ci_def Let_def classify_failing)
qed

section \<open>A surprising behaviour\<close>

text \<open>
  An asked-about check that ends without a usable conclusion (here \<open>stale\<close>) has not answered,
  but it does not keep the request open: the request is closed and nothing is recorded.
\<close>

definition asked_pr :: pr_row where
  "asked_pr = sample_pr\<lparr>pr_rebase_requested_sha := ''h0'', pr_rebase_requested_checks := [''unit'']\<rparr>"

definition stale_check :: ci_check where
  "stale_check = \<lparr>chk_name = ''unit'', chk_status = ''completed'', chk_conclusion = ''stale'', chk_url = []\<rparr>"

lemma inconclusive_check_forgotten:
  "chk_inconclusive stale_check"
  "pr_rebase_requested_checks asked_pr = [''unit'']"
  "pr_rebase_requested_checks (fst (note_rebase_outcome sample_clock [stale_check] (asked_pr, empty_db))) = []"
  "db_history (snd (note_rebase_outcome sample_clock [stale_check] (asked_pr, empty_db))) = []"
  by code_simp+

end
