(* ===== verification/ReviewFlags.thy ===== *)
theory ReviewFlags
  imports ReadinessStore
begin

text \<open>
  What is told of a PR and of a project beside the queues: the "approved, but something
  critical was found" flag (\<open>review/approved_critical.py\<close>), and the summary of what the
  almost-ready queue has learned (\<open>learned_rules_summary\<close> in \<open>scoring/merge_readiness.py\<close>).
\<close>

section \<open>Approved with a critical finding\<close>

definition FLAG_SEVERITIES :: "string list" where
  "FLAG_SEVERITIES = [''critical'']"

definition approving_committers :: "string list \<Rightarrow> review_states \<Rightarrow> string list" where
  "approving_committers committers states = sort (map fst (filter (\<lambda>(login, review).
     map_of review ''state'' = Some ''APPROVED'' \<and> lower login \<in> set (lowered committers)) states))"

definition live_critical :: "nat \<Rightarrow> draft_row \<Rightarrow> bool" where
  "live_critical pk d \<longleftrightarrow> rd_pull_request d = pk \<and> rd_severity d \<in> set FLAG_SEVERITIES \<and> rd_status d \<noteq> ''rejected''"

definition set_approved_critical :: "bool \<Rightarrow> jdict \<Rightarrow> pr_row \<Rightarrow> pr_row" where
  "set_approved_critical flagged detail pr = pr\<lparr>pr_approved_critical := flagged, pr_approved_critical_detail := detail\<rparr>"

definition update_approved_critical :: "clock \<Rightarrow> string list \<Rightarrow> draft_row list \<Rightarrow> pr_row \<Rightarrow> bool \<times> pr_row" where
  "update_approved_critical now committers drafts pr = (
     let approvers = (if committers = [] then [] else approving_committers committers (pr_review_states pr));
         draft_ids = map rd_pk (filter (live_critical (pr_pk pr)) drafts) in
     if committers \<noteq> [] \<and> approvers \<noteq> [] \<and> draft_ids \<noteq> []
     then (True, set_approved_critical True [(''approvers'', JList (map JStr approvers)),
            (''draft_ids'', JList (map (\<lambda>i. JInt (int i)) draft_ids)), (''at'', JStr (now_iso now))] pr)
     else (False, set_approved_critical False [] pr))"

lemma approvers_empty: "approving_committers committers states = [] \<longleftrightarrow> \<not> list_ex (\<lambda>(login, review).
    map_of review ''state'' = Some ''APPROVED'' \<and> lower login \<in> set (lowered committers)) states"
proof -
  have "sort xs = [] \<longleftrightarrow> xs = []" for xs :: "string list" by (metis set_empty set_sort)
  then show ?thesis by (auto simp: approving_committers_def filter_empty_conv list_ex_iff)
qed

text \<open>
  The flag is set exactly when a committer's approval and a live critical draft are both
  there; it depends on nothing that was stored before (so it clears as readily as it is set,
  and recomputing changes nothing), the row carries the flag that is returned, and its detail
  is empty unless it is set.
\<close>

theorem approved_critical_exact:
  "(case update_approved_critical now committers drafts pr of (flagged, pr') \<Rightarrow>
     (flagged \<longleftrightarrow>
        list_ex (\<lambda>(login, review). map_of review ''state'' = Some ''APPROVED'' \<and> lower login \<in> set (lowered committers)) (pr_review_states pr)
        \<and> list_ex (live_critical (pr_pk pr)) drafts)
     \<and> pr_approved_critical pr' = flagged \<and> (pr_approved_critical_detail pr' = [] \<longleftrightarrow> \<not> flagged))
   \<and> update_approved_critical now committers drafts (snd (update_approved_critical now' committers' drafts' pr))
     = update_approved_critical now committers drafts pr"
proof -
  have e: "list_ex (\<lambda>(login, review). map_of review ''state'' = Some ''APPROVED'' \<and> lower login \<in> set (lowered [])) states = False" for states
    by (simp add: lowered_def list_ex_iff split_def)
  have "fst (update_approved_critical now committers drafts pr) \<longleftrightarrow>
     list_ex (\<lambda>(login, review). map_of review ''state'' = Some ''APPROVED'' \<and> lower login \<in> set (lowered committers)) (pr_review_states pr)
     \<and> list_ex (live_critical (pr_pk pr)) drafts"
    using approvers_empty e by (cases "committers = []") (auto simp: update_approved_critical_def Let_def filter_empty_conv list_ex_iff)
  moreover have "pr_approved_critical (snd (update_approved_critical now committers drafts pr)) = fst (update_approved_critical now committers drafts pr)"
    "(pr_approved_critical_detail (snd (update_approved_critical now committers drafts pr)) = []) = (\<not> fst (update_approved_critical now committers drafts pr))"
    "update_approved_critical now committers drafts (snd (update_approved_critical now' committers' drafts' pr))
     = update_approved_critical now committers drafts pr"
    by (simp_all add: update_approved_critical_def set_approved_critical_def Let_def)
  ultimately show ?thesis by (simp add: split_def)
qed

section \<open>The summary of what was learned\<close>

definition no_context :: "string \<Rightarrow> int \<times> int \<Rightarrow> flake_context" where
  "no_context name counts = \<lparr>fc_flaky_patterns = [], fc_deterministic_patterns = DEFAULT_DETERMINISTIC_CHECKS,
     fc_history = [(name, counts)], fc_base_failing = [], fc_analysis = []\<rparr>"

definition failed_check :: "string \<Rightarrow> ci_check" where
  "failed_check name = \<lparr>chk_name = name, chk_status = ''completed'', chk_conclusion = ''failure'', chk_url = []\<rparr>"

definition history_line :: "history_row \<Rightarrow> string list" where
  "history_line r = (if hr_flaky_count r + hr_real_count r \<le> 0 then []
     else (let (conf, _) = flake_confidence (no_context (hr_check_name r) (hr_flaky_count r, hr_real_count r)) (failed_check (hr_check_name r));
               verdict = (if FLAKE_THRESHOLD \<le> conf then ''probably flaky'' else ''treated as real'') in
       [hr_check_name r @ '': '' @ verdict @ '' ('' @ int_str (hr_flaky_count r) @ '' flake(s), '' @
         int_str (hr_real_count r) @ '' real failure(s) observed).'']))"

definition learned_rules_summary :: "nat \<Rightarrow> db \<Rightarrow> string list" where
  "learned_rules_summary p d = summary_lines (learned_adjustments_for p (db_feedback d)) @
     concat (map history_line (sort_key hr_check_name (filter (\<lambda>r. hr_project r = p) (db_history d))))"

end
