(* ===== verification/MergeQueue.thy ===== *)
theory MergeQueue
  imports DataModel "HOL-Library.Product_Lexorder" "HOL-Library.Option_ord"
begin

text \<open>
  The merge queue (\<open>worker/merge_queue.py\<close>) and its configuration
  (\<open>MergeQueueConfig\<close> in \<open>config/models.py\<close>): eligibility, the merge itself by script or
  API, and the restack of the next PR with its wait for CI.

  Processes, the file system, HTTP and the clock are not part of the program: they are the
  fields of a \<open>host\<close>, functions on a world \<open>'w\<close> of any type, and every step threads the
  world. An exception that the source does not catch is an \<open>Inl\<close>.
\<close>

section \<open>Configuration\<close>

record merge_queue_config =
  mq_required_approvals :: int
  mq_require_ci_pass :: bool
  mq_require_no_conflicts :: bool
  mq_merge_script :: string
  mq_merge_method :: string
  mq_post_merge_restack_enabled :: bool
  mq_restack_enabled :: bool
  mq_restack_target_branch :: string
  mq_migration_globs :: "string list"
  mq_delete_stale_migrations :: bool
  mq_ci_wait_timeout :: int
  mq_ci_poll_interval :: int
  mq_push_force_with_lease :: bool
  mq_restack_commit_scope :: string
  mq_makemigrations_cmd :: "string list"

definition KNOWN_MERGE_METHODS :: "string list" where
  "KNOWN_MERGE_METHODS = [''merge'', ''squash'', ''rebase'']"

definition check_approvals :: "int \<Rightarrow> string + int" where
  "check_approvals v = (if v < 0 then Inl ''required_approvals must be non-negative'' else Inr v)"

definition check_merge_method :: "string \<Rightarrow> string + string" where
  "check_merge_method v = (let m = lower (strip v) in
     if m \<notin> set KNOWN_MERGE_METHODS then Inl (''merge_method must be one of: '' @ join '', '' (sort KNOWN_MERGE_METHODS))
     else Inr m)"

definition check_target_branch :: "string \<Rightarrow> string + string" where
  "check_target_branch v = (let n = strip v in
     if n = [] then Inl ''restack_target_branch must not be empty'' else Inr n)"

definition check_globs :: "string list \<Rightarrow> string + string list" where
  "check_globs v = (let n = map strip (filter (\<lambda>g. strip g \<noteq> []) v) in
     if n = [] then Inl ''migration_globs must contain at least one non-empty glob pattern'' else Inr n)"

definition check_timeout :: "int \<Rightarrow> string + int" where
  "check_timeout v = (if v < 60 \<or> 7200 < v
     then Inl ''ci_wait_timeout_seconds must be between 60 and 7200'' else Inr v)"

definition check_poll :: "int \<Rightarrow> string + int" where
  "check_poll v = (if v < 5 \<or> 300 < v
     then Inl ''ci_poll_interval_seconds must be between 5 and 300'' else Inr v)"

definition normalize_restack_flags :: "merge_queue_config \<Rightarrow> string + merge_queue_config" where
  "normalize_restack_flags c = (
     let c1 = (if mq_post_merge_restack_enabled c then c\<lparr>mq_restack_enabled := True\<rparr> else c);
         c2 = (if \<not> mq_restack_enabled c1 then c1\<lparr>mq_delete_stale_migrations := False\<rparr> else c1) in
     if mq_ci_wait_timeout c2 \<le> mq_ci_poll_interval c2
     then Inl ''ci_poll_interval_seconds must be lower than ci_wait_timeout_seconds'' else Inr c2)"

text \<open>The validators of the fields, in field order, and then the validator of the model.\<close>

definition validate_config :: "merge_queue_config \<Rightarrow> string + merge_queue_config" where
  "validate_config c = (case check_approvals (mq_required_approvals c) of Inl e \<Rightarrow> Inl e | Inr a \<Rightarrow>
     (case check_merge_method (mq_merge_method c) of Inl e \<Rightarrow> Inl e | Inr mm \<Rightarrow>
     (case check_target_branch (mq_restack_target_branch c) of Inl e \<Rightarrow> Inl e | Inr b \<Rightarrow>
     (case check_globs (mq_migration_globs c) of Inl e \<Rightarrow> Inl e | Inr g \<Rightarrow>
     (case check_timeout (mq_ci_wait_timeout c) of Inl e \<Rightarrow> Inl e | Inr t \<Rightarrow>
     (case check_poll (mq_ci_poll_interval c) of Inl e \<Rightarrow> Inl e | Inr p \<Rightarrow>
       normalize_restack_flags (c\<lparr>mq_required_approvals := a, mq_merge_method := mm,
         mq_restack_target_branch := b, mq_migration_globs := g, mq_ci_wait_timeout := t,
         mq_ci_poll_interval := p\<rparr>)))))))"

section \<open>Eligibility\<close>

record merge_eligibility =
  me_eligible :: bool
  me_ci_pass :: bool
  me_approvals_met :: bool
  me_no_conflicts :: bool
  me_details :: "string list"

definition evaluate_merge_eligibility :: "pr_row \<Rightarrow> merge_queue_config \<Rightarrow> merge_eligibility" where
  "evaluate_merge_eligibility pr c = (
     let ci = (if mq_require_ci_pass c then pr_ci_status pr = ''pass'' else True);
         d1 = (if ci then [] else [''CI status: '' @
                (if pr_ci_status pr = [] then ''unknown'' else pr_ci_status pr) @ '' (requires pass)'']);
         ap = (mq_required_approvals c \<le> pr_approval_count pr);
         d2 = (if ap then [] else [''Approvals: '' @ int_str (pr_approval_count pr) @ ''/'' @ int_str (mq_required_approvals c)]);
         nc = (if mq_require_no_conflicts c then pr_mergeable pr = Some True else True);
         d3 = (if nc then [] else [''Merge status: '' @ (if pr_mergeable pr = None then ''unknown'' else ''has conflicts'')])
     in \<lparr>me_eligible = ci \<and> ap \<and> nc, me_ci_pass = ci, me_approvals_met = ap, me_no_conflicts = nc,
         me_details = d1 @ d2 @ d3\<rparr>)"

definition update_merge_eligibility :: "pr_row \<Rightarrow> merge_queue_config \<Rightarrow> merge_eligibility \<times> pr_row" where
  "update_merge_eligibility pr c = (let e = evaluate_merge_eligibility pr c in
     (e, pr\<lparr>pr_merge_queue_eligible := me_eligible e\<rparr>))"

section \<open>The host\<close>

datatype run_outcome = Ran int string string  \<comment> \<open>exit code, stdout, stderr\<close>
  | RunFileNotFound | RunTimeout | RunRaised exn

datatype unlink_outcome = Unlinked | UnlinkMissing | UnlinkError string

record response =
  rp_status :: int
  rp_json :: "exn + json"
  rp_text :: string

datatype client = NoClient | OtherClient | GitHub

record 'w host =
  h_run :: "string option \<Rightarrow> string list \<Rightarrow> 'w \<Rightarrow> run_outcome \<times> 'w"  \<comment> \<open>working directory and command\<close>
  h_unlink :: "string \<Rightarrow> string \<Rightarrow> 'w \<Rightarrow> unlink_outcome \<times> 'w"  \<comment> \<open>directory and path in it\<close>
  h_inside :: "string \<Rightarrow> string \<Rightarrow> 'w \<Rightarrow> bool"
  h_get :: "string \<Rightarrow> 'w \<Rightarrow> (exn + response) \<times> 'w"
  h_put :: "string \<Rightarrow> jdict \<Rightarrow> 'w \<Rightarrow> (exn + response) \<times> 'w"
  h_time :: "'w \<Rightarrow> int"
  h_sleep :: "int \<Rightarrow> 'w \<Rightarrow> 'w"
  h_now :: "'w \<Rightarrow> int"

section \<open>Merging\<close>

record merge_result =
  ms_success :: bool
  ms_method :: string
  ms_output :: string
  ms_error :: string
  ms_ci_wait_state :: string
  ms_ci_wait_reason :: string

definition merge_ok :: "string \<Rightarrow> string \<Rightarrow> merge_result" where
  "merge_ok method output = \<lparr>ms_success = True, ms_method = method, ms_output = output, ms_error = '''',
     ms_ci_wait_state = '''', ms_ci_wait_reason = ''''\<rparr>"

definition merge_failed :: "string \<Rightarrow> string \<Rightarrow> merge_result" where
  "merge_failed method err = \<lparr>ms_success = False, ms_method = method, ms_output = '''', ms_error = err,
     ms_ci_wait_state = '''', ms_ci_wait_reason = ''''\<rparr>"

definition execute_merge_script ::
    "'w host \<Rightarrow> string \<Rightarrow> pr_row \<Rightarrow> string \<Rightarrow> 'w \<Rightarrow> (exn + merge_result) \<times> 'w" where
  "execute_merge_script h full_name pr script w = (
     let (out, w1) = h_run h None [script, int_str (pr_number pr), full_name] w in
     (case out of
        Ran rc stdout stderr \<Rightarrow>
          if rc = 0 then Inr (merge_ok ''script'' stdout)
          else Inr (merge_failed ''script'' (''Script failed (exit '' @ int_str rc @ ''):'' @ [newline] @ stderr))
      | RunFileNotFound \<Rightarrow> Inr (merge_failed ''script'' (''Merge script not found: '' @ script))
      | RunTimeout \<Rightarrow> Inr (merge_failed ''script'' ''Merge script timed out after 5 minutes'')
      | RunRaised e \<Rightarrow> Inl e, w1))"

fun exn_message :: "exn \<Rightarrow> string" where
  "exn_message (Exn cls msg) = msg"

definition execute_merge_api ::
    "'w host \<Rightarrow> string \<Rightarrow> pr_row \<Rightarrow> merge_queue_config \<Rightarrow> client \<Rightarrow> string \<Rightarrow> 'w \<Rightarrow> merge_result \<times> pr_row \<times> 'w" where
  "execute_merge_api h full_name pr c cl operator_username w = (
     let method = mq_merge_method c in
     if cl \<noteq> GitHub then (merge_failed method ''GitHub client not available (mock mode?)'', pr, w)
     else (let (r, w1) = h_put h (''https://api.github.com/repos/'' @ full_name @ ''/pulls/'' @ int_str (pr_number pr) @ ''/merge'')
             [(''merge_method'', JStr method)] w in
       case r of
         Inl e \<Rightarrow> (merge_failed method (exn_message e), pr, w1)
       | Inr resp \<Rightarrow>
           if rp_status resp = 200 then
             (merge_ok method (''Merged PR #'' @ int_str (pr_number pr) @ '' via '' @ method),
              pr\<lparr>pr_state := ''merged'', pr_merged_at := Some (h_now h w1), pr_merged_by := operator_username\<rparr>, w1)
           else (merge_failed method (''GitHub API returned '' @ int_str (rp_status resp) @ '': '' @ rp_text resp), pr, w1)))"

section \<open>Choosing the next PR\<close>

definition restack_candidate :: "nat \<Rightarrow> pr_row \<Rightarrow> bool" where
  "restack_candidate project_id pr \<longleftrightarrow> pr_project pr = project_id \<and> pr_state pr = ''open'' \<and> pr_merge_queue_eligible pr"

definition queue_key :: "pr_row \<Rightarrow> rat \<times> int option \<times> int" where
  "queue_key pr = (- pr_interest_score pr, pr_github_updated_at pr, pr_number pr)"

definition select_next_pr_to_restack :: "nat \<Rightarrow> pr_row list \<Rightarrow> pr_row option" where
  "select_next_pr_to_restack project_id rows = first_by queue_key (filter (restack_candidate project_id) rows)"

section \<open>Waiting for CI\<close>

definition body_obj :: "response \<Rightarrow> exn + jdict" where
  "body_obj r = bind_sum (rp_json r) as_obj"

definition json_strs :: "json list \<Rightarrow> string list" where
  "json_strs xs = concat (map (\<lambda>x. case x of JStr s \<Rightarrow> [s] | _ \<Rightarrow> []) xs)"

definition read_default_branch :: "string \<Rightarrow> response \<Rightarrow> exn + string" where
  "read_default_branch dflt r = (if rp_status r \<noteq> 200 then Inr dflt
     else bind_sum (body_obj r) (\<lambda>d. Inr (case jget d ''default_branch'' of
       JStr s \<Rightarrow> if s = [] then dflt else s | _ \<Rightarrow> dflt)))"

definition read_required_contexts :: "string list \<Rightarrow> response \<Rightarrow> exn + string list" where
  "read_required_contexts old r = (if rp_status r \<noteq> 200 then Inr old
     else bind_sum (body_obj r) (\<lambda>d.
       bind_sum (as_obj (jor (jget d ''protection'') (JObj []))) (\<lambda>protection.
       bind_sum (as_obj (jor (jget protection ''required_status_checks'') (JObj []))) (\<lambda>required.
       bind_sum (iter_json (jor (jget required ''contexts'') (JList []))) (\<lambda>contexts.
         Inr (json_strs contexts))))))"

definition runs_by_name :: "json list \<Rightarrow> (string \<times> jdict) list" where
  "runs_by_name runs = rev (concat (map (\<lambda>run. case run of
     JObj d \<Rightarrow> (case jget d ''name'' of JStr n \<Rightarrow> [(n, d)] | _ \<Rightarrow> []) | _ \<Rightarrow> []) runs))"

definition states_by_context :: "json list \<Rightarrow> (string \<times> json) list" where
  "states_by_context items = rev (concat (map (\<lambda>item. case item of
     JObj d \<Rightarrow> (case jget d ''context'' of JStr n \<Rightarrow> [(n, jget d ''state'')] | _ \<Rightarrow> []) | _ \<Rightarrow> []) items))"

definition BAD_CONCLUSIONS :: "string list" where
  "BAD_CONCLUSIONS = [''failure'', ''timed_out'', ''cancelled'', ''action_required'']"

datatype context_state = CtxSuccess | CtxFailure string | CtxPending

text \<open>One required context: its check run decides when there is one, else its commit status.\<close>

definition judge_value :: "string list \<Rightarrow> string \<Rightarrow> json \<Rightarrow> exn + context_state" where
  "judge_value bad ctx v = (case v of
     JStr s \<Rightarrow> if s = ''success'' then Inr CtxSuccess
       else if s \<in> set bad then Inr (CtxFailure (''Required check failed: '' @ ctx @ '' ('' @ s @ '')''))
       else Inr CtxPending
   | JList _ \<Rightarrow> Inl type_error
   | JObj _ \<Rightarrow> Inl type_error
   | _ \<Rightarrow> Inr CtxPending)"

definition judge_context ::
    "(string \<times> jdict) list \<Rightarrow> (string \<times> json) list \<Rightarrow> string \<Rightarrow> exn + context_state" where
  "judge_context runs states ctx = (case map_of runs ctx of
     Some run \<Rightarrow> judge_value BAD_CONCLUSIONS ctx (jget run ''conclusion'')
   | None \<Rightarrow> judge_value [''failure'', ''error''] ctx (dict_get JNull states ctx))"

datatype scan = ScanFailed string | ScanPending "string list"

fun scan_contexts ::
    "(string \<times> jdict) list \<Rightarrow> (string \<times> json) list \<Rightarrow> string list \<Rightarrow> string list \<Rightarrow> exn + scan" where
  "scan_contexts runs states pending [] = Inr (ScanPending pending)"
| "scan_contexts runs states pending (ctx # ctxs) = (case judge_context runs states ctx of
     Inl e \<Rightarrow> Inl e
   | Inr CtxSuccess \<Rightarrow> scan_contexts runs states pending ctxs
   | Inr (CtxFailure msg) \<Rightarrow> Inr (ScanFailed msg)
   | Inr CtxPending \<Rightarrow> scan_contexts runs states (pending @ [ctx]) ctxs)"

definition read_commit :: "response \<Rightarrow> response \<Rightarrow> string list \<Rightarrow> exn + scan" where
  "read_commit checks_resp statuses_resp required =
     bind_sum (body_obj checks_resp) (\<lambda>cd.
     bind_sum (body_obj statuses_resp) (\<lambda>sd.
     bind_sum (iter_json (dict_get (JList []) cd ''check_runs'')) (\<lambda>runs.
     bind_sum (iter_json (dict_get (JList []) sd ''statuses'')) (\<lambda>statuses.
       scan_contexts (runs_by_name runs) (states_by_context statuses) [] (sorted_set required)))))"

type_synonym ci_answer = "string \<times> string"

text \<open>
  One pass of the polling loop: the answer when there is one, else \<open>None\<close> with the branch
  name and required contexts that the next pass starts from.
\<close>

definition poll_once ::
    "'w host \<Rightarrow> string \<Rightarrow> string \<Rightarrow> string \<times> string list \<Rightarrow> 'w \<Rightarrow> (exn + (ci_answer option \<times> string \<times> string list)) \<times> 'w" where
  "poll_once h repo head_sha st w = (let url = ''https://api.github.com/repos/'' @ repo; (dflt, required) = st;
     (r1, w1) = h_get h url w in
     case bind_sum r1 (read_default_branch dflt) of Inl e \<Rightarrow> (Inl e, w1) | Inr branch \<Rightarrow>
     (let (r2, w2) = h_get h (url @ ''/branches/'' @ branch) w1 in
     case bind_sum r2 (read_required_contexts required) of Inl e \<Rightarrow> (Inl e, w2) | Inr contexts \<Rightarrow>
     (let (r3, w3) = h_get h (url @ ''/commits/'' @ head_sha @ ''/check-runs'') w2 in
     case r3 of Inl e \<Rightarrow> (Inl e, w3) | Inr checks_resp \<Rightarrow>
     (let (r4, w4) = h_get h (url @ ''/commits/'' @ head_sha @ ''/status'') w3 in
     case r4 of Inl e \<Rightarrow> (Inl e, w4) | Inr statuses_resp \<Rightarrow>
       if rp_status checks_resp \<noteq> 200 \<or> rp_status statuses_resp \<noteq> 200
       then (Inr (Some (''failure'', ''Failed to fetch GitHub CI check status''), branch, contexts), w4)
       else (case read_commit checks_resp statuses_resp contexts of
           Inl e \<Rightarrow> (Inl e, w4)
         | Inr (ScanFailed msg) \<Rightarrow> (Inr (Some (''failure'', msg), branch, contexts), w4)
         | Inr (ScanPending pending) \<Rightarrow>
             (Inr (if pending = [] then Some (''success'', ''All required checks passed'') else None, branch, contexts), w4))))))"

text \<open>The loop, with fuel; \<open>None\<close> is out of fuel.\<close>

fun wait_loop ::
    "nat \<Rightarrow> 'w host \<Rightarrow> string \<Rightarrow> string \<Rightarrow> int \<Rightarrow> int \<Rightarrow> string \<times> string list \<Rightarrow> 'w \<Rightarrow> (exn + ci_answer) option \<times> 'w" where
  "wait_loop 0 h repo head_sha deadline poll_interval st w = (None, w)"
| "wait_loop (Suc fuel) h repo head_sha deadline poll_interval st w =
     (if deadline \<le> h_time h w
      then (Some (Inr (''timeout'', ''Timed out waiting for required checks to pass'')), w)
      else (case poll_once h repo head_sha st w of
          (Inl e, w1) \<Rightarrow> (Some (Inl e), w1)
        | (Inr (Some answer, _), w1) \<Rightarrow> (Some (Inr answer), w1)
        | (Inr (None, st'), w1) \<Rightarrow>
            wait_loop fuel h repo head_sha deadline poll_interval st' (h_sleep h poll_interval w1)))"

definition wait_for_ci_green ::
    "nat \<Rightarrow> 'w host \<Rightarrow> client \<Rightarrow> string \<Rightarrow> pr_row \<Rightarrow> int \<Rightarrow> int \<Rightarrow> 'w \<Rightarrow> (exn + ci_answer) option \<times> 'w" where
  "wait_for_ci_green fuel h cl repo pr timeout poll_interval w =
     (if cl \<noteq> GitHub then (Some (Inr (''failure'', ''GitHub client unavailable for CI status polling'')), w)
      else wait_loop fuel h repo (pr_head_sha pr) (h_time h w + timeout) poll_interval (''main'', []) w)"


section \<open>Restacking the next PR\<close>

record restack_step_result =
  rs_name :: string
  rs_success :: bool
  rs_stdout :: string
  rs_stderr :: string
  rs_command :: "string list"

record restack_execution_result =
  ex_success :: bool
  ex_pr_number :: "int option"
  ex_branch :: string
  ex_target_branch :: string
  ex_steps :: "restack_step_result list"
  ex_error :: string
  ex_ci_wait_state :: string
  ex_ci_wait_reason :: string

definition run_process :: "'w host \<Rightarrow> string \<Rightarrow> string list \<Rightarrow> 'w \<Rightarrow> (exn + int \<times> string \<times> string) \<times> 'w" where
  "run_process h cwd cmd w = (let (out, w1) = h_run h (Some cwd) cmd w in
     (case out of
        Ran rc stdout stderr \<Rightarrow> Inr (rc, stdout, stderr)
      | RunFileNotFound \<Rightarrow> Inl (Exn ''FileNotFoundError'' [])
      | RunTimeout \<Rightarrow> Inl (Exn ''TimeoutExpired'' [])
      | RunRaised e \<Rightarrow> Inl e, w1))"

definition run_git_step ::
    "'w host \<Rightarrow> string \<Rightarrow> string \<Rightarrow> string list \<Rightarrow> 'w \<Rightarrow> (exn + restack_step_result) \<times> 'w" where
  "run_git_step h cwd name cmd w = (let (r, w1) = run_process h cwd cmd w in
     (bind_sum r (\<lambda>(rc, stdout, stderr).
        Inr \<lparr>rs_name = name, rs_success = (rc = 0), rs_stdout = stdout, rs_stderr = stderr, rs_command = cmd\<rparr>), w1))"

definition has_staged_changes :: "'w host \<Rightarrow> string \<Rightarrow> 'w \<Rightarrow> (exn + bool) \<times> 'w" where
  "has_staged_changes h cwd w = (let (r, w1) = run_process h cwd [''git'', ''diff'', ''--cached'', ''--quiet''] w in
     (bind_sum r (\<lambda>(rc, _). Inr (rc \<noteq> 0)), w1))"

text \<open>
  The deletion loop over the NUL-separated paths: the paths deleted, and the path and message
  of the \<open>OSError\<close> that stopped it, if one did.
\<close>

fun delete_paths ::
    "'w host \<Rightarrow> string \<Rightarrow> string list \<Rightarrow> string list \<Rightarrow> 'w \<Rightarrow> (string list \<times> (string \<times> string) option) \<times> 'w" where
  "delete_paths h cwd deleted [] w = ((deleted, None), w)"
| "delete_paths h cwd deleted (p # ps) w =
     (if p = [] \<or> \<not> h_inside h cwd p w then delete_paths h cwd deleted ps w
      else (case h_unlink h cwd p w of
          (Unlinked, w1) \<Rightarrow> delete_paths h cwd (deleted @ [p]) ps w1
        | (UnlinkMissing, w1) \<Rightarrow> delete_paths h cwd deleted ps w1
        | (UnlinkError msg, w1) \<Rightarrow> ((deleted, Some (p, msg)), w1)))"

definition nul :: char where
  "nul = char_of (0 :: nat)"

definition delete_stale_migrations_step ::
    "'w host \<Rightarrow> string \<Rightarrow> string \<Rightarrow> string list \<Rightarrow> 'w \<Rightarrow> (exn + restack_step_result) \<times> 'w" where
  "delete_stale_migrations_step h cwd target globs w = (
     let (r, w1) = run_git_step h cwd ''delete_stale_migrations''
       ([''git'', ''diff'', ''--name-only'', ''-z'', ''origin/'' @ target @ ''...HEAD'', ''--''] @ globs) w in
     case r of Inl e \<Rightarrow> (Inl e, w1) | Inr step \<Rightarrow>
     if \<not> rs_success step then (Inr step, w1)
     else (let ((deleted, failure), w2) = delete_paths h cwd [] (split_on nul (rs_stdout step)) w1 in
       (Inr (case failure of
          Some (p, msg) \<Rightarrow> step\<lparr>rs_success := False,
            rs_stderr := strip (rs_stderr step @ newline # ''failed to delete '' @ p @ '': '' @ msg)\<rparr>
        | None \<Rightarrow> if deleted = [] then step
            else step\<lparr>rs_stdout := strip (rs_stdout step @ newline # join [newline] deleted)\<rparr>), w2)))"


text \<open>
  The restack is a sequence of stages over the execution record; each returns whether to go on.
\<close>

type_synonym 'w stage = "restack_execution_result \<Rightarrow> 'w \<Rightarrow> (exn + bool \<times> restack_execution_result) \<times> 'w"

definition do_step :: "string \<Rightarrow> ('w \<Rightarrow> (exn + restack_step_result) \<times> 'w) \<Rightarrow> 'w stage" where
  "do_step name act ex w = (let (r, w1) = act w in
     (bind_sum r (\<lambda>step. let ex1 = ex\<lparr>ex_steps := ex_steps ex @ [step]\<rparr> in
        Inr (if rs_success step then (True, ex1)
          else (False, ex1\<lparr>ex_success := False, ex_error := ''Step failed: '' @ name\<rparr>))), w1))"

definition git_stage :: "'w host \<Rightarrow> string \<Rightarrow> string \<Rightarrow> string list \<Rightarrow> 'w stage" where
  "git_stage h cwd name cmd = do_step name (run_git_step h cwd name cmd)"

definition commit_stage :: "'w host \<Rightarrow> string \<Rightarrow> merge_queue_config \<Rightarrow> int \<Rightarrow> 'w stage" where
  "commit_stage h cwd c number ex w = (let (r, w1) = has_staged_changes h cwd w in
     case r of Inl e \<Rightarrow> (Inl e, w1)
     | Inr staged \<Rightarrow> if staged
         then git_stage h cwd ''commit_restack'' [''git'', ''commit'', ''-m'',
           ''chore('' @ mq_restack_commit_scope c @ ''): restack PR #'' @ int_str number] ex w1
         else (Inr (True, ex), w1))"

fun run_stages :: "'w stage list \<Rightarrow> 'w stage" where
  "run_stages [] ex w = (Inr (True, ex), w)"
| "run_stages (s # ss) ex w = (case s ex w of
     (Inr (True, ex1), w1) \<Rightarrow> run_stages ss ex1 w1
   | r \<Rightarrow> r)"

definition branch_of :: "pr_row \<Rightarrow> string" where
  "branch_of pr = (if pr_head_branch pr = [] then ''pr-'' @ int_str (pr_number pr) else pr_head_branch pr)"

definition target_of :: "merge_queue_config \<Rightarrow> string" where
  "target_of c = (if mq_restack_target_branch c = [] then ''main'' else mq_restack_target_branch c)"

definition restack_stages :: "'w host \<Rightarrow> string \<Rightarrow> merge_queue_config \<Rightarrow> pr_row \<Rightarrow> 'w stage list" where
  "restack_stages h cwd c pr = (let branch = branch_of pr; target = target_of c in
     [git_stage h cwd ''checkout_pr_branch'' [''git'', ''checkout'', ''-B'', branch, ''origin/'' @ branch]]
     @ (if mq_delete_stale_migrations c
        then [do_step ''delete_stale_migrations'' (delete_stale_migrations_step h cwd target (mq_migration_globs c))]
        else [])
     @ [git_stage h cwd ''rebase_onto_target'' [''git'', ''rebase'', ''origin/'' @ target],
        git_stage h cwd ''regenerate_migrations'' (mq_makemigrations_cmd c),
        git_stage h cwd ''stage_changes'' [''git'', ''add'', ''-A''],
        commit_stage h cwd c (pr_number pr),
        git_stage h cwd ''push_branch'' [''git'', ''push'',
          if mq_push_force_with_lease c then ''--force-with-lease'' else ''--force'', ''origin'', branch]])"

text \<open>After the push: the wait for CI, which decides the outcome.\<close>

definition finish_restack ::
    "nat \<Rightarrow> 'w host \<Rightarrow> client \<Rightarrow> string \<Rightarrow> merge_queue_config \<Rightarrow> pr_row \<Rightarrow> restack_execution_result \<Rightarrow> 'w
       \<Rightarrow> (exn + restack_execution_result) option \<times> 'w" where
  "finish_restack fuel h cl repo c pr ex w =
     (if cl = NoClient then (let err = ''Cannot wait for CI without GitHub client'' in
        (Some (Inr (ex\<lparr>ex_success := False, ex_error := err, ex_ci_wait_state := ''failure'', ex_ci_wait_reason := err\<rparr>)), w))
      else (let (r, w1) = wait_for_ci_green fuel h cl repo pr (mq_ci_wait_timeout c) (mq_ci_poll_interval c) w in
        (map_option (\<lambda>a. bind_sum a (\<lambda>(state, reason).
           let ex1 = ex\<lparr>ex_ci_wait_state := state, ex_ci_wait_reason := reason\<rparr> in
           Inr (if state \<noteq> ''success'' then ex1\<lparr>ex_success := False, ex_error := reason\<rparr>
             else ex1\<lparr>ex_success := True\<rparr>))) r, w1)))"

definition new_execution :: "int option \<Rightarrow> string \<Rightarrow> string \<Rightarrow> restack_execution_result" where
  "new_execution number branch target = \<lparr>ex_success = False, ex_pr_number = number, ex_branch = branch,
     ex_target_branch = target, ex_steps = [], ex_error = '''', ex_ci_wait_state = '''', ex_ci_wait_reason = ''''\<rparr>"

definition execute_post_merge_restack ::
    "nat \<Rightarrow> 'w host \<Rightarrow> client \<Rightarrow> string \<Rightarrow> pr_row list \<Rightarrow> pr_row \<Rightarrow> merge_queue_config \<Rightarrow> string \<Rightarrow> 'w
       \<Rightarrow> (exn + restack_execution_result) option \<times> 'w" where
  "execute_post_merge_restack fuel h cl repo rows merged_pr c repo_path w = (
     let nothing = (Some (Inr ((new_execution None [] (mq_restack_target_branch c))\<lparr>ex_success := True\<rparr>)), w) in
     if \<not> mq_restack_enabled c then nothing
     else (case select_next_pr_to_restack (pr_project merged_pr) rows of
       None \<Rightarrow> nothing
     | Some next_pr \<Rightarrow>
        (case run_stages (restack_stages h repo_path c next_pr)
            (new_execution (Some (pr_number next_pr)) (branch_of next_pr) (target_of c)) w of
          (Inl e, w1) \<Rightarrow> (Some (Inl e), w1)
        | (Inr (False, ex), w1) \<Rightarrow> (Some (Inr ex), w1)
        | (Inr (True, ex), w1) \<Rightarrow> finish_restack fuel h cl repo c next_pr ex w1)))"

text \<open>
  The merge. The rows are those of the database: the API merge saves its PR before the
  restack chooses the next one, the script merge does not touch any row.
\<close>

definition save_pr :: "pr_row \<Rightarrow> pr_row list \<Rightarrow> pr_row list" where
  "save_pr pr rows = map (\<lambda>r. if pr_pk r = pr_pk pr then pr else r) rows"

definition attempt_merge ::
    "'w host \<Rightarrow> string \<Rightarrow> pr_row list \<Rightarrow> pr_row \<Rightarrow> merge_queue_config \<Rightarrow> client \<Rightarrow> 'w
       \<Rightarrow> (exn + merge_result) \<times> pr_row list \<times> 'w" where
  "attempt_merge h repo rows pr c cl w =
     (if mq_merge_script c \<noteq> [] then (let (r, w1) = execute_merge_script h repo pr (mq_merge_script c) w in (r, rows, w1))
      else (let (r, pr1, w1) = execute_merge_api h repo pr c cl ''franktheunicorn'' w in
        (Inr r, if ms_success r then save_pr pr1 rows else rows, w1)))"

definition after_restack :: "merge_result \<Rightarrow> restack_execution_result \<Rightarrow> merge_result" where
  "after_restack m ex = (let m1 = m\<lparr>ms_ci_wait_state := ex_ci_wait_state ex, ms_ci_wait_reason := ex_ci_wait_reason ex\<rparr> in
     if ex_success ex then m1
     else m1\<lparr>ms_success := False, ms_error := ex_error ex,
       ms_output := strip (join [newline] [ms_output m1, ''post_merge_restack_failed for PR #'' @
         (case ex_pr_number ex of None \<Rightarrow> ''None'' | Some n \<Rightarrow> int_str n)])\<rparr>)"

definition execute_merge ::
    "nat \<Rightarrow> 'w host \<Rightarrow> string \<Rightarrow> pr_row list \<Rightarrow> pr_row \<Rightarrow> merge_queue_config \<Rightarrow> client \<Rightarrow> string \<Rightarrow> 'w
       \<Rightarrow> (exn + merge_result) option \<times> pr_row list \<times> 'w" where
  "execute_merge fuel h repo rows pr c cl repo_path w =
     (if mq_merge_script c = [] \<and> cl = NoClient
      then (Some (Inr (merge_failed [] ''No merge method available (no script and no GitHub client)'')), rows, w)
      else (case attempt_merge h repo rows pr c cl w of
        (Inl e, rows1, w1) \<Rightarrow> (Some (Inl e), rows1, w1)
      | (Inr m, rows1, w1) \<Rightarrow>
          if ms_success m \<and> (mq_restack_enabled c \<or> mq_post_merge_restack_enabled c) \<and> repo_path \<noteq> []
          then (let (r, w2) = execute_post_merge_restack fuel h cl repo rows1 pr c repo_path w1 in
            (map_option (\<lambda>a. bind_sum a (\<lambda>ex. Inr (after_restack m ex))) r, rows1, w2))
          else (Some (Inr m), rows1, w1)))"

end
