(* ===== verification/MergeSafety.thy ===== *)
theory MergeSafety
  imports MergeQueue
begin

text \<open>
  What the merge queue promises: when a PR is eligible, which PR is next, what a validated
  configuration guarantees, when the wait for CI ends and what its success means, and how
  far a failed restack goes.
\<close>

section \<open>Eligibility\<close>

text \<open>
  A PR is eligible exactly when every enabled requirement holds, and the details list is
  empty exactly then: no reason is given for an eligible PR and none is missing otherwise.
  An unknown mergeable state counts as a conflict when conflicts matter.
\<close>

lemma eligibility_exact:
  "me_eligible (evaluate_merge_eligibility pr c) \<longleftrightarrow>
     (mq_require_ci_pass c \<longrightarrow> pr_ci_status pr = ''pass'') \<and>
     mq_required_approvals c \<le> pr_approval_count pr \<and>
     (mq_require_no_conflicts c \<longrightarrow> pr_mergeable pr = Some True)"
  "me_details (evaluate_merge_eligibility pr c) = [] \<longleftrightarrow> me_eligible (evaluate_merge_eligibility pr c)"
  "snd (update_merge_eligibility pr c) =
     pr\<lparr>pr_merge_queue_eligible := me_eligible (evaluate_merge_eligibility pr c)\<rparr>"
  by (simp_all add: evaluate_merge_eligibility_def update_merge_eligibility_def Let_def)

section \<open>Configuration\<close>

lemma known_method_fixed: "m \<in> set KNOWN_MERGE_METHODS \<Longrightarrow> lower (strip m) = m"
proof -
  have "list_all (\<lambda>m. lower (strip m) = m) KNOWN_MERGE_METHODS" by code_simp
  then show "m \<in> set KNOWN_MERGE_METHODS \<Longrightarrow> lower (strip m) = m" by (simp add: list_all_iff)
qed

lemma check_simps:
  "check_approvals v = Inr a \<longleftrightarrow> a = v \<and> 0 \<le> v"
  "check_merge_method s = Inr m \<longleftrightarrow> m = lower (strip s) \<and> m \<in> set KNOWN_MERGE_METHODS"
  "check_target_branch s = Inr m \<longleftrightarrow> m = strip s \<and> m \<noteq> []"
  "check_globs gs = Inr g \<longleftrightarrow> g = map strip (filter (\<lambda>g. strip g \<noteq> []) gs) \<and> g \<noteq> []"
  "check_timeout v = Inr a \<longleftrightarrow> a = v \<and> 60 \<le> v \<and> v \<le> 7200"
  "check_poll v = Inr a \<longleftrightarrow> a = v \<and> 5 \<le> v \<and> v \<le> 300"
  by (auto simp: check_approvals_def check_merge_method_def check_target_branch_def check_globs_def
      check_timeout_def check_poll_def Let_def)

definition config_ok :: "merge_queue_config \<Rightarrow> bool" where
  "config_ok c \<longleftrightarrow> 0 \<le> mq_required_approvals c \<and> mq_merge_method c \<in> set KNOWN_MERGE_METHODS
     \<and> mq_restack_target_branch c \<noteq> [] \<and> strip (mq_restack_target_branch c) = mq_restack_target_branch c
     \<and> mq_migration_globs c \<noteq> [] \<and> list_all (\<lambda>g. g \<noteq> [] \<and> strip g = g) (mq_migration_globs c)
     \<and> 60 \<le> mq_ci_wait_timeout c \<and> mq_ci_wait_timeout c \<le> 7200
     \<and> 5 \<le> mq_ci_poll_interval c \<and> mq_ci_poll_interval c \<le> 300
     \<and> mq_ci_poll_interval c < mq_ci_wait_timeout c
     \<and> (mq_post_merge_restack_enabled c \<longrightarrow> mq_restack_enabled c)
     \<and> (mq_delete_stale_migrations c \<longrightarrow> mq_restack_enabled c)"

lemma validate_config_Inr:
  "validate_config c = Inr c' \<longleftrightarrow> (\<exists>a m b g t p.
     check_approvals (mq_required_approvals c) = Inr a \<and> check_merge_method (mq_merge_method c) = Inr m \<and>
     check_target_branch (mq_restack_target_branch c) = Inr b \<and> check_globs (mq_migration_globs c) = Inr g \<and>
     check_timeout (mq_ci_wait_timeout c) = Inr t \<and> check_poll (mq_ci_poll_interval c) = Inr p \<and>
     normalize_restack_flags (c\<lparr>mq_required_approvals := a, mq_merge_method := m,
         mq_restack_target_branch := b, mq_migration_globs := g, mq_ci_wait_timeout := t,
         mq_ci_poll_interval := p\<rparr>) = Inr c')"
  by (simp add: validate_config_def split: sum.split)

lemma validated_ok: "validate_config c = Inr c' \<Longrightarrow> config_ok c'"
  unfolding validate_config_Inr
  by (elim exE conjE)
    (auto simp: check_simps normalize_restack_flags_def config_ok_def list_all_iff Let_def split: if_splits)

lemma ok_validates: "config_ok c \<Longrightarrow> validate_config c = Inr c"
proof -
  assume ok: "config_ok c"
  have g: "map strip (filter (\<lambda>g. strip g \<noteq> []) (mq_migration_globs c)) = mq_migration_globs c"
    using ok unfolding config_ok_def list_all_iff
    by (metis (mono_tags, lifting) filter_True map_idI)
  show ?thesis
    unfolding validate_config_Inr
    using ok g by (auto simp: check_simps config_ok_def known_method_fixed normalize_restack_flags_def Let_def)
qed

text \<open>
  C40: A configuration that passes validation satisfies every documented constraint (bounds,
  known merge method, non-empty target and globs, the polling interval below the timeout,
  the restack flags consistent), and validation is idempotent: it accepts its own result
  unchanged. The restack flag of the result is the disjunction of the two flags given.
\<close>

theorem validated_config_sound:
  "validate_config c = Inr c' \<Longrightarrow>
     config_ok c' \<and> validate_config c' = Inr c' \<and>
     (mq_restack_enabled c' \<longleftrightarrow> mq_restack_enabled c \<or> mq_post_merge_restack_enabled c) \<and>
     (mq_delete_stale_migrations c' \<longleftrightarrow> mq_delete_stale_migrations c \<and> mq_restack_enabled c')"
proof -
  assume v: "validate_config c = Inr c'"
  have "(mq_restack_enabled c' \<longleftrightarrow> mq_restack_enabled c \<or> mq_post_merge_restack_enabled c) \<and>
     (mq_delete_stale_migrations c' \<longleftrightarrow> mq_delete_stale_migrations c \<and> mq_restack_enabled c')"
    using v unfolding validate_config_Inr
    by (elim exE conjE) (auto simp: normalize_restack_flags_def Let_def split: if_splits)
  with validated_ok [OF v] ok_validates show ?thesis by blast
qed

definition sample_mq :: merge_queue_config where
  "sample_mq = \<lparr>mq_required_approvals = 1, mq_require_ci_pass = True, mq_require_no_conflicts = True,
     mq_merge_script = [], mq_merge_method = '' Squash '', mq_post_merge_restack_enabled = True,
     mq_restack_enabled = False, mq_restack_target_branch = ''main'', mq_migration_globs = [''*/migrations/*.py'', '' ''],
     mq_delete_stale_migrations = True, mq_ci_wait_timeout = 900, mq_ci_poll_interval = 30,
     mq_push_force_with_lease = True, mq_restack_commit_scope = ''merge-queue'',
     mq_makemigrations_cmd = [''python'', ''manage.py'', ''makemigrations'']\<rparr>"

definition sample_mq_valid :: merge_queue_config where
  "sample_mq_valid = sample_mq\<lparr>mq_merge_method := ''squash'', mq_migration_globs := [''*/migrations/*.py''],
     mq_restack_enabled := True\<rparr>"

lemma sample_mq_validates: "validate_config sample_mq = Inr sample_mq_valid"
  by code_simp

theorem validated_config_sound_witness:
  "config_ok sample_mq_valid \<and> validate_config sample_mq_valid = Inr sample_mq_valid"
  using validated_config_sound [OF sample_mq_validates] by blast

section \<open>The queue order\<close>

text \<open>
  The PR chosen for the restack is an open, eligible PR of the project that no other such
  PR precedes in the queue order (higher interest score, then older update, then lower
  number); none is chosen exactly when there is no candidate.
\<close>

theorem next_pr_is_first:
  "(case select_next_pr_to_restack p rows of
      None \<Rightarrow> filter (restack_candidate p) rows = []
    | Some pr \<Rightarrow> pr \<in> set rows \<and> restack_candidate p pr \<and>
        filter (\<lambda>r. restack_candidate p r \<and> queue_key r < queue_key pr) rows = [])"
proof (cases "select_next_pr_to_restack p rows")
  case (Some pr)
  then have "pr \<in> set (filter (restack_candidate p) rows)"
    "\<And>r. r \<in> set (filter (restack_candidate p) rows) \<Longrightarrow> queue_key pr \<le> queue_key r"
    unfolding select_next_pr_to_restack_def by (blast dest: first_by_Some)+
  with Some show ?thesis by (auto simp: filter_empty_conv not_less)
qed (simp add: select_next_pr_to_restack_def)


section \<open>Waiting for CI\<close>












text \<open>A clock that sleeping moves forward, and that the HTTP calls never move back.\<close>

definition clock_ok :: "'w host \<Rightarrow> bool" where
  "clock_ok h \<longleftrightarrow> (\<forall>u w. h_time h w \<le> h_time h (snd (h_get h u w))) \<and>
     (\<forall>d w. h_time h w + d \<le> h_time h (h_sleep h d w))"

lemma poll_once_time:
  assumes "clock_ok h" and "poll_once h repo sha st w = (r, w')"
  shows "h_time h w \<le> h_time h w'"
proof -
  have g: "h_get h u v = (x, v') \<Longrightarrow> h_time h v \<le> h_time h v'" for u v x v'
    using assms(1) unfolding clock_ok_def by (metis snd_conv)
  show ?thesis
    using assms(2)
    by (auto simp: poll_once_def Let_def split: prod.splits sum.splits if_splits scan.splits
        dest!: g intro: order_trans)
qed

lemma wait_loop_returns:
  "clock_ok h \<Longrightarrow> 0 < i \<Longrightarrow> deadline \<le> h_time h w + int fuel * i \<Longrightarrow>
     \<exists>a w'. wait_loop (Suc fuel) h repo sha deadline i st w = (Some a, w')"
proof (induction fuel arbitrary: st w)
  case (Suc fuel)
  show ?case
  proof (cases "deadline \<le> h_time h w")
    case False
    show ?thesis
    proof (cases "poll_once h repo sha st w")
      case (Pair r w1)
      with Suc.prems(1) have t: "h_time h w \<le> h_time h w1" using poll_once_time by metis
      have "h_time h w1 + i \<le> h_time h (h_sleep h i w1)"
        using Suc.prems unfolding clock_ok_def by blast
      with t Suc.prems have "deadline \<le> h_time h (h_sleep h i w1) + int fuel * i"
        by (simp add: algebra_simps)
      then have "\<exists>a w'. wait_loop (Suc fuel) h repo sha deadline i st' (h_sleep h i w1) = (Some a, w')" for st'
        using Suc.IH Suc.prems by blast
      with Pair False show ?thesis
        by (auto split: sum.split option.split)
    qed
  qed simp
qed simp

lemma wait_loop_more_fuel:
  "wait_loop fuel h repo sha deadline i st w = (Some a, w') \<Longrightarrow>
     wait_loop (fuel + k) h repo sha deadline i st w = (Some a, w')"
proof (induction fuel arbitrary: st w)
  case (Suc fuel)
  then show ?case by (auto split: prod.splits sum.splits option.splits if_splits)
qed simp

text \<open>
  Under a validated configuration and a clock that sleeping advances, 1441 rounds are always enough (7200 seconds at the shortest interval of 5), so the polling loop
  returns or raises, and any larger fuel gives the same answer.
\<close>

definition WAIT_FUEL :: nat where
  "WAIT_FUEL = 1441"

lemma config_ok_fuel:
  assumes "config_ok c"
  shows "mq_ci_wait_timeout c \<le> int 1440 * mq_ci_poll_interval c" "0 < mq_ci_poll_interval c"
  using assms unfolding config_ok_def by simp_all

lemma wait_returns:
  assumes "config_ok c" and "clock_ok h" and "WAIT_FUEL \<le> fuel"
  shows "\<exists>a w'. wait_for_ci_green fuel h cl repo pr (mq_ci_wait_timeout c) (mq_ci_poll_interval c) w = (Some a, w')
    \<and> wait_for_ci_green WAIT_FUEL h cl repo pr (mq_ci_wait_timeout c) (mq_ci_poll_interval c) w = (Some a, w')"
proof (cases "cl = GitHub")
  case True
  have "h_time h w + mq_ci_wait_timeout c \<le> h_time h w + int 1440 * mq_ci_poll_interval c"
    using config_ok_fuel [OF assms(1)] by simp
  then obtain a w' where a: "wait_loop (Suc 1440) h repo (pr_head_sha pr) (h_time h w + mq_ci_wait_timeout c)
      (mq_ci_poll_interval c) (''main'', []) w = (Some a, w')"
    using wait_loop_returns [OF assms(2) config_ok_fuel(2) [OF assms(1)]] by blast
  moreover have "fuel = Suc 1440 + (fuel - Suc 1440)" using assms(3) by (simp add: WAIT_FUEL_def)
  ultimately have "wait_loop fuel h repo (pr_head_sha pr) (h_time h w + mq_ci_wait_timeout c)
      (mq_ci_poll_interval c) (''main'', []) w = (Some a, w')"
    using wait_loop_more_fuel by metis
  moreover have "WAIT_FUEL = Suc 1440" by (simp add: WAIT_FUEL_def)
  ultimately show ?thesis using a True unfolding wait_for_ci_green_def by auto
qed (simp add: wait_for_ci_green_def)

section \<open>The restack stops at the first failure\<close>

text \<open>
  What a stage may do to the execution record: append the steps of one of its plans (lists of
  step names), all successful when it goes on; when it stops, the last step appended is the
  only one that failed and the error names it. Nothing else of the record changes.
\<close>

definition stopped_at :: "restack_step_result list \<Rightarrow> restack_execution_result \<Rightarrow> bool" where
  "stopped_at ss ex \<longleftrightarrow> ss \<noteq> [] \<and> list_all rs_success (butlast ss) \<and> \<not> rs_success (last ss)
     \<and> \<not> ex_success ex \<and> ex_error ex = ''Step failed: '' @ rs_name (last ss)"

definition same_target :: "restack_execution_result \<Rightarrow> restack_execution_result \<Rightarrow> bool" where
  "same_target ex ex' \<longleftrightarrow> ex_pr_number ex' = ex_pr_number ex \<and> ex_branch ex' = ex_branch ex
     \<and> ex_target_branch ex' = ex_target_branch ex \<and> ex_ci_wait_state ex' = ex_ci_wait_state ex
     \<and> ex_ci_wait_reason ex' = ex_ci_wait_reason ex"

locale stage =
  fixes st :: "'w stage" and plans :: "string list list"
  assumes has_plan: "plans \<noteq> []"
    and goes_on: "st ex w = (Inr (True, ex'), w') \<Longrightarrow>
      \<exists>ss. ex_steps ex' = ex_steps ex @ ss \<and> same_target ex ex' \<and> list_all rs_success ss \<and> map rs_name ss \<in> set plans"
    and stops: "st ex w = (Inr (False, ex'), w') \<Longrightarrow>
      \<exists>ss. ex_steps ex' = ex_steps ex @ ss \<and> same_target ex ex' \<and> stopped_at ss ex' \<and>
        (\<exists>plan \<in> set plans. map rs_name ss = take (length ss) plan)"
begin

lemma steps_before_last_succeed:
  assumes "st ex w = (Inr (b, ex'), w')" and "list_all rs_success (ex_steps ex)"
  shows "list_all rs_success (butlast (ex_steps ex'))"
proof (cases b)
  case True
  with assms goes_on [of ex w ex' w'] have "list_all rs_success (ex_steps ex')" by auto
  then show ?thesis by (auto simp: list_all_iff dest: in_set_butlastD)
next
  case False
  with assms stops [of ex w ex' w'] show ?thesis
    by (auto simp: list_all_iff stopped_at_def butlast_append dest: in_set_butlastD)
qed

end

lemma stage_do_step:
  assumes "\<And>w step w'. act w = (Inr step, w') \<Longrightarrow> rs_name step = name"
  shows "stage (do_step name act) [[name]]"
  using assms
  by unfold_locales (fastforce simp: do_step_def Let_def bind_sum_eq_Inr stopped_at_def same_target_def
      split: prod.splits if_splits)+

lemma stage_git: "stage (git_stage h cwd name cmd) [[name]]"
  unfolding git_stage_def
  by (rule stage_do_step)
    (auto simp: run_git_step_def Let_def bind_sum_eq_Inr split: prod.splits)

lemma stage_delete: "stage (do_step ''delete_stale_migrations'' (delete_stale_migrations_step h cwd target globs))
    [[''delete_stale_migrations'']]"
proof (rule stage_do_step)
  fix w step w' assume "delete_stale_migrations_step h cwd target globs w = (Inr step, w')"
  then show "rs_name step = ''delete_stale_migrations''"
    by (auto simp: delete_stale_migrations_step_def run_git_step_def Let_def bind_sum_eq_Inr
        split: prod.splits sum.splits if_splits option.splits)
qed

lemma stage_commit: "stage (commit_stage h cwd c n) [[], [''commit_restack'']]"
proof
  fix ex w ex' w'
  note go = stage.goes_on [OF stage_git] and stop = stage.stops [OF stage_git]
  show "commit_stage h cwd c n ex w = (Inr (True, ex'), w') \<Longrightarrow>
      \<exists>ss. ex_steps ex' = ex_steps ex @ ss \<and> same_target ex ex' \<and> list_all rs_success ss
        \<and> map rs_name ss \<in> set [[], [''commit_restack'']]"
    by (auto simp: commit_stage_def Let_def same_target_def split: prod.splits sum.splits if_splits dest!: go)
  show "commit_stage h cwd c n ex w = (Inr (False, ex'), w') \<Longrightarrow>
      \<exists>ss. ex_steps ex' = ex_steps ex @ ss \<and> same_target ex ex' \<and> stopped_at ss ex'
        \<and> (\<exists>plan \<in> set [[], [''commit_restack'']]. map rs_name ss = take (length ss) plan)"
    by (auto simp: commit_stage_def Let_def split: prod.splits sum.splits if_splits dest!: stop)
qed simp

definition products :: "string list list \<Rightarrow> string list list \<Rightarrow> string list list" where
  "products ps qs = concat (map (\<lambda>p. map (\<lambda>q. p @ q) qs) ps)"

lemma in_products: "p \<in> set ps \<Longrightarrow> q \<in> set qs \<Longrightarrow> p @ q \<in> set (products ps qs)"
  by (auto simp: products_def)

lemma products_nonempty: "ps \<noteq> [] \<Longrightarrow> qs \<noteq> [] \<Longrightarrow> products ps qs \<noteq> []"
  by (cases ps; cases qs) (simp_all add: products_def)

lemma stopped_at_append: "list_all rs_success as \<Longrightarrow> stopped_at ss ex \<Longrightarrow> stopped_at (as @ ss) ex"
  by (auto simp: stopped_at_def list_all_iff butlast_append)

lemma same_target_trans: "same_target a b \<Longrightarrow> same_target b c \<Longrightarrow> same_target a c"
  by (simp add: same_target_def)

lemma stage_Nil: "stage (run_stages []) [[]]"
  by unfold_locales (auto simp: same_target_def)

lemma stage_Cons:
  assumes s: "stage s ps" and r: "stage (run_stages ss) qs"
  shows "stage (run_stages (s # ss)) (products ps qs)"
proof
  show "products ps qs \<noteq> []"
    using products_nonempty stage.has_plan [OF s] stage.has_plan [OF r] by blast
next
  fix ex w ex' w' assume a: "run_stages (s # ss) ex w = (Inr (True, ex'), w')"
  then obtain e1 w1 where 1: "s ex w = (Inr (True, e1), w1)" "run_stages ss e1 w1 = (Inr (True, ex'), w')"
    by (auto split: prod.splits sum.splits bool.splits)
  from stage.goes_on [OF s 1(1)] obtain as where as: "ex_steps e1 = ex_steps ex @ as" "same_target ex e1"
    "list_all rs_success as" "map rs_name as \<in> set ps" by blast
  from stage.goes_on [OF r 1(2)] obtain bs where bs: "ex_steps ex' = ex_steps e1 @ bs" "same_target e1 ex'"
    "list_all rs_success bs" "map rs_name bs \<in> set qs" by blast
  have "ex_steps ex' = ex_steps ex @ (as @ bs)" "list_all rs_success (as @ bs)"
    "map rs_name (as @ bs) \<in> set (products ps qs)"
    using as bs in_products by auto
  then show "\<exists>ss'. ex_steps ex' = ex_steps ex @ ss' \<and> same_target ex ex' \<and> list_all rs_success ss'
      \<and> map rs_name ss' \<in> set (products ps qs)"
    using same_target_trans [OF as(2) bs(2)] by blast
next
  fix ex w ex' w' assume a: "run_stages (s # ss) ex w = (Inr (False, ex'), w')"
  then consider (here) "s ex w = (Inr (False, ex'), w')"
    | (later) e1 w1 where "s ex w = (Inr (True, e1), w1)" "run_stages ss e1 w1 = (Inr (False, ex'), w')"
    by (auto split: prod.splits sum.splits bool.splits)
  then show "\<exists>ss'. ex_steps ex' = ex_steps ex @ ss' \<and> same_target ex ex' \<and> stopped_at ss' ex'
      \<and> (\<exists>plan \<in> set (products ps qs). map rs_name ss' = take (length ss') plan)"
  proof cases
    case here
    obtain q where q: "q \<in> set qs" using stage.has_plan [OF r] by (cases qs) auto
    from stage.stops [OF s here] obtain ss' p where p: "p \<in> set ps" "map rs_name ss' = take (length ss') p"
      and x: "ex_steps ex' = ex_steps ex @ ss'" "same_target ex ex'" "stopped_at ss' ex'" by blast
    have "length ss' \<le> length p" using p(2) by (metis length_map length_take min.cobounded1 min.absorb_iff2)
    then have "map rs_name ss' = take (length ss') (p @ q)" using p(2) by simp
    with x in_products [OF p(1) q] show ?thesis by blast
  next
    case later
    from stage.goes_on [OF s later(1)] obtain as where as: "ex_steps e1 = ex_steps ex @ as" "same_target ex e1"
      "list_all rs_success as" "map rs_name as \<in> set ps" by blast
    from stage.stops [OF r later(2)] obtain bs q where bs: "ex_steps ex' = ex_steps e1 @ bs" "same_target e1 ex'"
      "stopped_at bs ex'" "q \<in> set qs" "map rs_name bs = take (length bs) q" by blast
    have "map rs_name (as @ bs) = take (length (as @ bs)) (map rs_name as @ q)"
      and "ex_steps ex' = ex_steps ex @ (as @ bs)" using as(1) bs(1,5) by simp_all
    then show ?thesis
      using in_products [OF as(4) bs(4)] same_target_trans [OF as(2) bs(2)] stopped_at_append [OF as(3) bs(3)]
      by blast
  qed
qed

definition restack_plans :: "merge_queue_config \<Rightarrow> string list list" where
  "restack_plans c = (let pre = [''checkout_pr_branch''] @
       (if mq_delete_stale_migrations c then [''delete_stale_migrations''] else []) @
       [''rebase_onto_target'', ''regenerate_migrations'', ''stage_changes'']
     in [pre @ [''push_branch''], pre @ [''commit_restack'', ''push_branch'']])"

lemmas stage_intros = stage_Cons stage_Nil stage_git stage_delete stage_commit

lemma restack_stages_spec: "stage (run_stages (restack_stages h cwd c pr)) (restack_plans c)"
proof -
  note git = stage_git [of h cwd]
  have "stage (run_stages (restack_stages h cwd c pr))
     (products [[''checkout_pr_branch'']] (if mq_delete_stale_migrations c
        then products [[''delete_stale_migrations'']] (products [[''rebase_onto_target'']] (products [[''regenerate_migrations'']]
          (products [[''stage_changes'']] (products [[], [''commit_restack'']] (products [[''push_branch'']] [[]])))))
        else products [[''rebase_onto_target'']] (products [[''regenerate_migrations'']]
          (products [[''stage_changes'']] (products [[], [''commit_restack'']] (products [[''push_branch'']] [[]]))))))"
    unfolding restack_stages_def Let_def by (auto intro!: stage_intros)
  moreover have "restack_plans c = (if mq_delete_stale_migrations c
        then products [[''checkout_pr_branch'']] (products [[''delete_stale_migrations'']] (products [[''rebase_onto_target'']] (products [[''regenerate_migrations'']]
          (products [[''stage_changes'']] (products [[], [''commit_restack'']] (products [[''push_branch'']] [[]]))))))
        else products [[''checkout_pr_branch'']] (products [[''rebase_onto_target'']] (products [[''regenerate_migrations'']]
          (products [[''stage_changes'']] (products [[], [''commit_restack'']] (products [[''push_branch'']] [[]]))))))"
    by (simp add: products_def restack_plans_def)
  ultimately show ?thesis by (simp split: if_splits)
qed

interpretation restack: stage "run_stages (restack_stages h cwd c pr)" "restack_plans c" for h cwd c pr
  by (rule restack_stages_spec)


lemma finish_restack_frame:
  "finish_restack fuel h cl repo c pr ex w = (Some (Inr ex'), w') \<Longrightarrow>
     ex_steps ex' = ex_steps ex \<and> ex_pr_number ex' = ex_pr_number ex \<and> ex_branch ex' = ex_branch ex \<and>
     ex_target_branch ex' = ex_target_branch ex \<and>
     (ex_success ex' \<longleftrightarrow> ex_ci_wait_state ex' = ''success'')"
proof (cases "cl = NoClient")
  case False
  assume "finish_restack fuel h cl repo c pr ex w = (Some (Inr ex'), w')"
  with False obtain state reason where "ex' = (let ex1 = ex\<lparr>ex_ci_wait_state := state, ex_ci_wait_reason := reason\<rparr> in
      if state \<noteq> ''success'' then ex1\<lparr>ex_success := False, ex_error := reason\<rparr> else ex1\<lparr>ex_success := True\<rparr>)"
    by (force simp: finish_restack_def Let_def bind_sum_eq_Inr split: prod.splits)
  then show ?thesis by (cases "state = ''success''") (simp_all add: Let_def)
qed (auto simp: finish_restack_def Let_def)

lemma after_restack_simps [simp]:
  "ms_success (after_restack m ex) \<longleftrightarrow> ms_success m \<and> ex_success ex"
  "ms_ci_wait_state (after_restack m ex) = ex_ci_wait_state ex"
  "ex_success ex \<Longrightarrow> ms_output (after_restack m ex) = ms_output m"
  by (simp_all add: after_restack_def Let_def)

lemma new_execution_simps [simp]:
  "ex_steps (new_execution n b t) = []" "ex_pr_number (new_execution n b t) = n"
  "ex_branch (new_execution n b t) = b" "ex_target_branch (new_execution n b t) = t"
  "ex_ci_wait_state (new_execution n b t) = []"
  by (simp_all add: new_execution_def)

text \<open>
  A restack that returns either had nothing to do (disabled, or no candidate) and ran no
  step, or worked on the first PR of the queue in one of two ways. It stopped at the first
  step that failed: every earlier step succeeded, none came after, the error names it, and no
  wait took place. Or every planned step succeeded, in the planned order, ending with the
  push, and it succeeds exactly when the wait for CI reported success.
\<close>

theorem restack_outcome:
  "execute_post_merge_restack fuel h cl repo rows merged_pr c path w = (Some (Inr ex), w') \<Longrightarrow>
     (case (if mq_restack_enabled c then select_next_pr_to_restack (pr_project merged_pr) rows else None) of
        None \<Rightarrow> ex_success ex \<and> ex_steps ex = [] \<and> w' = w
      | Some pr \<Rightarrow> ex_pr_number ex = Some (pr_number pr) \<and> ex_branch ex = branch_of pr \<and>
          (stopped_at (ex_steps ex) ex \<and> ex_ci_wait_state ex = [] \<and>
             (\<exists>plan \<in> set (restack_plans c). map rs_name (ex_steps ex) = take (length (ex_steps ex)) plan)
           \<or> list_all rs_success (ex_steps ex) \<and> map rs_name (ex_steps ex) \<in> set (restack_plans c) \<and>
             (ex_success ex \<longleftrightarrow> ex_ci_wait_state ex = ''success'')))"
proof -
  assume a: "execute_post_merge_restack fuel h cl repo rows merged_pr c path w = (Some (Inr ex), w')"
  show ?thesis
  proof (cases "if mq_restack_enabled c then select_next_pr_to_restack (pr_project merged_pr) rows else None")
    case None
    with a show ?thesis
      by (auto simp: execute_post_merge_restack_def Let_def split: if_splits)
  next
    case (Some pr)
    define e0 where "e0 = new_execution (Some (pr_number pr)) (branch_of pr) (target_of c)"
    have sel: "mq_restack_enabled c" "select_next_pr_to_restack (pr_project merged_pr) rows = Some pr"
      using Some by (simp_all split: if_splits)
    from a sel consider (stop) "run_stages (restack_stages h path c pr) e0 w = (Inr (False, ex), w')"
      | (go) e1 w1 where "run_stages (restack_stages h path c pr) e0 w = (Inr (True, e1), w1)"
          "finish_restack fuel h cl repo c pr e1 w1 = (Some (Inr ex), w')"
      by (auto simp: execute_post_merge_restack_def e0_def Let_def split: prod.splits sum.splits bool.splits)
    then show ?thesis
    proof cases
      case stop
      from restack.stops [OF stop] show ?thesis
        unfolding Some by (auto simp: e0_def same_target_def)
    next
      case go
      from restack.goes_on [OF go(1)] finish_restack_frame [OF go(2)] show ?thesis
        unfolding Some by (auto simp: e0_def same_target_def)
    qed
  qed
qed

section \<open>Deletions stay inside the repository\<close>

definition fenced :: "'w host \<Rightarrow> (string \<Rightarrow> string \<Rightarrow> 'w \<Rightarrow> unlink_outcome \<times> 'w) \<Rightarrow> 'w host" where
  "fenced h outside = h\<lparr>h_unlink := \<lambda>d p w. if h_inside h d p w then h_unlink h d p w else outside d p w\<rparr>"

lemma fenced_simps [simp]:
  "h_run (fenced h f) = h_run h" "h_inside (fenced h f) = h_inside h"
  by (simp_all add: fenced_def)

lemma delete_paths_fenced: "delete_paths (fenced h f) cwd deleted ps w = delete_paths h cwd deleted ps w"
  by (induction ps arbitrary: deleted w)
    (auto simp: fenced_def split: prod.split unlink_outcome.split)

lemma run_git_step_fenced: "run_git_step (fenced h f) = run_git_step h"
  by (intro ext) (simp add: run_git_step_def run_process_def)

text \<open>
  C14: The deletion of stale migrations never unlinks a path that resolves outside the
  repository: whatever unlinking such a path would do, the step's result and the world after
  it are the same.
\<close>

theorem deletion_stays_inside:
  "delete_stale_migrations_step (fenced h f) cwd target globs w = delete_stale_migrations_step h cwd target globs w"
  unfolding delete_stale_migrations_step_def run_git_step_fenced delete_paths_fenced ..

section \<open>The merge as a whole\<close>

text \<open>
  C1: A merge reported as successful was a successful merge, and when a restack was due it
  ended in success too: nothing was left to restack, or the next branch was pushed and its CI
  reported success. A failed restack is never reported as a success.
\<close>

theorem merge_success_means_restacked:
  assumes "execute_merge fuel h repo rows pr c cl path w = (Some (Inr m), rows', w')" and "ms_success m"
  shows "\<exists>m0 w1. attempt_merge h repo rows pr c cl w = (Inr m0, rows', w1) \<and> ms_success m0 \<and>
     ms_output m = ms_output m0 \<and>
     (if (mq_restack_enabled c \<or> mq_post_merge_restack_enabled c) \<and> path \<noteq> []
      then \<exists>ex. execute_post_merge_restack fuel h cl repo rows' pr c path w1 = (Some (Inr ex), w') \<and>
        ex_success ex \<and> ms_ci_wait_state m = ex_ci_wait_state ex
      else w' = w1)"
proof -
  have "\<not> (mq_merge_script c = [] \<and> cl = NoClient)"
    using assms by (auto simp: execute_merge_def merge_failed_def)
  then show ?thesis
    using assms
    by (auto simp: execute_merge_def Let_def bind_sum_eq_Inr
        split: prod.splits sum.splits if_splits)
qed

text \<open>
  After a merge through the API the merged PR is never the one restacked: its row is saved
  as merged before the next PR is chosen.
\<close>

theorem merged_pr_not_restacked:
  assumes "mq_merge_script c = []" and "attempt_merge h repo rows pr c cl w = (Inr m, rows', w')" and "ms_success m"
  shows "case select_next_pr_to_restack p rows' of None \<Rightarrow> True | Some next_pr \<Rightarrow> pr_pk next_pr \<noteq> pr_pk pr"
proof -
  obtain pr1 where r: "rows' = save_pr pr1 rows" "pr_state pr1 = ''merged''" "pr_pk pr1 = pr_pk pr"
    using assms
    by (auto simp: attempt_merge_def execute_merge_api_def Let_def merge_failed_def split: if_splits prod.splits sum.splits)
  have "r \<in> set rows' \<Longrightarrow> pr_pk r = pr_pk pr \<Longrightarrow> \<not> restack_candidate p r" for r
    using r by (auto simp: save_pr_def restack_candidate_def split: if_splits)
  moreover have "select_next_pr_to_restack p rows' = Some n \<Longrightarrow> n \<in> set rows' \<and> restack_candidate p n" for n
    unfolding select_next_pr_to_restack_def by (drule first_by_Some(1)) simp
  ultimately show ?thesis by (auto split: option.split)
qed


lemma restack_returns:
  assumes "config_ok c" and "clock_ok h" and "WAIT_FUEL \<le> fuel"
  shows "\<exists>a w'. execute_post_merge_restack fuel h cl repo rows merged_pr c path w = (Some a, w')"
proof -
  have "\<exists>a w'. finish_restack fuel h cl repo c pr ex w1 = (Some a, w')" for pr ex w1
    using wait_returns [OF assms, of cl repo pr w1] by (auto simp: finish_restack_def Let_def)
  then show ?thesis
    by (auto simp: execute_post_merge_restack_def Let_def
        split: option.split prod.split sum.split bool.split)
qed

text \<open>
  C13: A merge always comes to an end. Under a validated configuration and a clock that
  sleeping advances, the whole operation (merge, restack, wait) returns a result or raises;
  the fuel of 1441 polling rounds is never used up.
\<close>

theorem merge_always_returns:
  assumes "validate_config c0 = Inr c" and "clock_ok h" and "WAIT_FUEL \<le> fuel"
  shows "\<exists>a rows' w'. execute_merge fuel h repo rows pr c cl path w = (Some a, rows', w')"
proof -
  have "\<exists>a w'. execute_post_merge_restack fuel h cl repo rws pr c path w1 = (Some a, w')" for rws w1
    using restack_returns [OF validated_ok [OF assms(1)] assms(2,3)] .
  then have some: "execute_post_merge_restack fuel h cl repo rws pr c path w1 = (r, w2) \<Longrightarrow> r \<noteq> None" for rws w1 r w2
    by (metis fst_conv option.distinct(1))
  have "fst (execute_merge fuel h repo rows pr c cl path w) \<noteq> None"
    by (auto simp: execute_merge_def Let_def split: prod.split sum.split dest!: some)
  then show ?thesis by (metis option.exhaust prod.collapse)
qed

section \<open>Witnesses on a simulated host\<close>

text \<open>
  A host whose world is the clock. Every process succeeds without output, the branch requires
  the context \<open>unit\<close>, and the answers for the check runs and the branch are given.
\<close>

definition ok_response :: "jdict \<Rightarrow> response" where
  "ok_response d = \<lparr>rp_status = 200, rp_json = Inr (JObj d), rp_text = ''''\<rparr>"

definition protection_response :: response where
  "protection_response = ok_response [(''protection'', JObj [(''required_status_checks'',
     JObj [(''contexts'', JList [JStr ''unit''])])])]"

definition forbidden_response :: response where
  "forbidden_response = \<lparr>rp_status = 403, rp_json = Inr (JObj []), rp_text = ''Forbidden''\<rparr>"

definition sim_host :: "response \<Rightarrow> string \<Rightarrow> int host" where
  "sim_host branch conclusion = \<lparr>h_run = (\<lambda>cwd cmd w. (Ran 0 [] [], w)), h_unlink = (\<lambda>d p w. (Unlinked, w)),
     h_inside = (\<lambda>d p w. True),
     h_get = (\<lambda>u w. (Inr (
        if suffix ''/check-runs'' u then ok_response [(''check_runs'', JList [JObj [(''name'', JStr ''unit''),
          (''conclusion'', JStr conclusion)]])]
        else if suffix ''/status'' u then ok_response [(''statuses'', JList [])]
        else if suffix ''/branches/main'' u then branch
        else ok_response [(''default_branch'', JStr ''main'')]), w)),
     h_put = (\<lambda>u d w. (Inr (ok_response []), w)), h_time = (\<lambda>w. w), h_sleep = (\<lambda>d w. w + d), h_now = (\<lambda>w. w)\<rparr>"

lemma sim_clock: "clock_ok (sim_host branch conclusion)"
  by (simp add: clock_ok_def sim_host_def)

abbreviation (input) good_host :: "int host" where
  "good_host \<equiv> sim_host protection_response ''success''"



definition queued_pr :: pr_row where
  "queued_pr = sample_pr\<lparr>pr_pk := 2, pr_number := 43, pr_head_branch := ''next'', pr_merge_queue_eligible := True\<rparr>"

definition good_restack :: restack_execution_result where
  "good_restack = (case execute_post_merge_restack 2 good_host GitHub ''o/r'' [sample_pr, queued_pr] sample_pr sample_mq_valid ''repo'' 0
     of (Some (Inr ex), _) \<Rightarrow> ex | _ \<Rightarrow> new_execution None [] [])"

lemma good_restack: "execute_post_merge_restack 2 good_host GitHub ''o/r'' [sample_pr, queued_pr] sample_pr sample_mq_valid ''repo'' 0
    = (Some (Inr good_restack), 0)"
  by code_simp

theorem restack_outcome_witness:
  "stopped_at (ex_steps good_restack) good_restack \<or>
     list_all rs_success (ex_steps good_restack) \<and>
     (ex_success good_restack \<longleftrightarrow> ex_ci_wait_state good_restack = ''success'')"
proof -
  have "select_next_pr_to_restack (pr_project sample_pr) [sample_pr, queued_pr] = Some queued_pr"
    "mq_restack_enabled sample_mq_valid" by code_simp+
  with restack_outcome [OF good_restack] show ?thesis by auto
qed

definition good_merge :: merge_result where
  "good_merge = (case execute_merge 2 good_host ''o/r'' [sample_pr, queued_pr] sample_pr sample_mq_valid GitHub ''repo'' 0
     of (Some (Inr m), _, _) \<Rightarrow> m | _ \<Rightarrow> merge_failed [] [])"

definition merged_rows :: "pr_row list" where
  "merged_rows = fst (snd (execute_merge 2 good_host ''o/r'' [sample_pr, queued_pr] sample_pr sample_mq_valid GitHub ''repo'' 0))"

lemma good_merge:
  "execute_merge 2 good_host ''o/r'' [sample_pr, queued_pr] sample_pr sample_mq_valid GitHub ''repo'' 0
     = (Some (Inr good_merge), merged_rows, 0)"
  "ms_success good_merge"
  by code_simp+

theorem merge_success_means_restacked_witness:
  "\<exists>ex :: restack_execution_result. ex_success ex \<and> ms_ci_wait_state good_merge = ex_ci_wait_state ex"
proof -
  have "mq_restack_enabled sample_mq_valid" "''repo'' \<noteq> []" by code_simp+
  with merge_success_means_restacked [OF good_merge] show ?thesis by auto
qed

definition api_rows :: "pr_row list" where
  "api_rows = fst (snd (attempt_merge good_host ''o/r'' [sample_pr, queued_pr] sample_pr sample_mq_valid GitHub 0))"

definition api_merge :: merge_result where
  "api_merge = merge_ok ''squash'' ''Merged PR #42 via squash''"

lemma api_merge:
  "attempt_merge good_host ''o/r'' [sample_pr, queued_pr] sample_pr sample_mq_valid GitHub 0 = (Inr api_merge, api_rows, 0)"
  "ms_success api_merge" "mq_merge_script sample_mq_valid = []"
  by code_simp+

theorem merged_pr_not_restacked_witness:
  "case select_next_pr_to_restack 7 api_rows of None \<Rightarrow> True | Some next_pr \<Rightarrow> pr_pk next_pr \<noteq> 1"
proof -
  have "pr_pk sample_pr = 1" by code_simp
  with merged_pr_not_restacked [OF api_merge(3,1,2), of 7] show ?thesis by (simp only:)
qed

theorem merge_always_returns_witness:
  "\<exists>a rows' w'. execute_merge WAIT_FUEL good_host ''o/r'' [sample_pr] sample_pr sample_mq_valid GitHub ''repo'' 0
     = (Some a, rows', w')"
  by (rule merge_always_returns [OF sample_mq_validates sim_clock order_refl])

section \<open>Two surprising behaviours\<close>

text \<open>
  When the protection of the branch cannot be read (status 403), there are no required
  contexts: the wait reports that all required checks passed although the only check failed.
\<close>

lemma unreadable_protection_is_green:
  "fst (wait_for_ci_green 1 (sim_host forbidden_response ''failure'') GitHub ''o/r'' sample_pr 900 30 0)
     = Some (Inr (''success'', ''All required checks passed''))"
  by code_simp

text \<open>
  A script merge saves nothing on the merged PR's row: while that row is still open and
  eligible, the restack after the merge chooses the PR that was just merged.
\<close>

lemma script_merge_restacks_itself:
  "map_option (map_sum id ex_pr_number)
     (let pr = sample_pr\<lparr>pr_merge_queue_eligible := True\<rparr>; c = sample_mq_valid\<lparr>mq_merge_script := ''merge.sh''\<rparr> in
      case attempt_merge good_host ''o/r'' [pr] pr c GitHub 0 of
        (Inr m, rows', w1) \<Rightarrow> fst (execute_post_merge_restack 2 good_host GitHub ''o/r'' rows' pr c ''repo'' w1)
      | (Inl e, _, _) \<Rightarrow> Some (Inl e)) = Some (Inr (Some (pr_number sample_pr)))"
  by code_simp

end
