(* ===== verification/JsonText.thy ===== *)
theory JsonText
  imports Prelude
begin

text \<open>
  JSON text, as Python's \<open>json\<close> decoder reads it, and \<open>_extract_json_blob\<close>
  (\<open>review/backends/base.py\<close>), which finds the first JSON object or array in the prose of
  a language model's answer.

  The decoder is a recursive descent over the text. Each function returns the value and
  the rest of the text; \<open>None\<close> is the \<open>JSONDecodeError\<close>. The tokens \<open>NaN\<close> and \<open>Infinity\<close>,
  which Python accepts although they are not JSON, have no value here and are errors.
\<close>

section \<open>Tokens\<close>

definition json_ws :: "char \<Rightarrow> bool" where
  "json_ws c \<longleftrightarrow> (of_char c :: nat) \<in> {32, 9, 10, 13}"

definition skip_ws :: "string \<Rightarrow> string" where
  "skip_ws s = dropWhile json_ws s"

definition hex_value :: "char \<Rightarrow> nat option" where
  "hex_value c = (let n = (of_char c :: nat) in
     if 48 \<le> n \<and> n \<le> 57 then Some (n - 48)
     else if 97 \<le> n \<and> n \<le> 102 then Some (n - 87)
     else if 65 \<le> n \<and> n \<le> 70 then Some (n - 55) else None)"

fun read_hex4 :: "string \<Rightarrow> (nat \<times> string) option" where
  "read_hex4 (a # b # c # d # s) = (case (hex_value a, hex_value b, hex_value c, hex_value d) of
     (Some w, Some x, Some y, Some z) \<Rightarrow> Some (4096 * w + 256 * x + 16 * y + z, s)
   | _ \<Rightarrow> None)"
| "read_hex4 _ = None"

definition utf8 :: "nat \<Rightarrow> string" where
  "utf8 n = (if n < 128 then [char_of n]
     else if n < 2048 then [char_of (192 + n div 64), char_of (128 + n mod 64)]
     else if n < 65536 then [char_of (224 + n div 4096), char_of (128 + n div 64 mod 64), char_of (128 + n mod 64)]
     else [char_of (240 + n div 262144), char_of (128 + n div 4096 mod 64), char_of (128 + n div 64 mod 64),
       char_of (128 + n mod 64)])"

text \<open>\<open>\\uXXXX\<close>: a high surrogate followed by an escaped low one is one code point.\<close>

definition read_unicode :: "string \<Rightarrow> (string \<times> string) option" where
  "read_unicode s = (case read_hex4 s of
     None \<Rightarrow> None
   | Some (u, r) \<Rightarrow>
       if 55296 \<le> u \<and> u \<le> 56319 \<and> take 2 r = [char_of (92 :: nat), CHR ''u''] then
         (case read_hex4 (drop 2 r) of
            Some (v, r2) \<Rightarrow> if 56320 \<le> v \<and> v \<le> 57343
              then Some (utf8 (65536 + (u - 55296) * 1024 + (v - 56320)), r2) else Some (utf8 u, r)
          | None \<Rightarrow> None)
       else Some (utf8 u, r))"

definition simple_escape :: "char \<Rightarrow> char option" where
  "simple_escape c = map_of [(char_of (34 :: nat), char_of (34 :: nat)), (char_of (92 :: nat), char_of (92 :: nat)),
     (CHR ''/'', CHR ''/''), (CHR ''b'', char_of (8 :: nat)), (CHR ''f'', char_of (12 :: nat)),
     (CHR ''n'', char_of (10 :: nat)), (CHR ''r'', char_of (13 :: nat)), (CHR ''t'', char_of (9 :: nat))] c"

text \<open>The characters of a string after its opening quote.\<close>

function (sequential) read_string :: "string \<Rightarrow> (string \<times> string) option" where
  "read_string [] = None"
| "read_string (c # s) = (let n = (of_char c :: nat) in
     if n = 34 then Some ([], s)
     else if n < 32 then None
     else if n = 92 then (case s of [] \<Rightarrow> None | e # r \<Rightarrow>
       (if e = CHR ''u'' then (case read_unicode r of
          Some (out, r2) \<Rightarrow> if length r2 < length r
            then map_option (\<lambda>(t, r3). (out @ t, r3)) (read_string r2) else None
        | None \<Rightarrow> None)
        else (case simple_escape e of
          Some x \<Rightarrow> map_option (\<lambda>(t, r3). (x # t, r3)) (read_string r)
        | None \<Rightarrow> None)))
     else map_option (\<lambda>(t, r). (c # t, r)) (read_string s))"
  by pat_completeness auto
termination by (relation "measure length") auto

text \<open>Numbers: an integer without fraction and exponent, else a float.\<close>

definition span_digits :: "string \<Rightarrow> string \<times> string" where
  "span_digits s = (takeWhile is_digit s, dropWhile is_digit s)"

definition read_fraction :: "string \<Rightarrow> string \<times> string" where
  "read_fraction s = (case s of
     c # r \<Rightarrow> (let (ds, r2) = span_digits r in if c = CHR ''.'' \<and> ds \<noteq> [] then (c # ds, r2) else ([], s))
   | [] \<Rightarrow> ([], s))"

definition read_exponent :: "string \<Rightarrow> string \<times> string" where
  "read_exponent s = (case s of
     c # r \<Rightarrow> if c = CHR ''e'' \<or> c = CHR ''E'' then
         (let sign = (case r of x # _ \<Rightarrow> if x = CHR ''-'' \<or> x = CHR ''+'' then [x] else [] | [] \<Rightarrow> []);
              (ds, r2) = span_digits (drop (length sign) r)
          in if ds \<noteq> [] then (c # sign @ ds, r2) else ([], s))
       else ([], s)
   | [] \<Rightarrow> ([], s))"

definition read_number :: "string \<Rightarrow> (json \<times> string) option" where
  "read_number s = (let neg = (s \<noteq> [] \<and> hd s = CHR ''-''); u = (if neg then tl s else s);
     (ds, r) = (if u \<noteq> [] \<and> hd u = CHR ''0'' then ([CHR ''0''], tl u) else span_digits u) in
     if ds = [] then None
     else (let (fr, r2) = read_fraction r; (ex, r3) = read_exponent r2; sign = (if neg then ''-'' else []) in
       if fr = [] \<and> ex = [] then Some (JInt (if neg then - int (digits_value ds) else int (digits_value ds)), r)
       else map_option (\<lambda>x. (JFloat x, r3)) (parse_float (sign @ ds @ fr @ ex))))"

definition read_literal :: "string \<Rightarrow> (json \<times> string) option" where
  "read_literal s =
     (if take 4 s = ''null'' then Some (JNull, drop 4 s)
      else if take 4 s = ''true'' then Some (JBool True, drop 4 s)
      else if take 5 s = ''false'' then Some (JBool False, drop 5 s)
      else read_number s)"

section \<open>The decoder\<close>

text \<open>
  \<open>scan_value\<close> reads a value, \<open>scan_items\<close> the elements of an array after \<open>[\<close>, and
  \<open>scan_members\<close> the members of an object from its next key. The tests on lengths make the
  recursion well-founded; lemma \<open>scan_shorter\<close> shows that they never fail.
\<close>

definition open_brace :: char where "open_brace = char_of (123 :: nat)"
definition close_brace :: char where "close_brace = char_of (125 :: nat)"
definition open_bracket :: char where "open_bracket = char_of (91 :: nat)"
definition end_bracket :: char where "end_bracket = char_of (93 :: nat)"
definition quote_char :: char where "quote_char = char_of (34 :: nat)"

definition read_key :: "string \<Rightarrow> (string \<times> string) option" where
  "read_key s = (case s of
     c # r \<Rightarrow> if c \<noteq> quote_char then None else
       (case read_string r of None \<Rightarrow> None
        | Some (k, r2) \<Rightarrow> (case skip_ws r2 of
            d # r3 \<Rightarrow> if d = CHR '':'' then Some (k, skip_ws r3) else None
          | [] \<Rightarrow> None))
   | [] \<Rightarrow> None)"

function (sequential) scan_value :: "string \<Rightarrow> (json \<times> string) option"
  and scan_items :: "string \<Rightarrow> (json list \<times> string) option"
  and scan_members :: "jdict \<Rightarrow> string \<Rightarrow> (jdict \<times> string) option"
where
  "scan_value [] = None"
| "scan_value (c # s) =
     (if c = quote_char then map_option (\<lambda>(t, r). (JStr t, r)) (read_string s)
      else if c = open_brace then (case skip_ws s of
          [] \<Rightarrow> None
        | d # r \<Rightarrow> if d = close_brace then Some (JObj [], r)
            else if length (d # r) < length (c # s) then map_option (\<lambda>(m, r). (JObj m, r)) (scan_members [] (d # r)) else None)
      else if c = open_bracket then (case skip_ws s of
          [] \<Rightarrow> None
        | d # r \<Rightarrow> if d = end_bracket then Some (JList [], r)
            else if length (d # r) < length (c # s) then map_option (\<lambda>(xs, r). (JList xs, r)) (scan_items (d # r)) else None)
      else read_literal (c # s))"
| "scan_items s = (case scan_value s of
     None \<Rightarrow> None
   | Some (v, r) \<Rightarrow> (case skip_ws r of
       [] \<Rightarrow> None
     | d # r2 \<Rightarrow> if d = end_bracket then Some ([v], r2)
         else if d = CHR '','' then
           (if length (skip_ws r2) < length s then map_option (\<lambda>(xs, r3). (v # xs, r3)) (scan_items (skip_ws r2)) else None)
         else None))"
| "scan_members m s = (case read_key s of
     None \<Rightarrow> None
   | Some (k, r) \<Rightarrow> if \<not> length r < length s then None else (case scan_value r of
       None \<Rightarrow> None
     | Some (v, r2) \<Rightarrow> (case skip_ws r2 of
         [] \<Rightarrow> None
       | d # r3 \<Rightarrow> if d = close_brace then Some (AList.update k v m, r3)
           else if d = CHR '','' then
             (if length (skip_ws r3) < length s then scan_members (AList.update k v m) (skip_ws r3) else None)
           else None)))"
  by pat_completeness auto
termination
  by (relation "measure (\<lambda>x. case x of Inl s \<Rightarrow> 2 * length s | Inr (Inl s) \<Rightarrow> 2 * length s + 1
      | Inr (Inr (_, s)) \<Rightarrow> 2 * length s + 1)") auto

section \<open>Finding the blob\<close>

definition json_start :: "char \<Rightarrow> bool" where
  "json_start c \<longleftrightarrow> c = open_brace \<or> c = open_bracket"

fun extract_json_blob :: "string \<Rightarrow> json option" where
  "extract_json_blob [] = None"
| "extract_json_blob (c # s) =
     (if json_start c then (case scan_value (c # s) of Some (v, _) \<Rightarrow> Some v | None \<Rightarrow> extract_json_blob s)
      else extract_json_blob s)"


section \<open>Progress\<close>

lemma length_skip_ws: "length (skip_ws s) \<le> length s"
  by (simp add: skip_ws_def length_dropWhile_le)

lemma skip_ws_less: "length r < n \<Longrightarrow> length (skip_ws r) < n"
  using length_skip_ws [of r] by linarith

lemma skip_ws_tail_less: "length r < n \<Longrightarrow> skip_ws r = d # r2 \<Longrightarrow> length r2 < n"
  using length_skip_ws [of r] by simp

lemma read_hex4_shorter: "read_hex4 s = Some (n, r) \<Longrightarrow> length r < length s"
  by (cases s rule: read_hex4.cases) (auto split: option.splits)

lemma read_unicode_shorter: "read_unicode s = Some (t, r) \<Longrightarrow> length r < length s"
  by (auto simp: read_unicode_def split: option.splits if_splits dest!: read_hex4_shorter)

lemma read_string_cases:
  assumes "read_string (c # s) = Some (t, r)"
  shows "r = s \<or> (\<exists>s' t'. length s' \<le> length s \<and> read_string s' = Some (t', r))"
proof -
  have "r = s \<or> (\<exists>t'. read_string s = Some (t', r)) \<or>
      (\<exists>e s1 t'. s = e # s1 \<and> read_string s1 = Some (t', r)) \<or>
      (\<exists>e s1 s2 o1 t'. s = e # s1 \<and> read_unicode s1 = Some (o1, s2) \<and> read_string s2 = Some (t', r))"
    using assms
    by (subst (asm) read_string.simps)
      (auto simp del: read_string.simps simp: Let_def split: if_splits option.splits list.splits)
  then show ?thesis
  proof (elim disjE exE conjE)
    fix e s1 s2 o1 t' assume s: "s = e # s1" and u: "read_unicode s1 = Some (o1, s2)"
      and t: "read_string s2 = Some (t', r)"
    have "length s2 \<le> length s" using read_unicode_shorter [OF u] s by simp
    with t show ?thesis by blast
  next
    fix e s1 t' assume s: "s = e # s1" and t: "read_string s1 = Some (t', r)"
    have "length s1 \<le> length s" using s by simp
    with t show ?thesis by blast
  qed auto
qed

lemma read_string_shorter: "read_string s = Some (t, r) \<Longrightarrow> length r < length s"
proof (induction s arbitrary: t r rule: length_induct)
  case (1 s)
  show ?case
  proof (cases s)
    case (Cons c s1)
    from read_string_cases [OF "1.prems" [unfolded Cons]] show ?thesis
    proof
      assume "\<exists>s' t'. length s' \<le> length s1 \<and> read_string s' = Some (t', r)"
      then obtain s' t' where s': "length s' \<le> length s1" "read_string s' = Some (t', r)" by blast
      then have "length s' < length s" using Cons by simp
      with "1.IH" s'(2) have "length r < length s'" by blast
      then show ?thesis using s'(1) Cons by simp
    qed (use Cons in simp)
  qed (use "1.prems" in simp)
qed

lemma span_digits_shorter: "span_digits s = (ds, r) \<Longrightarrow> length r + length ds = length s"
  unfolding span_digits_def by (metis Pair_inject add.commute length_append takeWhile_dropWhile_id)

lemma read_fraction_le: "read_fraction s = (ds, r) \<Longrightarrow> length r \<le> length s"
  by (auto simp: read_fraction_def Let_def split: list.splits prod.splits if_splits dest: span_digits_shorter)

lemma read_exponent_le: "read_exponent s = (ds, r) \<Longrightarrow> length r \<le> length s"
  by (auto simp: read_exponent_def Let_def split: list.splits prod.splits if_splits dest!: span_digits_shorter)

lemma read_number_shorter: "read_number s = Some (v, r) \<Longrightarrow> length r < length s"
proof -
  assume a: "read_number s = Some (v, r)"
  let ?u = "if s \<noteq> [] \<and> hd s = CHR ''-'' then tl s else s"
  obtain ds r1 where d: "(if ?u \<noteq> [] \<and> hd ?u = CHR ''0'' then ([CHR ''0''], tl ?u) else span_digits ?u) = (ds, r1)"
    by (metis surj_pair)
  obtain fr r2 where f: "read_fraction r1 = (fr, r2)" by fastforce
  obtain ex r3 where e: "read_exponent r2 = (ex, r3)" by fastforce
  have ds: "ds \<noteq> []" and r: "r = r1 \<or> r = r3"
    using a d f e by (auto simp: read_number_def Let_def split: if_splits)
  have "length r1 + length ds \<le> length ?u"
  proof (cases "?u \<noteq> [] \<and> hd ?u = CHR ''0''")
    case True
    then have "Suc (length (tl ?u)) = length ?u" by (cases ?u) simp_all
    with True d show ?thesis by auto
  next
    case False
    with d have "span_digits ?u = (ds, r1)" by simp
    from span_digits_shorter [OF this] show ?thesis by simp
  qed
  moreover have "length ?u \<le> length s" by simp
  moreover have "0 < length ds" using ds by simp
  ultimately have "length r1 < length s" by linarith
  with r read_fraction_le [OF f] read_exponent_le [OF e] show ?thesis by auto
qed

lemma read_literal_shorter:
  assumes "read_literal s = Some (v, r)"
  shows "length r < length s"
proof -
  consider "take 4 s = ''null''" "r = drop 4 s" | "take 4 s = ''true''" "r = drop 4 s"
    | "take 5 s = ''false''" "r = drop 5 s" | "read_number s = Some (v, r)"
    using assms unfolding read_literal_def by (auto split: if_splits)
  then show ?thesis
  proof cases
    case 4
    then show ?thesis by (rule read_number_shorter)
  qed (cases s; simp)+
qed

lemma read_key_shorter: "read_key s = Some (k, r) \<Longrightarrow> length r < length s"
proof -
  assume "read_key s = Some (k, r)"
  then obtain c s' r2 d r3 where c: "s = c # s'" "read_string s' = Some (k, r2)" "skip_ws r2 = d # r3" "r = skip_ws r3"
    by (auto simp: read_key_def split: list.splits if_splits option.splits prod.splits)
  from skip_ws_tail_less [OF read_string_shorter [OF c(2)] c(3)] have "length (skip_ws r3) < length s'"
    by (rule skip_ws_less)
  with c show ?thesis by simp
qed

lemma scan_value_step:
  assumes items: "\<And>s' xs r'. length s' < length s \<Longrightarrow> scan_items s' = Some (xs, r') \<Longrightarrow> length r' < length s'"
    and members: "\<And>m s' m' r'. length s' < length s \<Longrightarrow> scan_members m s' = Some (m', r') \<Longrightarrow> length r' < length s'"
    and "scan_value s = Some (v, r)"
  shows "length r < length s"
proof -
  from assms(3) obtain c s1 where s: "s = c # s1" by (cases s) auto
  have ws: "skip_ws s1 = d # r' \<Longrightarrow> Suc (length r') \<le> length s1" for d r'
    using length_skip_ws [of s1] by simp
  from assms(3) consider t where "read_string s1 = Some (t, r)" | d where "skip_ws s1 = d # r"
    | d r1 m where "skip_ws s1 = d # r1" "scan_members [] (d # r1) = Some (m, r)"
    | d r1 xs where "skip_ws s1 = d # r1" "scan_items (d # r1) = Some (xs, r)"
    | "read_literal s = Some (v, r)"
    unfolding s by (auto simp del: scan_items.simps scan_members.simps split: if_splits list.splits)
  then show ?thesis
  proof cases
    case 1
    then show ?thesis using read_string_shorter s by fastforce
  next
    case 2
    then show ?thesis using ws s by fastforce
  next
    case 3
    then show ?thesis using members [OF _ 3(2)] ws [OF 3(1)] s by simp
  next
    case 4
    then show ?thesis using items [OF _ 4(2)] ws [OF 4(1)] s by simp
  next
    case 5
    then show ?thesis by (rule read_literal_shorter)
  qed
qed

lemma scan_items_step:
  assumes val: "\<And>v r'. scan_value s = Some (v, r') \<Longrightarrow> length r' < length s"
    and items: "\<And>s' xs r'. length s' < length s \<Longrightarrow> scan_items s' = Some (xs, r') \<Longrightarrow> length r' < length s'"
    and i: "scan_items s = Some (xs, r)"
  shows "length r < length s"
proof -
  from i obtain v r1 d r2 where v: "scan_value s = Some (v, r1)" "skip_ws r1 = d # r2"
    by (auto simp del: scan_value.simps split: option.splits list.splits)
  have r2: "length r2 < length s" using skip_ws_tail_less [OF val [OF v(1)] v(2)] .
  from i v have "r = r2 \<or> (\<exists>ys. scan_items (skip_ws r2) = Some (ys, r))"
    by (subst (asm) scan_items.simps) (auto simp del: scan_items.simps split: if_splits)
  then show ?thesis using r2 skip_ws_less [OF r2] items by (metis less_trans)
qed

lemma scan_members_step:
  assumes val: "\<And>s' v r'. length s' < length s \<Longrightarrow> scan_value s' = Some (v, r') \<Longrightarrow> length r' < length s'"
    and members: "\<And>m s' m' r'. length s' < length s \<Longrightarrow> scan_members m s' = Some (m', r') \<Longrightarrow> length r' < length s'"
    and i: "scan_members m s = Some (m', r)"
  shows "length r < length s"
proof -
  from i obtain k r0 v r1 d r2 where k: "read_key s = Some (k, r0)" and v: "scan_value r0 = Some (v, r1)" "skip_ws r1 = d # r2"
    by (subst (asm) scan_members.simps) (auto simp del: scan_value.simps scan_members.simps split: option.splits list.splits if_splits)
  have "length r1 < length s" using val [OF read_key_shorter [OF k] v(1)] read_key_shorter [OF k] by linarith
  then have r2: "length r2 < length s" using v(2) by (rule skip_ws_tail_less)
  from i k v have "r = r2 \<or> (\<exists>m2. scan_members m2 (skip_ws r2) = Some (m', r))"
    by (subst (asm) scan_members.simps) (auto simp del: scan_members.simps split: if_splits)
  then show ?thesis using r2 skip_ws_less [OF r2] members by (metis less_trans)
qed

lemma scan_shorter_below:
  "(\<forall>s v r. length s < n \<longrightarrow> scan_value s = Some (v, r) \<longrightarrow> length r < length s) \<and>
   (\<forall>s xs r. length s < n \<longrightarrow> scan_items s = Some (xs, r) \<longrightarrow> length r < length s) \<and>
   (\<forall>m s m' r. length s < n \<longrightarrow> scan_members m s = Some (m', r) \<longrightarrow> length r < length s)"
proof (induction n)
  case (Suc n)
  have v: "length s < Suc n \<Longrightarrow> scan_value s = Some (v, r) \<Longrightarrow> length r < length s" for s v r
    using Suc.IH by (intro scan_value_step [of s v r]) auto
  have i: "length s < Suc n \<Longrightarrow> scan_items s = Some (xs, r) \<Longrightarrow> length r < length s" for s xs r
    using Suc.IH v by (intro scan_items_step [of s xs r]) auto
  have "length s < Suc n \<Longrightarrow> scan_members m s = Some (m', r) \<Longrightarrow> length r < length s" for m s m' r
    using Suc.IH v by (intro scan_members_step [of s m m' r]) auto
  with v i show ?case by blast
qed simp

lemma scan_shorter:
  "scan_value s = Some (v, r) \<Longrightarrow> length r < length s"
  "scan_items s = Some (xs, r) \<Longrightarrow> length r < length s"
  "scan_members m s = Some (m', r) \<Longrightarrow> length r < length s"
  using scan_shorter_below [of "Suc (length s)"] by blast+


section \<open>The blob that is found\<close>

lemma scan_value_start:
  "scan_value (c # s) = Some (v, r) \<Longrightarrow> json_start c \<Longrightarrow> (\<exists>m. v = JObj m) \<or> (\<exists>xs. v = JList xs)"
proof -
  assume v: "scan_value (c # s) = Some (v, r)" and c: "json_start c"
  have "open_brace \<noteq> quote_char" "open_bracket \<noteq> quote_char" "open_brace \<noteq> open_bracket"
    by (simp_all add: open_brace_def open_bracket_def quote_char_def)
  with v c show ?thesis
    unfolding json_start_def
    by (auto simp del: scan_items.simps scan_members.simps split: if_splits list.splits)
qed

lemma extract_json_blob_first:
  "extract_json_blob s = Some v \<longleftrightarrow> (\<exists>n < length s. json_start (s ! n) \<and>
     (\<exists>r. scan_value (drop n s) = Some (v, r)) \<and>
     (\<forall>m < n. json_start (s ! m) \<longrightarrow> scan_value (drop m s) = None))"
proof (induction s)
  case (Cons c s)
  show ?case
  proof (cases "json_start c \<and> scan_value (c # s) \<noteq> None")
    case True
    then obtain v0 r0 where v0: "scan_value (c # s) = Some (v0, r0)" by auto
    then have "extract_json_blob (c # s) = Some v0" using True by simp
    then show ?thesis
      using True v0 by (auto simp del: scan_value.simps simp: nth_Cons' intro!: exI [of _ 0])
  next
    case False
    then have "extract_json_blob (c # s) = extract_json_blob s"
      by (auto simp del: scan_value.simps split: option.split)
    also have "extract_json_blob s = Some v \<longleftrightarrow> (\<exists>n < Suc (length s). json_start ((c # s) ! n) \<and>
       (\<exists>r. scan_value (drop n (c # s)) = Some (v, r)) \<and>
       (\<forall>m < n. json_start ((c # s) ! m) \<longrightarrow> scan_value (drop m (c # s)) = None))"
      unfolding Cons.IH using False by (auto simp del: scan_value.simps simp: Ex_less_Suc2 All_less_Suc2)
        (metis option.distinct(1))
    finally show ?thesis by simp
  qed
qed simp

text \<open>
  The blob extracted from a model's answer is the first one that decodes: it starts at
  the first brace or bracket from which the decoder succeeds, every earlier one having
  failed, and it is an object or an array, never a bare scalar.
\<close>

theorem first_json_blob:
  "extract_json_blob s = Some v \<Longrightarrow> ((\<exists>m. v = JObj m) \<or> (\<exists>xs. v = JList xs)) \<and>
     (\<exists>n < length s. json_start (s ! n) \<and> (\<exists>r. scan_value (drop n s) = Some (v, r)) \<and>
       (\<forall>m < n. json_start (s ! m) \<longrightarrow> scan_value (drop m s) = None))"
proof -
  assume "extract_json_blob s = Some v"
  then obtain n where n: "n < length s" "json_start (s ! n)" "\<exists>r. scan_value (drop n s) = Some (v, r)"
    "\<forall>m < n. json_start (s ! m) \<longrightarrow> scan_value (drop m s) = None"
    unfolding extract_json_blob_first by blast
  have "drop n s = s ! n # drop (Suc n) s" using n(1) by (rule Cons_nth_drop_Suc [symmetric])
  with n show ?thesis using scan_value_start by metis
qed

definition sample_answer :: string where
  "sample_answer = ''Sure [x] '' @ [open_brace, quote_char] @ ''a'' @ [quote_char] @ '': [1, -2.50]'' @ [close_brace] @ '' bye''"

lemma sample_answer_blob:
  "extract_json_blob sample_answer = Some (JObj [(''a'', JList [JInt 1, JFloat (-5/2)])])"
  by code_simp

theorem first_json_blob_witness:
  "\<exists>n < length sample_answer. json_start (sample_answer ! n) \<and> scan_value (drop n sample_answer) \<noteq> None"
  using first_json_blob [OF sample_answer_blob] by fastforce

end
