(* ===== verification/CIAnalysis.thy ===== *)
theory CIAnalysis
  imports ReadinessStore JsonText
begin

text \<open>
  The analysis of failing checks (\<open>scoring/ci_analysis.py\<close>): which checks also fail on the
  base branch, and what a language model says of the others. Its result is written to the
  PR's row, where the classifier of \<open>CIChecks\<close> reads it.

  The forge client and the language model are parameters. A client method the client does
  not have is \<open>None\<close>; a call that raises returns \<open>None\<close>. The model's calls thread a world,
  so that the same prompt may get different answers.
\<close>

section \<open>The base branch\<close>

record forge_client =
  cl_commit_checks :: "(string \<Rightarrow> string \<Rightarrow> string \<Rightarrow> json list option) option"
  cl_check_outputs :: "(string \<Rightarrow> string \<Rightarrow> string \<Rightarrow> jdict option) option"

definition base_failing_checks :: "forge_client \<Rightarrow> string \<Rightarrow> string \<Rightarrow> string \<Rightarrow> string list" where
  "base_failing_checks client owner repo base_sha = (if base_sha = [] then []
     else (case cl_commit_checks client of
       None \<Rightarrow> []
     | Some getter \<Rightarrow> (case getter owner repo base_sha of
         None \<Rightarrow> []
       | Some raw \<Rightarrow> map chk_name (filter chk_failed (parse_checks (json_objs raw))))))"

definition failing_checks :: "pr_row \<Rightarrow> ci_check list" where
  "failing_checks pr = filter chk_failed (parse_checks (current_checks pr))"

section \<open>The language model\<close>

definition MAX_OUTPUT_CHARS :: nat where "MAX_OUTPUT_CHARS = 4000"
definition MAX_DIFF_CHARS :: nat where "MAX_DIFF_CHARS = 8000"

definition VERDICTS :: "string list" where
  "VERDICTS = [''flake'', ''real-pr'', ''real-pre-existing'']"

definition or_text :: "string \<Rightarrow> string \<Rightarrow> string" where
  "or_text s dflt = (if s = [] then dflt else s)"

definition llm_prompt :: "ci_check \<Rightarrow> string \<Rightarrow> string \<Rightarrow> bool \<Rightarrow> int \<times> int \<Rightarrow> string" where
  "llm_prompt check output_text diff base_failing hist = (let nl = [newline] in
     ''Check: '' @ chk_name check @ nl @
     ''Conclusion: '' @ or_text (chk_conclusion check) ''failure'' @ nl @
     ''Also failing on base branch: '' @ (if base_failing then ''yes'' else ''no'') @ nl @
     ''Past history: flaked '' @ int_str (fst hist) @ ''x, judged real '' @ int_str (snd hist) @ ''x'' @ nl @ nl @
     ''Failure output:'' @ nl @ or_text (take MAX_OUTPUT_CHARS output_text) ''(none available)'' @ nl @ nl @
     ''PR changed code (diff):'' @ nl @ or_text (take MAX_DIFF_CHARS diff) ''(unavailable)'')"

type_synonym 'w backend = "string \<Rightarrow> 'w \<Rightarrow> string option \<times> 'w"

definition verdict_of_answer :: "string \<Rightarrow> sdict option" where
  "verdict_of_answer raw = (case extract_json_blob raw of
     Some (JObj blob) \<Rightarrow> (let verdict = strip (py_str (dict_get (JStr []) blob ''verdict'')) in
       if verdict \<notin> set VERDICTS then None
       else Some [(''verdict'', verdict),
         (''reason'', py_str (jor (dict_get (JStr []) blob ''reason'') (JStr []))), (''source'', ''llm'')])
   | _ \<Rightarrow> None)"

definition llm_verdict_for ::
    "'w backend \<Rightarrow> ci_check \<Rightarrow> string \<Rightarrow> string \<Rightarrow> bool \<Rightarrow> int \<times> int \<Rightarrow> 'w \<Rightarrow> sdict option \<times> 'w" where
  "llm_verdict_for ask check output_text diff base_failing hist w = (
     let (answer, w1) = ask (llm_prompt check output_text diff base_failing hist) w in
     (case answer of None \<Rightarrow> None | Some raw \<Rightarrow> verdict_of_answer raw, w1))"

section \<open>The analysis\<close>

definition base_verdict :: sdict where
  "base_verdict = [(''verdict'', ''real-pre-existing''), (''reason'', ''also failing on the base branch''),
     (''source'', ''base'')]"

text \<open>The loop over the failing checks; one that has a verdict already is not asked about.\<close>

fun ask_about ::
    "'w backend \<Rightarrow> flake_history \<Rightarrow> (string \<times> string) list \<Rightarrow> string \<Rightarrow> string list \<Rightarrow> ci_check list
       \<Rightarrow> verdict_map \<Rightarrow> 'w \<Rightarrow> verdict_map \<times> 'w" where
  "ask_about ask hist outputs diff base [] verdicts w = (verdicts, w)"
| "ask_about ask hist outputs diff base (c # cs) verdicts w =
     (if map_of verdicts (chk_name c) \<noteq> None then ask_about ask hist outputs diff base cs verdicts w
      else (case llm_verdict_for ask c (dict_get [] outputs (chk_name c)) diff (chk_name c \<in> set base)
              (dict_get (0, 0) hist (chk_name c)) w of
          (None, w1) \<Rightarrow> ask_about ask hist outputs diff base cs verdicts w1
        | (Some v, w1) \<Rightarrow> ask_about ask hist outputs diff base cs (AList.update (chk_name c) v verdicts) w1))"

definition check_outputs ::
    "forge_client option \<Rightarrow> string \<Rightarrow> string \<Rightarrow> string \<Rightarrow> (string \<times> string) list option \<Rightarrow> (string \<times> string) list" where
  "check_outputs client owner repo head_sha outputs = (case (outputs, client) of
     (Some given, _) \<Rightarrow> given
   | (None, None) \<Rightarrow> []
   | (None, Some cl) \<Rightarrow> (case cl_check_outputs cl of
       None \<Rightarrow> []
     | Some fetch \<Rightarrow> (case fetch owner repo head_sha of None \<Rightarrow> [] | Some d \<Rightarrow> str_values d)))"

text \<open>
  \<open>backend\<close> is the metered call of the configured backend, \<open>None\<close> when no backend is
  configured or it has no such call. The set of base failures is kept sorted.
\<close>

definition base_explained :: "forge_client option \<Rightarrow> string \<Rightarrow> string \<Rightarrow> pr_row \<Rightarrow> string list" where
  "base_explained client owner repo pr = (case client of
     None \<Rightarrow> []
   | Some cl \<Rightarrow> sorted_set (filter (\<lambda>n. n \<in> set (map chk_name (failing_checks pr)))
       (base_failing_checks cl owner repo (pr_base_sha pr))))"

definition stored_verdicts :: "verdict_map \<Rightarrow> json" where
  "stored_verdicts vs = JObj (map (\<lambda>(n, v). (n, JObj (map (\<lambda>(k, s). (k, JStr s)) v))) vs)"

definition analysis_verdicts ::
    "forge_client option \<Rightarrow> string \<Rightarrow> string \<Rightarrow> bool \<Rightarrow> 'w backend option \<Rightarrow> history_row list \<Rightarrow> string
       \<Rightarrow> (string \<times> string) list option \<Rightarrow> pr_row \<Rightarrow> 'w \<Rightarrow> verdict_map \<times> 'w" where
  "analysis_verdicts client owner repo use_llm backend rows diff outputs pr w = (
     let base = base_explained client owner repo pr;
         verdicts = map (\<lambda>n. (n, base_verdict)) base in
     case (if use_llm then backend else None) of
       None \<Rightarrow> (verdicts, w)
     | Some ask \<Rightarrow> ask_about ask (check_history_for (pr_project pr) rows)
         (check_outputs client owner repo (pr_head_sha pr) outputs) diff base (failing_checks pr) verdicts w)"

definition analyze_pr_ci ::
    "forge_client option \<Rightarrow> string \<Rightarrow> string \<Rightarrow> bool \<Rightarrow> 'w backend option \<Rightarrow> history_row list \<Rightarrow> string
       \<Rightarrow> (string \<times> string) list option \<Rightarrow> pr_row \<Rightarrow> 'w \<Rightarrow> jdict \<times> pr_row \<times> 'w" where
  "analyze_pr_ci client owner repo use_llm backend rows diff outputs pr w =
     (if failing_checks pr = [] then ([], pr\<lparr>pr_ci_analysis := []\<rparr>, w)
      else (let (verdicts, w1) = analysis_verdicts client owner repo use_llm backend rows diff outputs pr w;
          analysis = [(''sha'', JStr (pr_head_sha pr)),
            (''base_failing'', JList (map JStr (base_explained client owner repo pr))),
            (''verdicts'', stored_verdicts verdicts)]
        in (analysis, pr\<lparr>pr_ci_analysis := analysis\<rparr>, w1)))"

section \<open>Lemmas\<close>

lemma strs_of_JStr: "concat (map (\<lambda>n. case n of JStr s \<Rightarrow> [s] | _ \<Rightarrow> []) (map JStr xs)) = xs"
  by (induction xs) simp_all

lemma verdict_of_answer_valid: "verdict_of_answer raw = Some v \<Longrightarrow>
    (\<exists>k. k \<in> set VERDICTS \<and> map_of v ''verdict'' = Some k) \<and> map_of v ''source'' = Some ''llm''"
  by (auto simp: verdict_of_answer_def Let_def split: option.splits json.splits if_splits)

lemma llm_verdict_valid: "llm_verdict_for ask c out diff b hist w = (Some v, w1) \<Longrightarrow>
    (\<exists>k. k \<in> set VERDICTS \<and> map_of v ''verdict'' = Some k) \<and> map_of v ''source'' = Some ''llm''"
  by (auto simp: llm_verdict_for_def Let_def split: prod.splits option.splits dest: verdict_of_answer_valid)

lemma ask_about_keeps: "map_of verdicts n = Some v \<Longrightarrow>
    map_of (fst (ask_about ask hist outputs diff base cs verdicts w)) n = Some v"
proof (induction cs arbitrary: verdicts w)
  case (Cons c cs)
  have "map_of verdicts (chk_name c) = None \<Longrightarrow> map_of (AList.update (chk_name c) u verdicts) n = Some v" for u
    using Cons.prems by auto
  with Cons show ?case by (auto split: prod.split option.split)
qed simp

text \<open>Every verdict of the result was there before, or is a valid answer about a failing check.\<close>

lemma ask_about_sound: "map_of (fst (ask_about ask hist outputs diff base cs verdicts w)) n = Some v \<Longrightarrow>
    map_of verdicts n = Some v \<or> (map_of verdicts n = None \<and> n \<in> set (map chk_name cs) \<and>
      (\<exists>k. k \<in> set VERDICTS \<and> map_of v ''verdict'' = Some k) \<and> map_of v ''source'' = Some ''llm'')"
proof (induction cs arbitrary: verdicts w)
  case (Cons c cs)
  show ?case
  proof (cases "map_of verdicts (chk_name c)")
    case (Some x)
    with Cons show ?thesis by fastforce
  next
    case None
    obtain r w1 where r: "llm_verdict_for ask c (dict_get [] outputs (chk_name c)) diff (chk_name c \<in> set base)
        (dict_get (0, 0) hist (chk_name c)) w = (r, w1)" by fastforce
    show ?thesis
    proof (cases r)
      case None
      with Cons r \<open>map_of verdicts (chk_name c) = None\<close> show ?thesis by fastforce
    next
      case (Some u)
      with Cons.prems r None have
        "map_of (fst (ask_about ask hist outputs diff base cs (AList.update (chk_name c) u verdicts) w1)) n = Some v"
        by simp
      from Cons.IH [OF this] llm_verdict_valid [OF r [unfolded Some]] None show ?thesis
        by (auto split: if_splits)
    qed
  qed
qed simp


lemma ask_about_useless:
  assumes "\<And>p w. case fst (ask p w) of None \<Rightarrow> True | Some raw \<Rightarrow> verdict_of_answer raw = None"
  shows "fst (ask_about ask hist outputs diff base cs verdicts w) = verdicts"
proof (induction cs arbitrary: verdicts w)
  case (Cons c cs)
  have "fst (llm_verdict_for ask c o1 diff b h w) = None" for o1 b and h :: "int \<times> int"
    using assms [of "llm_prompt c o1 diff b h" w]
    by (auto simp: llm_verdict_for_def Let_def split: prod.splits option.splits)
  then have none: "llm_verdict_for ask c o1 diff b h w = (Some v, w1) \<Longrightarrow> False" for o1 b v w1 and h :: "int \<times> int"
    by (metis fst_conv option.distinct(1))
  show ?case using Cons.IH by (auto split: prod.split option.split dest: none)
qed simp

lemma str_values_JStr: "str_values (map (\<lambda>p. (fst p, JStr (snd p))) v) = v"
  by (induction v) (auto simp: str_values_def)

lemma verdicts_keep_base:
  "n \<in> set (base_explained client owner repo pr) \<Longrightarrow>
     map_of (fst (analysis_verdicts client owner repo use_llm backend rows diff outputs pr w)) n = Some base_verdict"
proof -
  assume n: "n \<in> set (base_explained client owner repo pr)"
  have "map_of (map (\<lambda>n. (n, base_verdict)) xs) n = (if n \<in> set xs then Some base_verdict else None)" for xs
    by (induction xs) auto
  with n show ?thesis
    by (auto simp: analysis_verdicts_def Let_def split: option.split intro!: ask_about_keeps)
qed

lemma analyzed_row:
  "current_ci_analysis (fst (snd (analyze_pr_ci client owner repo use_llm backend rows diff outputs pr w))) =
     (if failing_checks pr = [] then ([], [])
      else (base_explained client owner repo pr,
        fst (analysis_verdicts client owner repo use_llm backend rows diff outputs pr w)))"
proof (cases "failing_checks pr = []")
  case True
  then show ?thesis by (simp add: analyze_pr_ci_def current_ci_analysis_def)
next
  case False
  then show ?thesis
    by (auto simp: analyze_pr_ci_def current_ci_analysis_def Let_def jget_def dict_get_def stored_verdicts_def
        strs_of_JStr [simplified map_map] comp_def split_def str_values_JStr
        split: prod.split)
qed


section \<open>Properties\<close>

text \<open>
  Every verdict is about a check that fails on the PR's head, and says where it comes
  from: a failure that the base branch shares is pre-existing, by the base comparison, even
  if a language model was at hand; any other verdict is one of the three known ones, given
  by the model.
\<close>

theorem verdicts_are_accounted_for:
  "list_all (\<lambda>(n, _). case map_of (fst (analysis_verdicts client owner repo use_llm backend rows diff outputs pr w)) n of
      None \<Rightarrow> False
    | Some v \<Rightarrow> n \<in> set (map chk_name (failing_checks pr)) \<and>
        (if n \<in> set (base_explained client owner repo pr) then v = base_verdict
         else use_llm \<and> backend \<noteq> None \<and> map_of v ''source'' = Some ''llm'' \<and>
           list_ex (\<lambda>k. map_of v ''verdict'' = Some k) VERDICTS))
     (fst (analysis_verdicts client owner repo use_llm backend rows diff outputs pr w))"
proof -
  let ?vs = "fst (analysis_verdicts client owner repo use_llm backend rows diff outputs pr w)"
  let ?base = "base_explained client owner repo pr"
  have m: "map_of (map (\<lambda>n. (n, base_verdict)) xs) n = (if n \<in> set xs then Some base_verdict else None)" for xs n
    by (induction xs) auto
  have base: "n \<in> set ?base \<Longrightarrow> n \<in> set (map chk_name (failing_checks pr))" for n
    by (auto simp: base_explained_def split: option.splits)
  {
    fix n v assume v: "map_of ?vs n = Some v"
    have "n \<in> set (map chk_name (failing_checks pr)) \<and> (if n \<in> set ?base then v = base_verdict
         else use_llm \<and> backend \<noteq> None \<and> map_of v ''source'' = Some ''llm'' \<and> list_ex (\<lambda>k. map_of v ''verdict'' = Some k) VERDICTS)"
    proof (cases "n \<in> set ?base")
      case True
      with v base show ?thesis using verdicts_keep_base [OF True, of use_llm backend rows diff outputs w] by simp
    next
      case False
      obtain ask where a: "use_llm" "backend = Some ask"
        using v False by (auto simp: analysis_verdicts_def Let_def m split: option.splits if_splits)
      with v False show ?thesis
        by (auto simp: analysis_verdicts_def Let_def m list_ex_iff dest!: ask_about_sound)
    qed
  }
  moreover have "p \<in> set ?vs \<Longrightarrow> \<exists>v. map_of ?vs (fst p) = Some v" for p
    by (metis map_of_eq_None_iff image_eqI not_None_eq)
  ultimately show ?thesis by (fastforce simp: list_all_iff split: option.split)
qed

text \<open>
  A failure that the base branch shares is never held against the PR: after the analysis
  its flake confidence is 0.9, above the threshold, whatever the history and the patterns say.
\<close>

theorem shared_failure_excused:
  assumes "failing_checks pr \<noteq> []" and "chk_name c \<in> set (base_explained client owner repo pr)"
  shows "fst (flake_confidence (flake_context_for pc hist
      (fst (snd (analyze_pr_ci client owner repo use_llm backend rows diff outputs pr w)))) c) = 9/10
    \<and> FLAKE_THRESHOLD \<le> 9/10"
proof -
  have "map_of ANALYSIS_VERDICT_CONFIDENCE ''real-pre-existing'' = Some (9/10)" by code_simp
  then show ?thesis
    using assms
    by (simp add: flake_context_for_def analyzed_row flake_confidence_def analysis_override_def
        verdicts_keep_base base_verdict_def FLAKE_THRESHOLD_def)
qed

text \<open>
  Every failure of the analysis degrades to no analysis. When the base branch explains
  nothing (no client, no such call, a failed fetch) and no answer of the model is usable (the
  call raises, the text holds no object, the verdict is unknown), the row is classified as if
  it had never been analysed.
\<close>

theorem failed_analysis_changes_nothing:
  assumes "base_explained client owner repo pr = []"
    and "\<And>ask p w. backend = Some ask \<Longrightarrow>
      (case fst (ask p w) of None \<Rightarrow> True | Some raw \<Rightarrow> verdict_of_answer raw = None)"
  shows "row_ci pc hist (fst (snd (analyze_pr_ci client owner repo use_llm backend rows diff outputs pr w)))
    = row_ci pc hist (pr\<lparr>pr_ci_analysis := []\<rparr>)"
proof -
  let ?pr = "fst (snd (analyze_pr_ci client owner repo use_llm backend rows diff outputs pr w))"
  have "fst (analysis_verdicts client owner repo use_llm backend rows diff outputs pr w) = []"
    using assms by (auto simp: analysis_verdicts_def Let_def ask_about_useless split: option.split)
  then have a: "current_ci_analysis ?pr = ([], [])" using assms(1) by (simp add: analyzed_row)
  have "\<exists>an. ?pr = pr\<lparr>pr_ci_analysis := an\<rparr>"
    by (auto simp: analyze_pr_ci_def Let_def split: prod.split)
  then obtain an where an: "?pr = pr\<lparr>pr_ci_analysis := an\<rparr>" ..
  have "current_ci_analysis (pr\<lparr>pr_ci_analysis := []\<rparr>) = ([], [])" by (simp add: current_ci_analysis_def)
  with a an show ?thesis
    by (simp add: row_ci_def flake_context_for_def current_checks_def)
qed

definition sample_forge :: forge_client where
  "sample_forge = \<lparr>cl_commit_checks = Some (\<lambda>o1 r s. Some [JObj [(''name'', JStr ''unit''), (''conclusion'', JStr ''failure'')]]),
     cl_check_outputs = None\<rparr>"

theorem shared_failure_excused_witness:
  "\<exists>c pr pc. fst (flake_confidence (flake_context_for pc [] pr) c) = 9/10 \<and> chk_name c = ''unit''"
proof -
  have f: "failing_checks sample_pr \<noteq> []" by code_simp
  have b: "chk_name (hd (failing_checks sample_pr)) \<in> set (base_explained (Some sample_forge) ''o'' ''r'' sample_pr)"
    by code_simp
  have "chk_name (hd (failing_checks sample_pr)) = ''unit''" by code_simp
  with shared_failure_excused [OF f b, of _ "[]" False None "[]" "[]" None "()"] show ?thesis by blast
qed

theorem failed_analysis_changes_nothing_witness:
  "row_ci sample_config [] (fst (snd (analyze_pr_ci None ''o'' ''r'' True
      (Some (\<lambda>p (w :: nat). (if w = 0 then None else Some ''no idea'', Suc w))) [] [] None sample_pr 0)))
    = row_ci sample_config [] (sample_pr\<lparr>pr_ci_analysis := []\<rparr>)"
proof (rule failed_analysis_changes_nothing)
  show "base_explained None ''o'' ''r'' sample_pr = []" by code_simp
  have "verdict_of_answer ''no idea'' = None" by code_simp
  then show "Some (\<lambda>p (w :: nat). (if w = 0 then None else Some ''no idea'', Suc w)) = Some ask \<Longrightarrow>
      (case fst (ask p w) of None \<Rightarrow> True | Some raw \<Rightarrow> verdict_of_answer raw = None)" for ask p w
    by auto
qed

end
