(* ===== verification/Scorer.thy ===== *)
theory Scorer
  imports Signals
begin

text \<open>
  The interest score (\<open>scoring/scorer.py\<close>, \<open>scoring/sandbox.py\<close>): every signal of
  \<open>Signals\<close> that fires adds its points, scaled by the project's weight overrides, to a
  breakdown whose sum is normalised to a score between 0 and 1.

  The PR and the project are the dictionaries the code gets; the keyword arguments are a
  record. The expression evaluator (\<open>simpleeval\<close>) and \<open>datetime.fromisoformat\<close> are fields of
  it. The fixed order of the code's calls is the order of the list of signals.
\<close>

definition get_list :: "jdict \<Rightarrow> string \<Rightarrow> string list" where
  "get_list d key = (let v = jget d key in
     if \<not> truthy v then [] else (case v of JStr s \<Rightarrow> [s] | JList xs \<Rightarrow> map py_str xs | _ \<Rightarrow> []))"

record score_args =
  sa_known_authors :: "string list"
  sa_blame_data :: "jdict list option"
  sa_review_history :: "sdict list option"
  sa_custom_expressions :: "string list"
  sa_collaborator_scores :: "(string \<times> rat option) list"
  sa_recent_reviews :: "sdict list option"
  sa_review_posted_at :: string
  sa_author_replies :: "string list option"
  sa_downstream_apis :: tracked_apis
  sa_sentry_error_count :: "int option"
  sa_cve_affected_files :: "string list option"
  sa_draft_findings_count :: "int option"
  sa_comment_bodies :: "string list"
  sa_comment_events :: "sdict list option"
  sa_simple_eval :: "string \<Rightarrow> jdict \<Rightarrow> jdict \<Rightarrow> json option"
  sa_fromiso :: "string \<Rightarrow> datetime option"

definition text_field :: "jdict \<Rightarrow> string \<Rightarrow> string" where
  "text_field d key = py_str (dict_get (JStr []) d key)"

definition value_error :: exn where
  "value_error = Exn ''ValueError'' ''could not convert''"

section \<open>Custom expressions\<close>

text \<open>\<open>evaluate_custom_score\<close>: any failure of the evaluator or of \<open>float\<close> is no score.\<close>

definition evaluate_custom_score :: "(string \<Rightarrow> jdict \<Rightarrow> jdict \<Rightarrow> json option) \<Rightarrow> string \<Rightarrow> jdict \<Rightarrow> jdict \<Rightarrow> rat option" where
  "evaluate_custom_score simple_eval expression pr config = (
     if expression = [] \<or> strip expression = [] then None
     else (case simple_eval (strip expression) pr config of
       None \<Rightarrow> None
     | Some r \<Rightarrow> map_option (\<lambda>v. max (- 1) (min 1 (py_round_to 4 v))) (py_float r)))"

definition max_boost :: "jdict \<Rightarrow> int" where
  "max_boost config = (case dict_get (JInt 30) config ''custom_scoring_max_boost'' of
     JInt i \<Rightarrow> i | JFloat x \<Rightarrow> py_trunc x | JBool b \<Rightarrow> (if b then 1 else 0) | _ \<Rightarrow> 30)"

definition custom_points :: "score_args \<Rightarrow> jdict \<Rightarrow> jdict \<Rightarrow> string \<Rightarrow> int option" where
  "custom_points sa pr config expr = map_option (\<lambda>r. py_round (r * of_int (max_boost config)))
     (evaluate_custom_score (sa_simple_eval sa) expr pr config)"

definition custom_signals :: "score_args \<Rightarrow> jdict \<Rightarrow> jdict \<Rightarrow> (string \<times> int option) list" where
  "custom_signals sa pr config = map (\<lambda>(i, expr). (''custom_'' @ nat_str i, custom_points sa pr config expr))
     (enumerate 0 (sa_custom_expressions sa))"

section \<open>Weights\<close>

text \<open>\<open>weights.update({k: round(float(v)) ...})\<close>; \<open>Inl\<close> is the exception of \<open>float\<close>.\<close>

fun override_weights :: "jdict \<Rightarrow> (string \<times> int) list \<Rightarrow> exn + (string \<times> int) list" where
  "override_weights [] ws = Inr ws"
| "override_weights ((k, v) # rest) ws = (case py_float v of
     None \<Rightarrow> Inl value_error
   | Some x \<Rightarrow> override_weights rest (AList.update k (py_round x) ws))"

definition project_weights :: "jdict \<Rightarrow> exn + (string \<times> int) list" where
  "project_weights config = (case jget config ''scoring_weights'' of
     JObj ov \<Rightarrow> override_weights ov WEIGHTS | _ \<Rightarrow> Inr WEIGHTS)"

definition scaled :: "(string \<times> int) list \<Rightarrow> string \<Rightarrow> int \<Rightarrow> rat" where
  "scaled ws name v = (case (map_of WEIGHTS name, map_of ws name) of
     (Some default_w, Some override_w) \<Rightarrow>
       if default_w \<noteq> 0 \<and> default_w \<noteq> override_w then of_int v * (of_int override_w / of_int default_w) else of_int v
   | _ \<Rightarrow> of_int v)"

type_synonym breakdown = "(string \<times> rat) list"

definition add_signal :: "(string \<times> int) list \<Rightarrow> breakdown \<Rightarrow> string \<times> int option \<Rightarrow> breakdown" where
  "add_signal ws b signal = (case signal of (name, v) \<Rightarrow>
     (case v of None \<Rightarrow> b | Some p \<Rightarrow> AList.update name (scaled ws name p) b))"

section \<open>The signals\<close>

fun llm_label :: "json \<Rightarrow> exn + string option" where
  "llm_label (JStr s) = Inr (Some s)"
| "llm_label v = (if truthy v then Inl attr_error else Inr None)"

definition hours_value :: "jdict \<Rightarrow> rat option" where
  "hours_value pr = (case jget pr ''hours_since_update'' of
     JInt i \<Rightarrow> Some (of_int i) | JFloat x \<Rightarrow> Some x | JBool b \<Rightarrow> Some (if b then 1 else 0) | _ \<Rightarrow> None)"

definition mergeable_value :: "jdict \<Rightarrow> bool option" where
  "mergeable_value pr = (case jget pr ''mergeable'' of JBool b \<Rightarrow> Some b | _ \<Rightarrow> None)"

definition priority_authors :: "jdict \<Rightarrow> string \<Rightarrow> string list" where
  "priority_authors config op = (let ps = get_list config ''jira_priority_authors'' in
     if ps = [] \<and> op \<noteq> [] then [op] else ps)"

definition jira_cache_of :: "jdict \<Rightarrow> jdict option" where
  "jira_cache_of pr = (case jget pr ''jira_cache'' of JObj d \<Rightarrow> Some d | _ \<Rightarrow> None)"

definition mention_points :: "jdict \<Rightarrow> string \<Rightarrow> score_args \<Rightarrow> int option" where
  "mention_points pr op sa = score_mentioned_or_assigned (str_or pr ''body'' []) (get_list pr ''assignees'') op (sa_comment_bodies sa)"

definition content_signals :: "jdict \<Rightarrow> jdict \<Rightarrow> string \<Rightarrow> score_args \<Rightarrow> string option \<Rightarrow> (string \<times> int option) list" where
  "content_signals pr config op sa label = (let author = text_field pr ''author''; agents = get_list config ''ai_agents'' in
     [(''path_overlap'', score_path_overlap (get_list pr ''changed_files'') (get_list config ''watched_paths'')),
      (''mentioned_or_assigned'', mention_points pr op sa),
      (''has_review_request'', score_has_review_request (get_list pr ''requested_reviewers'') op),
      (''new_human_contributor'', score_new_human_contributor author op (sa_known_authors sa) agents (str_or pr ''author_association'' [])),
      (''keyword_match'', score_keyword_match (str_or pr ''title'' []) (str_or pr ''body'' []) (get_list config ''watch_keywords'')),
      (''ai_generated'', score_ai_generated author agents),
      (''llm_interest'', score_llm_interest label),
      (''recently_updated'', score_recently_updated (hours_value pr)),
      (''merge_conflict'', score_merge_conflict (mergeable_value pr))])"

definition people_signals :: "jdict \<Rightarrow> jdict \<Rightarrow> string \<Rightarrow> score_args \<Rightarrow> (string \<times> int option) list" where
  "people_signals pr config op sa = (let author = text_field pr ''author''; files = get_list pr ''changed_files'' in
     [(''collaborator'', compute_collaborator_score author op (case sa_review_history sa of None \<Rightarrow> [] | Some h \<Rightarrow> h)
         (get_list config ''frequent_contributors'') (sa_collaborator_scores sa)),
      (''prior_review_history'', Option.bind (sa_review_history sa) (score_prior_review_history author op)),
      (''touches_operator_code'', Option.bind (sa_blame_data sa) (\<lambda>b. score_touches_operator_code b op)),
      (''cve_file_history'', Option.bind (sa_cve_affected_files sa) (score_cve_file_history files)),
      (''committer_is_on_it'', Option.bind (sa_recent_reviews sa) (\<lambda>rr. score_committer_is_on_it rr op
         (get_list config ''committers'') (get_list config ''watched_paths'') files (mention_points pr op sa \<noteq> None)))])"

definition activity_signals :: "jdict \<Rightarrow> jdict \<Rightarrow> string \<Rightarrow> score_args \<Rightarrow> int option \<Rightarrow> (string \<times> int option) list" where
  "activity_signals pr config op sa since_review = (
     let cache = jira_cache_of pr; prio = priority_authors config op; jira = truthy (jget config ''jira_enabled'') in
     [(''updated_since_operator_review'', since_review),
      (''pending_response'', Option.bind (sa_author_replies sa) (score_pending_response (Some (sa_review_posted_at sa)))),
      (''author_awaiting_maintainer'', Option.bind (sa_comment_events sa) (\<lambda>evs. score_author_awaiting_maintainer evs
         (text_field pr ''author'') op (get_list config ''committers'') (str_or config ''owner'' []))),
      (''downstream_impact'', score_downstream_impact (get_list pr ''changed_files'') (text_field pr ''diff_text'')
         (sa_downstream_apis sa) (weight ''downstream_impact'')),
      (''sentry_errors'', Option.bind (sa_sentry_error_count sa) (\<lambda>n. if 0 < n then Some (weight ''sentry_errors'') else None)),
      (''draft_findings'', score_draft_findings (sa_draft_findings_count sa)),
      (''jira_linked'', if jira then score_jira_linked cache else None),
      (''jira_priority_author_created'', if jira then score_jira_priority_author_created cache prio else None),
      (''jira_priority_author_commented'', if jira then score_jira_priority_author_commented cache prio else None)])"

definition built_in_signals ::
    "jdict \<Rightarrow> jdict \<Rightarrow> string \<Rightarrow> score_args \<Rightarrow> string option \<Rightarrow> int option \<Rightarrow> (string \<times> int option) list" where
  "built_in_signals pr config op sa label since_review =
     content_signals pr config op sa label @ people_signals pr config op sa @ activity_signals pr config op sa since_review"

section \<open>The score\<close>

definition breakdown_of :: "(string \<times> int) list \<Rightarrow> (string \<times> int option) list \<Rightarrow> breakdown" where
  "breakdown_of ws signals = foldl (add_signal ws) [] signals"

definition total_points :: "breakdown \<Rightarrow> rat" where
  "total_points b = sum_list (map snd b)"

definition score_pull_request :: "jdict \<Rightarrow> jdict \<Rightarrow> string \<Rightarrow> score_args \<Rightarrow> exn + (rat \<times> breakdown)" where
  "score_pull_request pr config op sa =
     bind_sum (project_weights config) (\<lambda>ws.
     bind_sum (llm_label (jget pr ''llm_interest'')) (\<lambda>label.
     bind_sum (score_updated_since_operator_review (sa_fromiso sa) (sa_review_posted_at sa)
         (let u = jget pr ''github_updated_at'' in if truthy u then py_str u else [])) (\<lambda>since_review.
       let b = breakdown_of ws (built_in_signals pr config op sa label since_review @ custom_signals sa pr config)
       in Inr (unit_score MAX_SCORE (total_points b), b))))"


section \<open>No signal exceeds its weight\<close>

definition within_weight :: "string \<times> int option \<Rightarrow> bool" where
  "within_weight signal = (case signal of (name, v) \<Rightarrow>
     (case v of None \<Rightarrow> True | Some p \<Rightarrow> min 0 (weight name) \<le> p \<and> p \<le> max 0 (weight name)))"

lemma within_None [simp]: "within_weight (name, None)"
  by (simp add: within_weight_def)

lemma within_full [simp]: "within_weight (name, Some (weight name))"
  by (simp add: within_weight_def)

lemma within_if [simp]: "within_weight (name, if b then x else y) \<longleftrightarrow> (if b then within_weight (name, x) else within_weight (name, y))"
  by simp

lemma weight_values:
  "weight ''path_overlap'' = 30" "weight ''recently_updated'' = 20" "weight ''collaborator'' = 15"
  "weight ''touches_operator_code'' = 20" "weight ''cve_file_history'' = 25" "weight ''llm_interest'' = 20"
  by code_simp+

text \<open>A positive weight times a fraction of at most 1, rounded.\<close>

lemma within_fraction:
  assumes "weight name = int k" and "0 \<le> x" and "x \<le> 1"
  shows "within_weight (name, Some (py_round (of_int (weight name) * x)))"
proof -
  have "0 \<le> of_int (weight name) * x" using assms by simp
  then have "0 \<le> py_round (of_int (weight name) * x)" using py_round_ge_int [of 0] by simp
  moreover have "of_int (weight name) * x \<le> of_int (weight name)" using assms by (simp add: mult_left_le)
  then have "py_round (of_int (weight name) * x) \<le> weight name" by (rule py_round_le_int)
  ultimately show ?thesis using assms(1) by (simp add: within_weight_def)
qed

lemma within_quotient:
  assumes "weight name = int k" and "0 \<le> a" and "a \<le> b"
  shows "within_weight (name, Some (py_round (of_int (weight name) * a / b)))"
proof -
  have "a / b \<le> 1" using assms by (cases "b = 0") (simp_all add: divide_le_eq)
  then show ?thesis using within_fraction [OF assms(1), of "a / b"] assms by simp
qed

lemma path_overlap_unit: "0 \<le> path_overlap_fraction fs ws \<and> path_overlap_fraction fs ws \<le> 1"
  by (simp add: path_overlap_fraction_def divide_le_eq)

lemma within_path_overlap: "within_weight (''path_overlap'', score_path_overlap fs ws)"
  using within_fraction [of "''path_overlap''" 30] path_overlap_unit [of fs ws]
  by (simp add: score_path_overlap_def weight_values Let_def)

lemma within_recently: "within_weight (''recently_updated'', score_recently_updated h)"
  by (auto simp: score_recently_updated_def within_weight_def weight_values Let_def split: option.split)

lemma within_llm: "within_weight (''llm_interest'', score_llm_interest l)"
  by (auto simp: score_llm_interest_def within_weight_def weight_values split: option.split)

lemma within_cve: "within_weight (''cve_file_history'', score_cve_file_history fs cve)"
  using within_quotient [of "''cve_file_history''" 25]
  by (simp add: score_cve_file_history_def weight_values Let_def)

lemma blame_credit_unit: "0 \<le> blame_credit op e \<and> blame_credit op e \<le> 1"
  by (simp add: blame_credit_def)

lemma blame_total: "0 \<le> sum_list (map (blame_credit op) es) \<and> sum_list (map (blame_credit op) es) \<le> of_nat (length es)"
  using blame_credit_unit by (induction es) (auto simp: add_mono add_nonneg_nonneg add.commute)

lemma within_blame: "within_weight (''touches_operator_code'', score_touches_operator_code es op)"
  using within_quotient [of "''touches_operator_code''" 20] blame_total [of "lower op" es]
  by (simp add: score_touches_operator_code_def weight_values Let_def)

definition scores_ok :: "(string \<times> rat option) list \<Rightarrow> bool" where
  "scores_ok scores \<longleftrightarrow> list_all (\<lambda>(_, s). case s of None \<Rightarrow> True | Some x \<Rightarrow> 0 \<le> x \<and> x \<le> 100) scores"

lemma first_collaborator_ok: "scores_ok scores \<Longrightarrow> first_collaborator a scores = Some (Some x) \<Longrightarrow> 0 \<le> x \<and> x \<le> 100"
  by (induction a scores rule: first_collaborator.induct) (auto simp: scores_ok_def split: if_splits)

lemma within_collaborator:
  assumes "scores_ok scores"
  shows "within_weight (''collaborator'', compute_collaborator_score author op hist freq scores)"
proof -
  have f: "0 \<le> x \<Longrightarrow> x \<le> 100 \<Longrightarrow> within_weight (''collaborator'', Some (py_round (x / 100 * 15)))" for x :: rat
    using within_fraction [of "''collaborator''" 15 "x / 100"] by (simp add: weight_values mult.commute)
  have m: "within_weight (''collaborator'', Some (py_round (of_int (min (n * 20) 100) / 100 * 15)))" if "0 < n" for n
    using that by (intro f) simp_all
  show ?thesis
    using f m first_collaborator_ok [OF assms] within_full [of "''collaborator''"]
    by (auto simp: compute_collaborator_score_def Let_def weight_values split: option.split)
qed

lemmas full_signals = score_mentioned_or_assigned_def score_has_review_request_def score_new_human_contributor_def
  score_keyword_match_def score_ai_generated_def score_merge_conflict_def score_prior_review_history_def
  score_committer_is_on_it_def score_pending_response_def score_author_awaiting_maintainer_def
  score_downstream_impact_def score_draft_findings_def score_jira_linked_def
  score_jira_priority_author_created_def score_jira_priority_author_commented_def mention_points_def

lemma within_bind: "(\<And>x. within_weight (name, f x)) \<Longrightarrow> within_weight (name, Option.bind m f)"
  by (cases m) simp_all

lemma built_in_within:
  assumes "scores_ok (sa_collaborator_scores sa)" and "within_weight (''updated_since_operator_review'', since_review)"
  shows "list_all within_weight (built_in_signals pr config op sa label since_review)"
proof -
  have "list_all within_weight (content_signals pr config op sa label)"
    by (simp add: content_signals_def Let_def within_path_overlap within_recently within_llm)
      (simp add: full_signals Let_def split: option.split)
  moreover have "list_all within_weight (people_signals pr config op sa)"
    by (simp add: people_signals_def Let_def within_collaborator assms(1))
      (intro conjI within_bind; simp add: within_blame within_cve full_signals Let_def)
  moreover have "list_all within_weight (activity_signals pr config op sa since_review)"
    by (simp add: activity_signals_def Let_def assms(2))
      (intro conjI impI within_bind; simp add: full_signals Let_def split: option.split json.split)
  ultimately show ?thesis by (simp add: built_in_signals_def)
qed


lemma since_review_within:
  "score_updated_since_operator_review fromiso p u = Inr r \<Longrightarrow> within_weight (''updated_since_operator_review'', r)"
  by (auto simp: score_updated_since_operator_review_def bind_sum_eq_Inr split: if_splits option.splits)

section \<open>The breakdown is the signals that fired\<close>

lemma map_of_add_signal: "map_of (add_signal ws b (n, v)) k =
    (if k = n \<and> v \<noteq> None then map_option (scaled ws n) v else map_of b k)"
  by (cases v) (auto simp: add_signal_def)

lemma foldl_add_signal:
  "distinct (map fst signals) \<Longrightarrow> map_of (foldl (add_signal ws) b signals) k =
     (case map_of signals k of Some (Some p) \<Rightarrow> Some (scaled ws k p) | _ \<Rightarrow> map_of b k)"
proof (induction signals arbitrary: b)
  case (Cons signal signals)
  obtain n v where nv: "signal = (n, v)" by (cases signal)
  with Cons.prems have "map_of signals n = None" by (simp add: map_of_eq_None_iff)
  with Cons nv show ?case
    by (cases v) (auto simp: map_of_add_signal add_signal_def split: option.split)
qed simp

lemma built_in_names: "map fst (built_in_signals pr config op sa label since_review) =
    [''path_overlap'', ''mentioned_or_assigned'', ''has_review_request'', ''new_human_contributor'', ''keyword_match'',
     ''ai_generated'', ''llm_interest'', ''recently_updated'', ''merge_conflict'', ''collaborator'', ''prior_review_history'',
     ''touches_operator_code'', ''cve_file_history'', ''committer_is_on_it'', ''updated_since_operator_review'',
     ''pending_response'', ''author_awaiting_maintainer'', ''downstream_impact'', ''sentry_errors'', ''draft_findings'',
     ''jira_linked'', ''jira_priority_author_created'', ''jira_priority_author_commented'']"
  by (simp add: built_in_signals_def content_signals_def people_signals_def activity_signals_def Let_def)

lemma nat_str_inj: "nat_str a = nat_str b \<Longrightarrow> a = b"
  by (metis digits_value_nat_str)

lemma custom_names: "map fst (custom_signals sa pr config) =
    map (\<lambda>i. ''custom_'' @ nat_str i) [0..<length (sa_custom_expressions sa)]"
  by (rule nth_equalityI) (auto simp: custom_signals_def nth_enumerate_eq)

lemma custom_prefix: "n \<in> set (map fst (custom_signals sa pr config)) \<Longrightarrow> prefix ''custom_'' n"
  unfolding custom_names by auto

lemma all_names_distinct:
  "distinct (map fst (built_in_signals pr config op sa label since_review @ custom_signals sa pr config))"
proof -
  have c: "distinct (map fst (custom_signals sa pr config))"
    unfolding custom_names by (auto simp: distinct_map inj_on_def dest: nat_str_inj)
  have "n \<in> set (map fst (built_in_signals pr config op sa label since_review)) \<Longrightarrow> \<not> prefix ''custom_'' n" for n
    unfolding built_in_names by (simp, elim disjE) simp_all
  with custom_prefix have "set (map fst (built_in_signals pr config op sa label since_review)) \<inter>
      set (map fst (custom_signals sa pr config)) = {}" by blast
  moreover have "distinct (map fst (built_in_signals pr config op sa label since_review))"
    unfolding built_in_names by simp
  ultimately show ?thesis using c by (simp only: map_append distinct_append)
qed

lemma score_unfold:
  assumes "score_pull_request pr config op sa = Inr (s, b)"
  obtains ws label since_review where "project_weights config = Inr ws"
    "llm_label (jget pr ''llm_interest'') = Inr label"
    "within_weight (''updated_since_operator_review'', since_review)"
    "b = breakdown_of ws (built_in_signals pr config op sa label since_review @ custom_signals sa pr config)"
    "s = unit_score MAX_SCORE (total_points b)"
proof -
  from assms obtain ws label since_review where "project_weights config = Inr ws"
    "llm_label (jget pr ''llm_interest'') = Inr label"
    "score_updated_since_operator_review (sa_fromiso sa) (sa_review_posted_at sa)
       (let u = jget pr ''github_updated_at'' in if truthy u then py_str u else []) = Inr since_review"
    "b = breakdown_of ws (built_in_signals pr config op sa label since_review @ custom_signals sa pr config)"
    "s = unit_score MAX_SCORE (total_points b)"
    unfolding score_pull_request_def bind_sum_eq_Inr Let_def by blast
  with since_review_within that show thesis by blast
qed

lemma breakdown_entry:
  "map_of (breakdown_of ws (built_in_signals pr config op sa label since_review @ custom_signals sa pr config)) n =
     (case map_of (built_in_signals pr config op sa label since_review @ custom_signals sa pr config) n of
      Some (Some p) \<Rightarrow> Some (scaled ws n p) | _ \<Rightarrow> None)"
  unfolding breakdown_of_def foldl_add_signal [OF all_names_distinct]
  by (simp del: map_of_append split: option.split)

text \<open>
  C39: The score is between 0 and 1 and is the normalised sum of its breakdown; the breakdown
  has one entry per name, and without weight overrides every built-in entry is a signal that
  fired with points between zero and its weight (for collaborator scores from 0 to 100).
\<close>

theorem score_explained:
  assumes "score_pull_request pr config op sa = Inr (s, b)"
  shows "0 \<le> s \<and> s \<le> 1 \<and> s = unit_score MAX_SCORE (total_points b) \<and>
    (scores_ok (sa_collaborator_scores sa) \<and> project_weights config = Inr WEIGHTS \<longrightarrow>
      list_all (\<lambda>n. case map_of b n of None \<Rightarrow> True
        | Some x \<Rightarrow> of_int (min 0 (weight n)) \<le> x \<and> x \<le> of_int (max 0 (weight n))) (map fst WEIGHTS))"
proof -
  obtain ws label since_review where u: "project_weights config = Inr ws"
    "within_weight (''updated_since_operator_review'', since_review)"
    "b = breakdown_of ws (built_in_signals pr config op sa label since_review @ custom_signals sa pr config)"
    "s = unit_score MAX_SCORE (total_points b)"
    using assms by (rule score_unfold)
  let ?all = "built_in_signals pr config op sa label since_review @ custom_signals sa pr config"
  have "of_int (min 0 (weight n)) \<le> x \<and> x \<le> of_int (max 0 (weight n))"
    if ok: "scores_ok (sa_collaborator_scores sa)" and w: "project_weights config = Inr WEIGHTS"
      and n: "n \<in> set (map fst WEIGHTS)" and x: "map_of b n = Some x" for n x
  proof -
    have ws: "ws = WEIGHTS" using u(1) w by simp
    obtain p where p: "map_of ?all n = Some (Some p)" and px: "x = scaled ws n p"
      using x unfolding u(3) breakdown_entry by (auto simp del: map_of_append split: option.splits)
    have "\<not> prefix ''custom_'' n" using n by (simp add: WEIGHTS_def, elim disjE) simp_all
    then have "n \<notin> set (map fst (custom_signals sa pr config))" using custom_prefix by blast
    then have "(n, Some p) \<in> set (built_in_signals pr config op sa label since_review)"
      using map_of_SomeD [OF p] by force
    then have "within_weight (n, Some p)"
      using built_in_within [OF ok u(2)] by (auto simp: list_all_iff)
    moreover have "x = of_int p" unfolding px ws by (simp add: scaled_def split: option.split)
    ultimately show ?thesis by (simp add: within_weight_def flip: of_int_min of_int_max)
  qed
  then show ?thesis using u(4) unit_score_range by (fastforce simp: list_all_iff split: option.split)
qed


text \<open>
  An author is never both a new human contributor and an AI agent: the two signals do not
  fire together, whatever the PR, the project and the weights.
\<close>

lemma human_or_agent:
  assumes "score_pull_request pr config op sa = Inr (s, b)"
  shows "map_of b ''new_human_contributor'' = None \<or> map_of b ''ai_generated'' = None"
proof -
  obtain ws label since_review where u:
    "b = breakdown_of ws (built_in_signals pr config op sa label since_review @ custom_signals sa pr config)"
    using assms by (rule score_unfold)
  show ?thesis
    unfolding u breakdown_entry
    by (simp add: built_in_signals_def content_signals_def Let_def score_new_human_contributor_def score_ai_generated_def)
qed

section \<open>Witnesses\<close>

definition no_args :: score_args where
  "no_args = \<lparr>sa_known_authors = [], sa_blame_data = None, sa_review_history = None, sa_custom_expressions = [''len(pr)''],
     sa_collaborator_scores = [(''Ann'', Some 50)], sa_recent_reviews = None, sa_review_posted_at = [], sa_author_replies = None,
     sa_downstream_apis = [], sa_sentry_error_count = None, sa_cve_affected_files = None, sa_draft_findings_count = None,
     sa_comment_bodies = [], sa_comment_events = None, sa_simple_eval = (\<lambda>e pr c. Some (JInt (int (length pr)))),
     sa_fromiso = (\<lambda>s. None)\<rparr>"

definition sample_pr_dict :: jdict where
  "sample_pr_dict = [(''author'', JStr ''ann''), (''body'', JStr ''cc @Frank''),
     (''changed_files'', JList [JStr ''src/a.py'', JStr ''docs/b.md''])]"

definition sample_project :: jdict where
  "sample_project = [(''watched_paths'', JList [JStr ''src/''])]"

definition sample_breakdown :: breakdown where
  "sample_breakdown = (case score_pull_request sample_pr_dict sample_project ''frank'' no_args of Inr (_, b) \<Rightarrow> b | _ \<Rightarrow> [])"

lemma sample_scored:
  "score_pull_request sample_pr_dict sample_project ''frank'' no_args = Inr (88/100, sample_breakdown)"
  "project_weights sample_project = Inr WEIGHTS" "scores_ok (sa_collaborator_scores no_args)"
  by code_simp+


theorem score_explained_witness:
  "list_all (\<lambda>n. case map_of sample_breakdown n of None \<Rightarrow> True
      | Some x \<Rightarrow> of_int (min 0 (weight n)) \<le> x \<and> x \<le> of_int (max 0 (weight n))) (map fst WEIGHTS)
   \<and> unit_score MAX_SCORE (total_points sample_breakdown) = 88/100"
  using score_explained [OF sample_scored(1)] sample_scored(2,3) by simp


lemma human_or_agent_sample:
  "map_of sample_breakdown ''new_human_contributor'' = Some 10 \<and> map_of sample_breakdown ''ai_generated'' = None"
proof -
  have "map_of sample_breakdown ''new_human_contributor'' = Some 10" by code_simp
  with human_or_agent [OF sample_scored(1)] show ?thesis by auto
qed

end
