(* ===== verification/Findings.thy ===== *)
theory Findings
  imports Prelude "HOL-Library.Multiset"
begin

text \<open>
  Review findings after the backends have answered: deduplication across sources
  (\<open>review/dedup.py\<close>) and calibration of severities (\<open>review/calibration.py\<close>).
\<close>

record finding =
  fd_file_path :: string
  fd_line_number :: "int option"
  fd_title :: string
  fd_body :: string
  fd_suggestion :: string
  fd_confidence :: rat
  fd_severity :: string

section \<open>When two findings are the same\<close>

definition LINE_PROXIMITY :: int where "LINE_PROXIMITY = 5"
definition JACCARD_THRESHOLD :: rat where "JACCARD_THRESHOLD = 3/10"

definition word_start :: "char \<Rightarrow> bool" where
  "word_start c \<longleftrightarrow> (let n = (of_char c :: nat) in (65 \<le> n \<and> n \<le> 90) \<or> (97 \<le> n \<and> n \<le> 122) \<or> n = 95)"

definition word_part :: "char \<Rightarrow> bool" where
  "word_part c \<longleftrightarrow> word_start c \<or> is_digit c"

text \<open>\<open>[a-zA-Z_][a-zA-Z0-9_]*\<close>, all matches from the left.\<close>

fun find_words :: "nat \<Rightarrow> string \<Rightarrow> string list" where
  "find_words skip [] = []"
| "find_words (Suc skip) (c # s) = find_words skip s"
| "find_words 0 (c # s) = (if word_start c then (c # takeWhile word_part s) # find_words (length (takeWhile word_part s)) s
     else find_words 0 s)"

definition tokenize :: "string \<Rightarrow> string list" where
  "tokenize text = remdups (map lower (find_words 0 text))"

definition jaccard_similarity :: "string \<Rightarrow> string \<Rightarrow> rat" where
  "jaccard_similarity a b = (let ta = tokenize a; tb = tokenize b in
     if ta = [] \<or> tb = [] then 0
     else of_nat (length (filter (\<lambda>t. t \<in> set tb) ta)) / of_nat (length (remdups (ta @ tb))))"

definition is_substring_match :: "string \<Rightarrow> string \<Rightarrow> bool" where
  "is_substring_match text_a text_b = (let a = lower (strip text_a); b = lower (strip text_b) in
     if length a < 20 \<or> length b < 20 then False else sublist a b \<or> sublist b a)"

definition line_or_0 :: "int option \<Rightarrow> int" where
  "line_or_0 l = (case l of None \<Rightarrow> 0 | Some n \<Rightarrow> n)"

definition should_merge :: "finding \<Rightarrow> finding \<Rightarrow> bool" where
  "should_merge a b = (
     if fd_file_path a \<noteq> fd_file_path b then False
     else (let distance = \<bar>line_or_0 (fd_line_number a) - line_or_0 (fd_line_number b)\<bar> in
       if LINE_PROXIMITY < distance then False
       else if distance = 0 then True
       else if JACCARD_THRESHOLD \<le> jaccard_similarity (fd_body a) (fd_body b) then True
       else is_substring_match (fd_body a) (fd_body b)))"

definition is_duplicate_finding :: "string \<Rightarrow> int option \<Rightarrow> string \<Rightarrow> string \<Rightarrow> int option \<Rightarrow> string \<Rightarrow> bool" where
  "is_duplicate_finding file_a line_a body_a file_b line_b body_b = (
     if file_a \<noteq> file_b then False
     else (let distance = \<bar>line_or_0 line_a - line_or_0 line_b\<bar> in
       if LINE_PROXIMITY < distance then False
       else if distance = 0 then True
       else if JACCARD_THRESHOLD \<le> jaccard_similarity body_a body_b then True
       else is_substring_match body_a body_b))"

section \<open>Grouping\<close>

text \<open>
  \<open>group_by_leader dup xs\<close>: the first element not yet used leads a group of the later ones it
  merges with; the rest is grouped in turn. Elements carry their index in the input.
\<close>

function (sequential) group_by_leader :: "('a \<Rightarrow> 'a \<Rightarrow> bool) \<Rightarrow> 'a list \<Rightarrow> 'a list list" where
  "group_by_leader dup [] = []"
| "group_by_leader dup (x # xs) = (x # filter (dup x) xs) # group_by_leader dup (filter (\<lambda>y. \<not> dup x y) xs)"
  by pat_completeness auto
termination by (relation "measure (\<lambda>(_, xs). length xs)") (auto simp: less_Suc_eq_le)

type_synonym indexed = "nat \<times> finding"

definition same_finding :: "indexed \<Rightarrow> indexed \<Rightarrow> bool" where
  "same_finding p q = should_merge (snd p) (snd q)"

definition files_in_order :: "finding list \<Rightarrow> string list" where
  "files_in_order fs = rev (remdups (rev (map fd_file_path fs)))"

definition file_groups :: "finding list \<Rightarrow> string \<Rightarrow> indexed list list" where
  "file_groups fs f = group_by_leader same_finding
     (sort_key (\<lambda>p. line_or_0 (fd_line_number (snd p))) (filter (\<lambda>p. fd_file_path (snd p) = f) (enumerate 0 fs)))"

definition all_groups :: "finding list \<Rightarrow> indexed list list" where
  "all_groups fs = concat (map (file_groups fs) (files_in_order fs))"

section \<open>Merging a group\<close>

text \<open>\<open>max(xs, key=...)\<close>: the first element with the largest key.\<close>

fun first_max :: "('a \<Rightarrow> 'b :: linorder) \<Rightarrow> 'a \<Rightarrow> 'a list \<Rightarrow> 'a" where
  "first_max key best [] = best"
| "first_max key best (x # xs) = first_max key (if key best < key x then x else best) xs"

definition severity_rank :: "string \<Rightarrow> int" where
  "severity_rank s = dict_get 2 [(''critical'', 4), (''important'', 3), (''nit'', 1), (''informational'', 0)] s"

definition merge_findings :: "finding \<Rightarrow> finding list \<Rightarrow> finding" where
  "merge_findings f fs = (if fs = [] then f else (let
     primary = first_max (\<lambda>g. length (fd_body g)) f fs;
     suggestions = filter (\<lambda>s. s \<noteq> []) (map fd_suggestion (f # fs));
     titles = filter (\<lambda>t. t \<noteq> [] \<and> t \<noteq> fd_title primary) (map fd_title (f # fs))
   in \<lparr>fd_file_path = fd_file_path primary, fd_line_number = fd_line_number primary,
       fd_title = fd_title primary @ (if titles = [] then [] else '' | '' @ join '' | '' (take 3 titles)),
       fd_body = fd_body primary,
       fd_suggestion = (if fd_suggestion primary \<noteq> [] then fd_suggestion primary
         else case suggestions of [] \<Rightarrow> [] | s # _ \<Rightarrow> s),
       fd_confidence = fd_confidence (first_max fd_confidence f fs),
       fd_severity = fd_severity (first_max (\<lambda>g. severity_rank (fd_severity g)) f fs)\<rparr>))"

fun merge_group :: "indexed list \<Rightarrow> finding list" where
  "merge_group [] = []"
| "merge_group ((i, f) # rest) = [merge_findings f (map snd rest)]"

definition deduplicate_findings_with_groups :: "finding list \<Rightarrow> finding list \<times> nat list list" where
  "deduplicate_findings_with_groups fs = (if length fs \<le> 1 then (fs, map (\<lambda>i. [i]) [0..<length fs])
     else (concat (map merge_group (all_groups fs)), map (map fst) (all_groups fs)))"

definition deduplicate_findings :: "finding list \<Rightarrow> finding list" where
  "deduplicate_findings fs = fst (deduplicate_findings_with_groups fs)"

text \<open>The sources of a group: distinct, in order of appearance.\<close>

fun keep_first :: "string list \<Rightarrow> string list \<Rightarrow> string list" where
  "keep_first seen [] = []"
| "keep_first seen (s # ss) = (if s \<noteq> [] \<and> s \<notin> set seen then s # keep_first (seen @ [s]) ss else keep_first seen ss)"

definition source_at :: "string list \<Rightarrow> nat \<Rightarrow> string" where
  "source_at sources i = (if i < length sources then sources ! i else ''agent'')"

definition merge_source_tags_from_groups :: "string list \<Rightarrow> nat list list \<Rightarrow> string list" where
  "merge_source_tags_from_groups sources groups = map (\<lambda>g. let unique = keep_first [] (map (source_at sources) g) in
     if unique = [] then ''agent'' else join '','' unique) groups"

section \<open>Calibration\<close>

record calibration_config =
  cc_enabled :: bool
  cc_min_score :: rat
  cc_max_findings :: nat

definition SEVERITY_SCORE :: "(string \<times> rat) list" where
  "SEVERITY_SCORE = [(''critical'', 9), (''important'', 7), (''high'', 7), (''medium'', 5), (''nit'', 3),
     (''informational'', 1), (''low'', 2), (''unknown'', 5)]"

definition EVIDENCE_KEYWORDS :: "string list" where
  "EVIDENCE_KEYWORDS = [''boundary'', ''attacker'', ''untrusted'', ''user-controlled'', ''sink'']"

definition VAGUE_WORDS :: "string list" where
  "VAGUE_WORDS = [''potential'', ''possible'', ''maybe'']"

definition risk_score :: "finding \<Rightarrow> rat" where
  "risk_score f = (let
     base = dict_get 5 SEVERITY_SCORE (strip (lower (fd_severity f)));
     s1 = base * (1/2 + 1/2 * fd_confidence f);
     s2 = (if list_ex (\<lambda>kw. sublist kw (lower (fd_body f))) EVIDENCE_KEYWORDS then s1 + 1 else s1);
     s3 = (if list_ex (\<lambda>w. sublist w (lower (fd_title f))) VAGUE_WORDS then s2 - 2 else s2);
     s4 = (if length (fd_body f) < 50 then s3 - 1 else s3)
   in max 1 (min 10 (py_round_to 1 s4)))"

text \<open>\<open>list.sort(key=..., reverse=True)\<close> is stable: ties keep their order.\<close>

definition calibrate_findings :: "finding list \<Rightarrow> calibration_config \<Rightarrow> finding list" where
  "calibrate_findings fs c = (if \<not> cc_enabled c then fs
     else (let kept = sort_key (\<lambda>f. - risk_score f) (filter (\<lambda>f. cc_min_score c \<le> risk_score f) fs) in
       if cc_max_findings c = 0 then kept else take (cc_max_findings c) kept))"


section \<open>The duplicate test as an interface\<close>

text \<open>
  What grouping relies on: the test is reflexive and symmetric. It is not transitive, so a
  group is what its leader is near to.
\<close>

locale duplicate_test =
  fixes dup :: "'a \<Rightarrow> 'a \<Rightarrow> bool"
  assumes dup_refl: "dup x x" and dup_sym: "dup x y \<longleftrightarrow> dup y x"
begin

lemma leader_of_each: "y \<in> set xs \<Longrightarrow> list_ex (\<lambda>g. y \<in> set g \<and> dup y (hd g)) (group_by_leader dup xs)"
proof (induction xs rule: length_induct)
  case (1 xs)
  then obtain x ys where xs: "xs = x # ys" by (cases xs) auto
  show ?case
  proof (cases "dup x y")
    case True
    with "1.prems" xs dup_sym [of x y] show ?thesis by auto
  next
    case False
    with "1.prems" xs dup_refl have "y \<in> set (filter (\<lambda>y. \<not> dup x y) ys)" by auto
    moreover have "length (filter (\<lambda>y. \<not> dup x y) ys) < length xs" using xs by (simp add: less_Suc_eq_le)
    ultimately have "list_ex (\<lambda>g. y \<in> set g \<and> dup y (hd g)) (group_by_leader dup (filter (\<lambda>y. \<not> dup x y) ys))"
      using "1.IH" by blast
    with xs show ?thesis by simp
  qed
qed

lemma groups_within: "g \<in> set (group_by_leader d xs) \<Longrightarrow> set g \<subseteq> set xs"
  by (induction d xs rule: group_by_leader.induct) auto

lemma later_groups_apart: "sorted_wrt (\<lambda>g h. list_all (\<lambda>y. \<not> dup (hd g) y \<and> \<not> dup y (hd g)) h) (group_by_leader dup xs)"
proof (induction xs rule: length_induct)
  case (1 xs)
  show ?case
  proof (cases xs)
    case (Cons x ys)
    let ?rest = "filter (\<lambda>y. \<not> dup x y) ys"
    have "length ?rest < length xs" using Cons by (simp add: less_Suc_eq_le)
    with "1.IH" have "sorted_wrt (\<lambda>g h. list_all (\<lambda>y. \<not> dup (hd g) y \<and> \<not> dup y (hd g)) h) (group_by_leader dup ?rest)"
      by blast
    moreover have "h \<in> set (group_by_leader dup ?rest) \<Longrightarrow> list_all (\<lambda>y. \<not> dup x y \<and> \<not> dup y x) h" for h
      using groups_within [of h dup ?rest] dup_sym by (auto simp: list_all_iff)
    ultimately show ?thesis using Cons by simp
  qed simp
qed

end

section \<open>Helper lemmas\<close>

lemma group_nonempty: "g \<in> set (group_by_leader dup xs) \<Longrightarrow> g \<noteq> []"
  by (induction dup xs rule: group_by_leader.induct) auto

lemma mset_groups: "mset (concat (group_by_leader dup xs)) = mset xs"
proof (induction dup xs rule: group_by_leader.induct)
  case (2 dup x xs)
  have "mset (filter (dup x) xs) + mset (filter (\<lambda>y. \<not> dup x y) xs) = mset xs"
    by (metis multiset_partition mset_filter)
  with 2 show ?case by simp
qed simp

lemma mset_by_key:
  "distinct ks \<Longrightarrow> key ` set xs \<subseteq> set ks \<Longrightarrow> mset (concat (map (\<lambda>k. filter (\<lambda>x. key x = k) xs) ks)) = mset xs"
proof (induction ks arbitrary: xs)
  case (Cons k ks)
  let ?ys = "filter (\<lambda>x. key x \<noteq> k) xs"
  have same: "map (\<lambda>k'. filter (\<lambda>x. key x = k') xs) ks = map (\<lambda>k'. filter (\<lambda>x. key x = k') ?ys) ks"
    using Cons.prems(1) by (auto intro!: filter_cong)
  have "mset (concat (map (\<lambda>k'. filter (\<lambda>x. key x = k') ?ys) ks)) = mset ?ys"
    using Cons.prems by (intro Cons.IH) auto
  then have "mset (concat (map (\<lambda>k'. filter (\<lambda>x. key x = k') xs) ks)) = mset ?ys" unfolding same .
  moreover have "mset (filter (\<lambda>x. key x = k) xs) + mset ?ys = mset xs"
    by (metis multiset_partition mset_filter)
  ultimately show ?case by simp
qed simp

lemma mset_concat_cong: "(\<And>k. k \<in> set ks \<Longrightarrow> mset (f k) = mset (g k)) \<Longrightarrow> mset (concat (map f ks)) = mset (concat (map g ks))"
  by (induction ks) simp_all

lemma files_in_order: "distinct (files_in_order fs)" "set (files_in_order fs) = fd_file_path ` set fs"
  by (simp_all add: files_in_order_def)

lemma mset_file_groups: "mset (concat (file_groups fs f)) = mset (filter (\<lambda>p. fd_file_path (snd p) = f) (enumerate 0 fs))"
  by (simp add: file_groups_def mset_groups)

lemma mset_all_groups: "mset (concat (all_groups fs)) = mset (enumerate 0 fs)"
proof -
  have "concat (concat (map g ks)) = concat (map (\<lambda>k. concat (g k)) ks)" for g :: "string \<Rightarrow> indexed list list" and ks
    by (induction ks) simp_all
  then have "mset (concat (all_groups fs)) = mset (concat (map (\<lambda>f. concat (file_groups fs f)) (files_in_order fs)))"
    by (simp add: all_groups_def)
  also have "\<dots> = mset (concat (map (\<lambda>f. filter (\<lambda>p. fd_file_path (snd p) = f) (enumerate 0 fs)) (files_in_order fs)))"
    by (rule mset_concat_cong) (rule mset_file_groups)
  also have "\<dots> = mset (enumerate 0 fs)"
    using files_in_order by (intro mset_by_key) (auto simp: in_set_enumerate_eq)
  finally show ?thesis .
qed


section \<open>Interpretations\<close>

lemma jaccard_sym: "jaccard_similarity a b = jaccard_similarity b a"
proof -
  have n: "distinct (tokenize x)" for x by (simp add: tokenize_def)
  have "length (filter (\<lambda>t. t \<in> set (tokenize y)) (tokenize x)) = card (set (tokenize x) \<inter> set (tokenize y))" for x y
    using n distinct_card [of "filter (\<lambda>t. t \<in> set (tokenize y)) (tokenize x)"] by (simp add: Int_def)
  moreover have "length (remdups (tokenize x @ tokenize y)) = card (set (tokenize x) \<union> set (tokenize y))" for x y
    by (metis length_remdups_card_conv set_append)
  ultimately show ?thesis by (simp add: jaccard_similarity_def Let_def Int_commute Un_commute conj_commute disj_commute)
qed

lemma substring_sym: "is_substring_match a b = is_substring_match b a"
  by (auto simp: is_substring_match_def Let_def)

lemma should_merge_sym: "should_merge a b = should_merge b a"
  using jaccard_sym substring_sym by (auto simp: should_merge_def Let_def abs_minus_commute)

lemma should_merge_refl: "should_merge a a"
  by (simp add: should_merge_def LINE_PROXIMITY_def)

interpretation merging: duplicate_test same_finding
  by unfold_locales (simp_all add: same_finding_def should_merge_refl should_merge_sym)

interpretation triple: duplicate_test "\<lambda>(f1, l1, b1) (f2, l2, b2). is_duplicate_finding f1 l1 b1 f2 l2 b2"
  by unfold_locales (auto simp: is_duplicate_finding_def Let_def LINE_PROXIMITY_def abs_minus_commute jaccard_sym substring_sym)

section \<open>Properties of deduplication\<close>

text \<open>
  The check on the fields of persisted drafts is the merge test of the findings: the two
  agree on every pair, and both are symmetric and reflexive.
\<close>

lemma field_check_is_merge_test:
  "is_duplicate_finding (fd_file_path a) (fd_line_number a) (fd_body a) (fd_file_path b) (fd_line_number b) (fd_body b)
     = should_merge a b" "should_merge a b = should_merge b a" "should_merge a a"
  by (simp_all add: should_merge_refl should_merge_sym) (simp add: is_duplicate_finding_def should_merge_def)

lemma groups_nonempty: "g \<in> set (all_groups fs) \<Longrightarrow> g \<noteq> []"
  unfolding all_groups_def file_groups_def using group_nonempty by fastforce

lemma merge_group_single: "g \<noteq> [] \<Longrightarrow> merge_group g = [merge_findings (snd (hd g)) (map snd (tl g))]"
  by (cases g rule: merge_group.cases) simp_all

lemma merged_groups: "concat (map merge_group (all_groups fs)) = map (\<lambda>g. merge_findings (snd (hd g)) (map snd (tl g))) (all_groups fs)"
proof -
  have "list_all (\<lambda>g. g \<noteq> []) gs \<Longrightarrow> concat (map merge_group gs) = map (\<lambda>g. merge_findings (snd (hd g)) (map snd (tl g))) gs" for gs
    by (induction gs) (simp_all add: merge_group_single)
  then show ?thesis using groups_nonempty by (simp add: list_all_iff)
qed

text \<open>
  Deduplication loses and repeats nothing: the groups partition the indices of the input,
  and there is exactly one finding of the result per group.
\<close>

theorem dedup_partitions:
  "mset (concat (snd (deduplicate_findings_with_groups fs))) = mset [0..<length fs]
   \<and> length (fst (deduplicate_findings_with_groups fs)) = length (snd (deduplicate_findings_with_groups fs))"
proof (rule conjI)
  have "mset (map fst (concat (all_groups fs))) = mset (map fst (enumerate 0 fs))"
    using mset_all_groups by (metis mset_map)
  then have "mset (concat (map (map fst) (all_groups fs))) = mset [0..<length fs]"
    by (simp add: map_concat flip: mset_map)
  moreover have "concat (map (\<lambda>i. [i]) [0..<length fs]) = [0..<length fs]" by (induction fs rule: rev_induct) simp_all
  ultimately show "mset (concat (snd (deduplicate_findings_with_groups fs))) = mset [0..<length fs]"
    by (simp add: deduplicate_findings_with_groups_def)
  show "length (fst (deduplicate_findings_with_groups fs)) = length (snd (deduplicate_findings_with_groups fs))"
    by (simp add: deduplicate_findings_with_groups_def merged_groups)
qed

lemma first_max_in: "first_max key f fs \<in> set (f # fs)"
  by (induction key f fs rule: first_max.induct) (auto split: if_splits)

lemma first_max_ge: "x \<in> set (f # fs) \<Longrightarrow> key x \<le> key (first_max key f fs)"
proof (induction fs arbitrary: f x)
  case (Cons g fs)
  let ?b = "if key f < key g then g else f"
  have b: "key ?b \<le> key (first_max key ?b fs)" by (rule Cons.IH) simp
  have "key f \<le> key ?b" "key g \<le> key ?b" by (auto simp: not_less)
  then have "key f \<le> key (first_max key ?b fs)" "key g \<le> key (first_max key ?b fs)"
    using b order_trans by blast+
  with Cons show ?case by auto
qed simp

text \<open>How a merged finding stands to a member of its group.\<close>

definition covers :: "finding \<Rightarrow> finding \<Rightarrow> bool" where
  "covers m f \<longleftrightarrow> fd_file_path m = fd_file_path f \<and> severity_rank (fd_severity f) \<le> severity_rank (fd_severity m)
     \<and> fd_confidence f \<le> fd_confidence m \<and> length (fd_body f) \<le> length (fd_body m)
     \<and> (fd_suggestion m = [] \<longrightarrow> fd_suggestion f = [])"

lemma merge_covers:
  assumes "f \<in> set (g # gs)" and "\<And>x. x \<in> set (g # gs) \<Longrightarrow> fd_file_path x = p"
  shows "covers (merge_findings g gs) f"
proof (cases "gs = []")
  case True
  with assms show ?thesis by (simp add: merge_findings_def covers_def)
next
  case False
  let ?ss = "filter (\<lambda>s. s \<noteq> []) (map fd_suggestion (g # gs))"
  have none: "?ss = [] \<Longrightarrow> fd_suggestion f = []"
  proof -
    assume "?ss = []"
    then have "fd_suggestion f \<in> set (map fd_suggestion (g # gs)) \<Longrightarrow> fd_suggestion f = []"
      unfolding filter_empty_conv by blast
    then show ?thesis using assms(1) by (simp only: set_map image_eqI)
  qed
  have some: "?ss = s # ss \<Longrightarrow> s \<noteq> []" for s ss
    by (metis (mono_tags) filter_eq_ConsD)
  let ?p = "first_max (\<lambda>x. length (fd_body x)) g gs"
  have m: "fd_file_path (merge_findings g gs) = fd_file_path ?p"
    "fd_body (merge_findings g gs) = fd_body ?p"
    "fd_confidence (merge_findings g gs) = fd_confidence (first_max fd_confidence g gs)"
    "fd_severity (merge_findings g gs) = fd_severity (first_max (\<lambda>x. severity_rank (fd_severity x)) g gs)"
    "fd_suggestion (merge_findings g gs) = (if fd_suggestion ?p \<noteq> [] then fd_suggestion ?p
         else case ?ss of [] \<Rightarrow> [] | s # _ \<Rightarrow> s)"
    using False by (simp_all add: merge_findings_def Let_def del: filter.simps list.map)
  have "fd_file_path ?p = fd_file_path f" using assms first_max_in by metis
  moreover have "fd_suggestion (merge_findings g gs) = [] \<longrightarrow> fd_suggestion f = []"
    unfolding m(5) using none some by (cases ?ss) (simp_all split: if_splits del: filter.simps list.map)
  ultimately show ?thesis
    unfolding covers_def m(1-4)
    using first_max_ge [OF assms(1), where key = "\<lambda>x. length (fd_body x)"] first_max_ge [OF assms(1), where key = fd_confidence]
      first_max_ge [OF assms(1), where key = "\<lambda>x. severity_rank (fd_severity x)"] by simp
qed

text \<open>
  A merged finding stands for every finding of its group: same file, at least as severe
  (in the ranking of the code), at least as confident, a body at least as long, and a
  suggestion if any member had one.
\<close>

theorem merged_finding_covers:
  "list_all2 (\<lambda>m g. list_all (\<lambda>i. i < length fs \<and> covers m (fs ! i)) g)
     (fst (deduplicate_findings_with_groups fs)) (snd (deduplicate_findings_with_groups fs))"
proof (cases "length fs \<le> 1")
  case True
  then show ?thesis
    by (cases fs) (auto simp: deduplicate_findings_with_groups_def covers_def)
next
  case False
  have "list_all (\<lambda>i. i < length fs \<and> covers (merge_findings (snd (hd g)) (map snd (tl g))) (fs ! i)) (map fst g)"
    if g: "g \<in> set (all_groups fs)" for g
  proof -
    obtain f where "g \<in> set (file_groups fs f)" using g by (auto simp: all_groups_def)
    then have mem: "p \<in> set g \<Longrightarrow> fst p < length fs \<and> snd p = fs ! fst p \<and> fd_file_path (snd p) = f" for p
      using merging.groups_within [of g same_finding] by (fastforce simp: file_groups_def in_set_enumerate_eq)
    have hd: "snd ` set g = set (snd (hd g) # map snd (tl g))"
      using groups_nonempty [OF g] by (cases g) auto
    have "p \<in> set g \<Longrightarrow> covers (merge_findings (snd (hd g)) (map snd (tl g))) (snd p)" for p
    proof (rule merge_covers [of _ _ _ f])
      show "p \<in> set g \<Longrightarrow> snd p \<in> set (snd (hd g) # map snd (tl g))" using hd by blast
      show "x \<in> set (snd (hd g) # map snd (tl g)) \<Longrightarrow> fd_file_path x = f" for x
        using mem unfolding hd [symmetric] by blast
    qed
    with mem show ?thesis by (auto simp: list_all_iff)
  qed
  then have "list_all2 (\<lambda>m g. list_all (\<lambda>i. i < length fs \<and> covers m (fs ! i)) g)
      (map (\<lambda>g. merge_findings (snd (hd g)) (map snd (tl g))) (all_groups fs)) (map (map fst) (all_groups fs))"
    by (simp add: list_all2_map1 list_all2_map2 list_all2_same)
  then show ?thesis using False by (simp add: deduplicate_findings_with_groups_def merged_groups)
qed

text \<open>
  Within a file the groups are what their leaders are near to: every finding is in a group
  whose leader it merges with, and no leader merges with a finding of a later group.
\<close>

theorem groups_follow_leaders:
  "list_all (\<lambda>p. fd_file_path (snd p) = f \<longrightarrow> list_ex (\<lambda>g. p \<in> set g \<and> same_finding p (hd g)) (file_groups fs f)) (enumerate 0 fs)
   \<and> sorted_wrt (\<lambda>g h. list_all (\<lambda>p. \<not> same_finding (hd g) p) h) (file_groups fs f)"
proof (rule conjI)
  show "list_all (\<lambda>p. fd_file_path (snd p) = f \<longrightarrow> list_ex (\<lambda>g. p \<in> set g \<and> same_finding p (hd g)) (file_groups fs f)) (enumerate 0 fs)"
    unfolding list_all_iff file_groups_def by (intro ballI impI merging.leader_of_each) simp
  show "sorted_wrt (\<lambda>g h. list_all (\<lambda>p. \<not> same_finding (hd g) p) h) (file_groups fs f)"
    unfolding file_groups_def
    by (rule sorted_wrt_mono_rel [OF _ merging.later_groups_apart]) (simp add: list_all_iff)
qed


definition finding_at :: "string \<Rightarrow> int \<Rightarrow> string \<Rightarrow> string \<Rightarrow> finding" where
  "finding_at f l body sev = \<lparr>fd_file_path = f, fd_line_number = Some l, fd_title = ''T'', fd_body = body,
     fd_suggestion = [], fd_confidence = 1/2, fd_severity = sev\<rparr>"

definition sample_findings :: "finding list" where
  "sample_findings = [finding_at ''a.py'' 10 ''null check missing here'' ''nit'', finding_at ''b.py'' 3 ''typo'' ''nit'',
     finding_at ''a.py'' 12 ''the null check is missing here indeed'' ''critical'']"

theorem groups_follow_leaders_witness:
  "list_ex (\<lambda>g. (2, sample_findings ! 2) \<in> set g) (file_groups sample_findings ''a.py'')
   \<and> map (map fst) (all_groups sample_findings) = [[0, 2], [1]]"
proof -
  have m: "(2, sample_findings ! 2) \<in> set (enumerate 0 sample_findings)"
    "fd_file_path (sample_findings ! 2) = ''a.py''" by code_simp+
  have "map (map fst) (all_groups sample_findings) = [[0, 2], [1]]" by code_simp
  moreover have "list_ex (\<lambda>g. (2, sample_findings ! 2) \<in> set g \<and> same_finding (2, sample_findings ! 2) (hd g)) (file_groups sample_findings ''a.py'')"
    using groups_follow_leaders [of "''a.py''" sample_findings] m unfolding list_all_iff by fastforce
  ultimately show ?thesis by (auto simp: list_ex_iff)
qed

section \<open>Properties of the source tags\<close>

lemma keep_first_props: "distinct (keep_first seen ss) \<and> set (keep_first seen ss) = set ss - set seen - {[]}"
  by (induction seen ss rule: keep_first.induct) auto

text \<open>
  The tags of a merged finding are the sources of its group, each once and none invented;
  a group without a named source is the agent's.
\<close>

lemma source_tags_exact:
  "list_all2 (\<lambda>tag g. \<exists>u. distinct u \<and> set u = set (map (source_at sources) g) - {[]} \<and>
      tag = (if u = [] then ''agent'' else join '','' u)) (merge_source_tags_from_groups sources groups) groups"
proof -
  have "\<exists>u. distinct u \<and> set u = set (map (source_at sources) g) - {[]} \<and>
      (let u = keep_first [] (map (source_at sources) g) in if u = [] then ''agent'' else join '','' u)
        = (if u = [] then ''agent'' else join '','' u)" for g
    using keep_first_props [of "[]" "map (source_at sources) g"]
    by (intro exI [of _ "keep_first [] (map (source_at sources) g)"]) (simp add: Let_def)
  then show ?thesis
    unfolding merge_source_tags_from_groups_def list_all2_map1 by (simp add: list_all2_same)
qed

section \<open>Properties of calibration\<close>

lemma take_sorted_cut:
  fixes ks :: "'a :: linorder list"
  assumes "sorted ks" and "x \<in> set (take n ks)" and "y \<in> set (drop n ks)"
  shows "x \<le> y"
proof -
  have "sorted (take n ks @ drop n ks)" using assms(1) by simp
  with assms(2,3) show ?thesis unfolding sorted_append by blast
qed

lemma enabled_calibration:
  assumes "cc_enabled c"
  shows "sorted (map (\<lambda>f. - risk_score f) (calibrate_findings fs c))
     \<and> (\<exists>cut. mset (calibrate_findings fs c) + mset cut = mset (filter (\<lambda>f. cc_min_score c \<le> risk_score f) fs)
          \<and> (\<forall>f \<in> set (calibrate_findings fs c). \<forall>g \<in> set cut. risk_score g \<le> risk_score f)
          \<and> (cc_max_findings c = 0 \<longrightarrow> cut = []))
     \<and> (cc_max_findings c \<noteq> 0 \<longrightarrow> length (calibrate_findings fs c) \<le> cc_max_findings c)"
proof -
  define key where "key = (\<lambda>f. - risk_score f)"
  define kept where "kept = sort_key key (filter (\<lambda>f. cc_min_score c \<le> risk_score f) fs)"
  define n where "n = (if cc_max_findings c = 0 then length kept else cc_max_findings c)"
  have cal: "calibrate_findings fs c = take n kept"
    using assms by (simp add: calibrate_findings_def kept_def key_def n_def Let_def)
  have srt: "sorted (map key kept)" by (simp add: kept_def)
  then have "sorted (map key (take n kept))" by (metis sorted_wrt_take take_map)
  moreover have "mset (take n kept) + mset (drop n kept) = mset (filter (\<lambda>f. cc_min_score c \<le> risk_score f) fs)"
    by (metis append_take_drop_id kept_def mset_append mset_sort)
  moreover have "risk_score g \<le> risk_score f" if "f \<in> set (take n kept)" "g \<in> set (drop n kept)" for f g
  proof -
    have "key f \<le> key g"
      using take_sorted_cut [OF srt, of "key f" n "key g"] that by (simp add: take_map drop_map)
    then show ?thesis by (simp add: key_def)
  qed
  moreover have "cc_max_findings c = 0 \<longrightarrow> drop n kept = []" by (simp add: n_def)
  moreover have "cc_max_findings c \<noteq> 0 \<longrightarrow> length (take n kept) \<le> cc_max_findings c" by (simp add: n_def)
  ultimately show "sorted (map (\<lambda>f. - risk_score f) (calibrate_findings fs c))
     \<and> (\<exists>cut. mset (calibrate_findings fs c) + mset cut = mset (filter (\<lambda>f. cc_min_score c \<le> risk_score f) fs)
          \<and> (\<forall>f \<in> set (calibrate_findings fs c). \<forall>g \<in> set cut. risk_score g \<le> risk_score f)
          \<and> (cc_max_findings c = 0 \<longrightarrow> cut = []))
     \<and> (cc_max_findings c \<noteq> 0 \<longrightarrow> length (calibrate_findings fs c) \<le> cc_max_findings c)"
    unfolding cal key_def by (intro conjI exI [of _ "drop n kept"] ballI) blast+
qed

text \<open>
  Calibration surfaces the top findings: every surfaced finding is one of the input with a
  score of at least the minimum, they come in descending order of score, at most as many as
  the cap, and a finding that is cut scores below the minimum or no better than any that is
  surfaced. Every score is between 1 and 10. Disabled, it passes everything through.
\<close>

theorem calibration_surfaces_top:
  "1 \<le> risk_score f \<and> risk_score f \<le> 10 \<and>
   (if \<not> cc_enabled c then calibrate_findings fs c = fs
    else sorted (map (\<lambda>f. - risk_score f) (calibrate_findings fs c))
     \<and> (\<exists>cut. mset (calibrate_findings fs c) + mset cut = mset (filter (\<lambda>f. cc_min_score c \<le> risk_score f) fs)
          \<and> (\<forall>f \<in> set (calibrate_findings fs c). \<forall>g \<in> set cut. risk_score g \<le> risk_score f)
          \<and> (cc_max_findings c = 0 \<longrightarrow> cut = []))
     \<and> (cc_max_findings c \<noteq> 0 \<longrightarrow> length (calibrate_findings fs c) \<le> cc_max_findings c))"
proof (intro conjI)
  show "1 \<le> risk_score f" "risk_score f \<le> 10" by (simp_all add: risk_score_def Let_def)
qed (metis enabled_calibration calibrate_findings_def)

definition cap_two :: calibration_config where
  "cap_two = \<lparr>cc_enabled = True, cc_min_score = 3, cc_max_findings = 1\<rparr>"

theorem calibration_surfaces_top_witness:
  "length (calibrate_findings sample_findings cap_two) \<le> 1
   \<and> calibrate_findings sample_findings (cap_two\<lparr>cc_enabled := False\<rparr>) = sample_findings"
proof -
  have "cc_enabled cap_two" "cc_max_findings cap_two = 1" "\<not> cc_enabled (cap_two\<lparr>cc_enabled := False\<rparr>)"
    by (simp_all add: cap_two_def)
  then show ?thesis
    using calibration_surfaces_top [of _ cap_two sample_findings]
      calibration_surfaces_top [of _ "cap_two\<lparr>cc_enabled := False\<rparr>" sample_findings] by (metis one_neq_zero)
qed

end
