(* ===== verification/CommandQueue.thy ===== *)
theory CommandQueue
  imports Prelude "HOL-Library.Product_Lexorder"
begin

text \<open>
  The worker's command queue: the table of \<open>WorkerCommand\<close> rows (\<open>core/models.py\<close>), the
  doors that put rows into it (\<open>security/queue.py\<close>, with the agent scopes of
  \<open>security/agent_source.py\<close>), and the worker's side, which selects, claims, runs, sweeps and
  requeues them (\<open>worker/commands.py\<close>).

  Every function of the source that changes the table is one definition over
  \<open>command_queue\<close>, the rows in insertion order with the next primary key. The handlers of the
  commands, the clock and what other connections do meanwhile are a \<open>worker_host\<close>, a record of
  functions on an abstract world.
\<close>

section \<open>Agent scopes\<close>

abbreviation SCOPE_ALL :: string where "SCOPE_ALL \<equiv> ''all''"
abbreviation SCOPE_HUMAN :: string where "SCOPE_HUMAN \<equiv> ''none''"
abbreviation SCOPE_ANY_AGENT :: string where "SCOPE_ANY_AGENT \<equiv> ''any''"

definition RESERVED_SCOPES :: "string list" where
  "RESERVED_SCOPES = [SCOPE_ALL, SCOPE_HUMAN, SCOPE_ANY_AGENT]"

abbreviation MAX_AGENT_NAME_LEN :: nat where "MAX_AGENT_NAME_LEN \<equiv> 100"

definition name_char :: "char \<Rightarrow> bool" where
  "name_char c \<longleftrightarrow> (let n = (of_char c :: nat) in
     (97 \<le> n \<and> n \<le> 122) \<or> (48 \<le> n \<and> n \<le> 57) \<or> c = CHR ''.'' \<or> c = CHR ''_'')"

text \<open>\<open>_NAME_JUNK.sub("-", s)\<close>: every run of other characters becomes one hyphen.\<close>

fun fold_junk :: "bool \<Rightarrow> string \<Rightarrow> string" where
  "fold_junk in_junk [] = []"
| "fold_junk in_junk (c # s) = (if name_char c then c # fold_junk False s
     else if in_junk then fold_junk True s else CHR ''-'' # fold_junk True s)"

definition dash_or_dot :: "char \<Rightarrow> bool" where
  "dash_or_dot c \<longleftrightarrow> c = CHR ''-'' \<or> c = CHR ''.''"

definition rstrip_dashes :: "string \<Rightarrow> string" where
  "rstrip_dashes s = rev (dropWhile dash_or_dot (rev s))"

definition normalize_agent_name :: "string \<Rightarrow> string" where
  "normalize_agent_name raw = (let name = rstrip_dashes (dropWhile dash_or_dot (fold_junk False (lower (strip raw))))
     in rstrip_dashes (take MAX_AGENT_NAME_LEN name))"

text \<open>\<open>None\<close>: the \<open>ValueError\<close> with its message for the operator.\<close>

definition clean_agent_name :: "string \<Rightarrow> string option" where
  "clean_agent_name raw = (if strip raw = [] then Some []
     else (let name = normalize_agent_name raw in
       if name = [] \<or> name \<in> set RESERVED_SCOPES then None else Some name))"

definition parse_scope :: "string option \<Rightarrow> string option" where
  "parse_scope raw = (case raw of None \<Rightarrow> Some SCOPE_ALL
   | Some r \<Rightarrow> if strip r = [] then Some SCOPE_ALL
     else (let scope = normalize_agent_name r in if scope = [] then None else Some scope))"

definition scope_matches :: "string \<Rightarrow> string \<Rightarrow> bool" where
  "scope_matches scope source_agent = (if scope = SCOPE_ALL then True
     else if scope = SCOPE_HUMAN then source_agent = []
     else if scope = SCOPE_ANY_AGENT then source_agent \<noteq> []
     else source_agent = scope)"

definition scope_covers :: "string \<Rightarrow> string \<Rightarrow> bool" where
  "scope_covers running wanted = (if running = SCOPE_ALL \<or> running = wanted then True
     else running = SCOPE_ANY_AGENT \<and> wanted \<notin> set RESERVED_SCOPES)"

definition scope_label :: "string \<Rightarrow> string" where
  "scope_label scope = (if scope = SCOPE_ALL then ''all reports''
     else if scope = SCOPE_HUMAN then ''reports not from an agent''
     else if scope = SCOPE_ANY_AGENT then ''reports from any agent''
     else ''reports from agent '' @ scope)"

definition scope_suffix :: "string \<Rightarrow> string" where
  "scope_suffix scope = (if scope = SCOPE_ALL then [] else '' ('' @ scope_label scope @ '')'')"

section \<open>The table\<close>

record command_row =
  wc_pk :: nat
  wc_command :: string
  wc_status :: string
  wc_pull_request :: "nat option"
  wc_security_report :: "nat option"
  wc_priority :: int
  wc_kwargs :: jdict
  wc_log :: string
  wc_error :: string
  wc_created_at :: int
  wc_started_at :: "int option"
  wc_finished_at :: "int option"

record command_queue =
  q_rows :: "command_row list"
  q_next_pk :: nat

definition empty_queue :: command_queue where
  "empty_queue = \<lparr>q_rows = [], q_next_pk = 1\<rparr>"

definition IN_FLIGHT_STATUSES :: "string list" where
  "IN_FLIGHT_STATUSES = [''pending'', ''running'']"

definition in_flight :: "command_row \<Rightarrow> bool" where
  "in_flight r \<longleftrightarrow> wc_status r \<in> set IN_FLIGHT_STATUSES"

definition PRIORITY_INTERACTIVE :: int where "PRIORITY_INTERACTIVE = 100"
definition PRIORITY_BULK :: int where "PRIORITY_BULK = 0"

text \<open>
  The two partial unique constraints of the table, over the in-flight rows; a row without the
  target is outside of the constraint.
\<close>

definition same_report :: "command_row \<Rightarrow> command_row \<Rightarrow> bool" where
  "same_report r s \<longleftrightarrow> wc_command r = wc_command s \<and> wc_security_report r = wc_security_report s
     \<and> wc_security_report r \<noteq> None"

definition same_pr :: "command_row \<Rightarrow> command_row \<Rightarrow> bool" where
  "same_pr r s \<longleftrightarrow> wc_command r = wc_command s \<and> wc_pull_request r = wc_pull_request s
     \<and> wc_pull_request r \<noteq> None"

definition conflicts :: "command_row \<Rightarrow> command_row \<Rightarrow> bool" where
  "conflicts r s \<longleftrightarrow> in_flight r \<and> in_flight s \<and> (same_report r s \<or> same_pr r s)"

text \<open>
  An insert. The message of a violated unique constraint is the one SQLite gives; any other
  refusal of the database (a foreign key, a missing value) is the parameter \<open>refuse\<close>.
\<close>

definition UNIQUE_FAILED :: string where
  "UNIQUE_FAILED = ''UNIQUE constraint failed: core_workercommand.command, core_workercommand.''"

definition conflict_message :: "command_row \<Rightarrow> command_row list \<Rightarrow> string option" where
  "conflict_message r rows =
     (if list_ex (\<lambda>s. in_flight s \<and> same_report r s) rows then Some (UNIQUE_FAILED @ ''security_report_id'')
      else if list_ex (\<lambda>s. in_flight s \<and> same_pr r s) rows then Some (UNIQUE_FAILED @ ''pull_request_id'')
      else None)"

type_synonym refusal = "command_row \<Rightarrow> string option"

definition new_command :: "int \<Rightarrow> string \<Rightarrow> nat option \<Rightarrow> nat option \<Rightarrow> int \<Rightarrow> jdict \<Rightarrow> command_queue \<Rightarrow> command_row" where
  "new_command now command report pr priority kwargs q = \<lparr>wc_pk = q_next_pk q, wc_command = command,
     wc_status = ''pending'', wc_pull_request = pr, wc_security_report = report, wc_priority = priority,
     wc_kwargs = kwargs, wc_log = [], wc_error = [], wc_created_at = now, wc_started_at = None,
     wc_finished_at = None\<rparr>"

definition create_command :: "refusal \<Rightarrow> command_row \<Rightarrow> command_queue \<Rightarrow> string + command_queue" where
  "create_command refuse r q = (case conflict_message r (q_rows q) of Some msg \<Rightarrow> Inl msg
   | None \<Rightarrow> (case refuse r of Some msg \<Rightarrow> Inl msg
     | None \<Rightarrow> Inr \<lparr>q_rows = q_rows q @ [r], q_next_pk = q_next_pk q + 1\<rparr>))"

section \<open>The doors\<close>

type_synonym 'a answer = "(exn + 'a) \<times> command_queue"
type_synonym report_door = "refusal \<Rightarrow> int \<Rightarrow> nat \<Rightarrow> int \<Rightarrow> command_queue \<Rightarrow> bool answer"
type_synonym keyed_door = "refusal \<Rightarrow> int \<Rightarrow> int \<Rightarrow> int \<Rightarrow> command_queue \<Rightarrow> bool answer"

definition INFLIGHT_CONSTRAINTS :: "string list" where
  "INFLIGHT_CONSTRAINTS = [''unique_inflight_command_per_report'', ''unique_inflight_command_per_pr'']"

definition is_inflight_conflict :: "string \<Rightarrow> bool" where
  "is_inflight_conflict message \<longleftrightarrow> list_ex (\<lambda>name. sublist name message) INFLIGHT_CONSTRAINTS
     \<or> (sublist ''UNIQUE constraint failed'' message \<and> sublist ''command'' message
        \<and> (sublist ''pull_request_id'' message \<or> sublist ''security_report_id'' message))"

definition queue_command ::
    "refusal \<Rightarrow> int \<Rightarrow> string \<Rightarrow> nat option \<Rightarrow> nat option \<Rightarrow> int \<Rightarrow> command_queue \<Rightarrow> bool answer" where
  "queue_command refuse now command report pr priority q =
     (if (report = None) = (pr = None)
      then (Inl (Exn ''ValueError'' ''queue_command needs exactly one of report / pull_request''), q)
      else (case create_command refuse (new_command now command report pr priority [] q) q of
          Inl msg \<Rightarrow> (if is_inflight_conflict msg then (Inr False, q) else (Inl (Exn ''IntegrityError'' msg), q))
        | Inr q' \<Rightarrow> (Inr True, q')))"

definition queue_report :: "string \<Rightarrow> refusal \<Rightarrow> int \<Rightarrow> nat \<Rightarrow> int \<Rightarrow> command_queue \<Rightarrow> bool answer" where
  "queue_report command refuse now report priority q =
     queue_command refuse now command (Some report) None priority q"

definition queue_pr :: "string \<Rightarrow> refusal \<Rightarrow> int \<Rightarrow> nat \<Rightarrow> int \<Rightarrow> command_queue \<Rightarrow> bool answer" where
  "queue_pr command refuse now pr priority q =
     queue_command refuse now command None (Some pr) priority q"

definition queue_triage :: report_door where
  "queue_triage = queue_report ''run_security_triage''"
definition queue_verification :: report_door where
  "queue_verification = queue_report ''verify_security_report''"
definition queue_exploit_verification :: report_door where
  "queue_exploit_verification = queue_report ''verify_exploit''"
definition queue_patch_evaluation :: report_door where
  "queue_patch_evaluation = queue_report ''evaluate_patch''"
definition queue_hardening_mine :: report_door where
  "queue_hardening_mine = queue_report ''mine_report_hardening''"
definition queue_version_map :: report_door where
  "queue_version_map = queue_report ''map_report_versions''"
definition queue_introduction_scan :: report_door where
  "queue_introduction_scan = queue_report ''find_report_introduction''"
definition queue_fix_landed :: report_door where
  "queue_fix_landed = queue_report ''check_fix_landed''"
definition queue_zombie_assessment :: report_door where
  "queue_zombie_assessment = queue_pr ''assess_zombie_pr''"
definition queue_ci_analysis :: report_door where
  "queue_ci_analysis = queue_pr ''analyze_pr_ci''"

text \<open>
  The commands without a target: the in-flight rows are read and compared first. The insert
  is not guarded, so a refusal of the database is raised.
\<close>

definition in_flight_of :: "string \<Rightarrow> command_queue \<Rightarrow> command_row list" where
  "in_flight_of command q = filter (\<lambda>r. wc_command r = command \<and> in_flight r) (q_rows q)"

definition insert_targetless ::
    "refusal \<Rightarrow> int \<Rightarrow> string \<Rightarrow> int \<Rightarrow> jdict \<Rightarrow> command_queue \<Rightarrow> bool answer" where
  "insert_targetless refuse now command priority kwargs q =
     (case create_command refuse (new_command now command None None priority kwargs q) q of
        Inl msg \<Rightarrow> (Inl (Exn ''IntegrityError'' msg), q) | Inr q' \<Rightarrow> (Inr True, q'))"

definition scope_of :: "jdict \<Rightarrow> string option" where
  "scope_of kwargs = (case dict_get (JStr SCOPE_ALL) kwargs ''agent_scope'' of JStr s \<Rightarrow> Some s | _ \<Rightarrow> None)"

definition covered_by :: "string \<Rightarrow> command_row \<Rightarrow> bool" where
  "covered_by wanted r = (case scope_of (wc_kwargs r) of None \<Rightarrow> False | Some running \<Rightarrow> scope_covers running wanted)"

definition queue_targetless ::
    "refusal \<Rightarrow> int \<Rightarrow> string \<Rightarrow> int \<Rightarrow> nat option \<Rightarrow> string \<Rightarrow> command_queue \<Rightarrow> bool answer" where
  "queue_targetless refuse now command priority exclude_pk agent_scope q =
     (let rows = filter (\<lambda>r. exclude_pk \<noteq> Some (wc_pk r)) (in_flight_of command q) in
      if list_ex (covered_by agent_scope) rows then (Inr False, q)
      else insert_targetless refuse now command priority
        (if agent_scope = SCOPE_ALL then [] else [(''agent_scope'', JStr agent_scope)]) q)"

definition queue_hardening_sweep :: "refusal \<Rightarrow> int \<Rightarrow> int \<Rightarrow> string \<Rightarrow> command_queue \<Rightarrow> bool answer" where
  "queue_hardening_sweep refuse now priority agent_scope q =
     queue_targetless refuse now ''mine_hardening_ideas'' priority None agent_scope q"

definition queue_recheck_poll :: "refusal \<Rightarrow> int \<Rightarrow> int \<Rightarrow> nat option \<Rightarrow> command_queue \<Rightarrow> bool answer" where
  "queue_recheck_poll refuse now priority exclude_pk q =
     queue_targetless refuse now ''poll_security_rechecks'' priority exclude_pk SCOPE_ALL q"

definition SWEEP_COMMANDS :: "string list" where
  "SWEEP_COMMANDS = [''match_security_branches'', ''scan_security_fixed'', ''check_fixes_landed'', ''check_cve_fixes_landed'']"

definition queue_branch_sweep :: "refusal \<Rightarrow> int \<Rightarrow> string \<Rightarrow> int \<Rightarrow> string \<Rightarrow> command_queue \<Rightarrow> bool answer" where
  "queue_branch_sweep refuse now command priority agent_scope q =
     (if command \<notin> set SWEEP_COMMANDS then (Inl (Exn ''ValueError'' (''queue_branch_sweep only queues (''
         @ join '', '' (map str_repr SWEEP_COMMANDS) @ ''), got '' @ str_repr command)), q)
      else queue_targetless refuse now command priority None agent_scope q)"

definition queue_zombie_scan :: "refusal \<Rightarrow> int \<Rightarrow> int \<Rightarrow> command_queue \<Rightarrow> bool answer" where
  "queue_zombie_scan refuse now priority q = queue_targetless refuse now ''scan_zombie_prs'' priority None SCOPE_ALL q"

text \<open>The commands scoped by one keyword argument, an identifier.\<close>

definition queue_keyed ::
    "string \<Rightarrow> string \<Rightarrow> refusal \<Rightarrow> int \<Rightarrow> int \<Rightarrow> int \<Rightarrow> command_queue \<Rightarrow> bool answer" where
  "queue_keyed command key refuse now ident priority q =
     (if list_ex (\<lambda>r. jget (wc_kwargs r) key = JInt ident) (in_flight_of command q) then (Inr False, q)
      else insert_targetless refuse now command priority [(key, JInt ident)] q)"

definition queue_hardening_confirm :: keyed_door where
  "queue_hardening_confirm = queue_keyed ''confirm_hardening_idea'' ''idea_id''"
definition queue_cve_match :: keyed_door where
  "queue_cve_match = queue_keyed ''match_cves_to_reports'' ''project_id''"
definition queue_introduced_scan :: keyed_door where
  "queue_introduced_scan = queue_keyed ''scan_introduced_cves'' ''project_id''"
definition queue_variant_scan :: keyed_door where
  "queue_variant_scan = queue_keyed ''scan_security_variants'' ''project_id''"

text \<open>
  After triage: the version map and the verifier together, unless the report has no project or
  the verifier's gate gives a reason.
\<close>

record verifier_config =
  vf_enabled :: bool
  vf_reviewer :: string
  vf_resolves :: bool  \<comment> \<open>whether \<open>resolve_verifier_reviewer\<close> finds the reviewer\<close>
  vf_configured :: "string list"

definition verifier_gate_reason :: "verifier_config \<Rightarrow> string" where
  "verifier_gate_reason v = (if \<not> vf_enabled v
     then ''security_triage.verifier.enabled is false in operator.yaml '' @ em_dash @ '' it defaults ''
       @ ''true, so either something set it or the config failed to load and took ''
       @ ''every other setting with it (`manage.py show_config` tells those apart)''
     else if \<not> vf_resolves v
     then ''no agent_cli_reviewers entry named '' @ str_repr (vf_reviewer v) @ '' (configured: ''
       @ (if join '', '' (vf_configured v) = [] then ''none'' else join '', '' (vf_configured v))
       @ ''), so there is no coding-agent CLI / checkout to run''
     else [])"

definition queue_version_follow_on ::
    "refusal \<Rightarrow> int \<Rightarrow> verifier_config \<Rightarrow> nat \<Rightarrow> bool \<Rightarrow> int \<Rightarrow> command_queue
       \<Rightarrow> (bool \<times> bool \<times> string) answer" where
  "queue_version_follow_on refuse now v report has_project priority q =
     (if \<not> has_project then (Inr (False, False, ''report has no project, so there is no repo to check it against''), q)
      else if verifier_gate_reason v \<noteq> [] then (Inr (False, False, verifier_gate_reason v), q)
      else (case queue_version_map refuse now report priority q of
          (Inl e, q1) \<Rightarrow> (Inl e, q1)
        | (Inr mapped, q1) \<Rightarrow> (case queue_verification refuse now report priority q1 of
            (Inl e, q2) \<Rightarrow> (Inl e, q2)
          | (Inr verified, q2) \<Rightarrow> (Inr (mapped, verified, []), q2))))"

definition queue_triage_if_enabled ::
    "refusal \<Rightarrow> int \<Rightarrow> bool \<Rightarrow> bool \<Rightarrow> nat \<Rightarrow> command_queue \<Rightarrow> bool answer" where
  "queue_triage_if_enabled refuse now enabled auto_triage report q =
     (if \<not> enabled \<or> \<not> auto_triage then (Inr False, q) else queue_triage refuse now report PRIORITY_BULK q)"

definition queue_triage_on_request ::
    "refusal \<Rightarrow> int \<Rightarrow> nat \<Rightarrow> int \<Rightarrow> command_queue \<Rightarrow> bool answer" where
  "queue_triage_on_request refuse now report priority q = queue_triage refuse now report priority q"

definition cancel_pending_for_reports :: "nat list \<Rightarrow> command_queue \<Rightarrow> nat \<times> command_queue" where
  "cancel_pending_for_reports report_ids q = (let
     doomed = (\<lambda>r. wc_status r = ''pending'' \<and> (case wc_security_report r of None \<Rightarrow> False | Some i \<Rightarrow> i \<in> set report_ids))
   in (length (filter doomed (q_rows q)), q\<lparr>q_rows := filter (\<lambda>r. \<not> doomed r) (q_rows q)\<rparr>))"

section \<open>The worker's side\<close>

definition MAX_COMMANDS_PER_DRAIN :: int where "MAX_COMMANDS_PER_DRAIN = 20"

definition COMMAND_COST_TIER :: "(string \<times> int) list" where
  "COMMAND_COST_TIER = [
     (''map_report_versions'', 0), (''find_report_introduction'', 0), (''match_security_branches'', 0),
     (''scan_security_fixed'', 0), (''check_fix_landed'', 0), (''check_fixes_landed'', 0),
     (''check_cve_fixes_landed'', 0),
     (''run_security_triage'', 1), (''run_security_sandbox'', 1), (''analyze_pr_ci'', 1),
     (''assess_zombie_pr'', 1), (''scan_zombie_prs'', 1), (''poll_security_rechecks'', 1),
     (''match_cves_to_reports'', 1),
     (''verify_security_report'', 2), (''verify_exploit'', 2), (''evaluate_patch'', 2),
     (''mine_report_hardening'', 2), (''mine_hardening_ideas'', 2), (''confirm_hardening_idea'', 2),
     (''scan_introduced_cves'', 2), (''scan_security_variants'', 2), (''run_agents'', 2), (''run_dual_tests'', 2)]"

definition DEFAULT_COMMAND_TIER :: int where "DEFAULT_COMMAND_TIER = 2"

definition tier_of :: "command_row \<Rightarrow> int" where
  "tier_of r = dict_get DEFAULT_COMMAND_TIER COMMAND_COST_TIER (wc_command r)"

definition claim_key :: "command_row \<Rightarrow> int \<times> int \<times> int" where
  "claim_key r = (- wc_priority r, tier_of r, wc_created_at r)"

text \<open>A lane: the least priority it takes and the priority it stays below.\<close>

record lane =
  min_priority :: "int option"
  max_priority :: "int option"

definition in_lane :: "lane \<Rightarrow> int \<Rightarrow> bool" where
  "in_lane la p \<longleftrightarrow> (case min_priority la of None \<Rightarrow> True | Some m \<Rightarrow> m \<le> p)
     \<and> (case max_priority la of None \<Rightarrow> True | Some m \<Rightarrow> p < m)"

definition claimable :: "bool \<Rightarrow> lane \<Rightarrow> command_row \<Rightarrow> bool" where
  "claimable triage_alive la r \<longleftrightarrow> wc_status r = ''pending'' \<and> in_lane la (wc_priority r)
     \<and> (triage_alive \<or> wc_command r \<noteq> ''run_security_triage'')"

definition select_command :: "bool \<Rightarrow> lane \<Rightarrow> command_queue \<Rightarrow> nat option" where
  "select_command triage_alive la q =
     map_option wc_pk (first_by claim_key (filter (claimable triage_alive la) (q_rows q)))"

text \<open>A conditional update of the rows: those it changed, and the queue after it.\<close>

definition update_rows :: "(command_row \<Rightarrow> bool) \<Rightarrow> (command_row \<Rightarrow> command_row) \<Rightarrow> command_queue \<Rightarrow> command_queue" where
  "update_rows p f q = q\<lparr>q_rows := map (\<lambda>r. if p r then f r else r) (q_rows q)\<rparr>"

definition row_with_pk :: "nat \<Rightarrow> command_queue \<Rightarrow> command_row option" where
  "row_with_pk pk q = find (\<lambda>r. wc_pk r = pk) (q_rows q)"

definition free_row :: "nat \<Rightarrow> command_row \<Rightarrow> bool" where
  "free_row cmd_id r \<longleftrightarrow> wc_pk r = cmd_id \<and> wc_status r = ''pending''"

definition claimed :: "int \<Rightarrow> command_row \<Rightarrow> command_row" where
  "claimed now r = r\<lparr>wc_status := ''running'', wc_started_at := Some now\<rparr>"

definition claim_command :: "int \<Rightarrow> nat \<Rightarrow> command_queue \<Rightarrow> (command_row \<times> command_queue) option" where
  "claim_command now cmd_id q = (let q' = update_rows (free_row cmd_id) (claimed now) q in
     if length (filter (free_row cmd_id) (q_rows q)) \<noteq> 1 then None
     else map_option (\<lambda>r. (r, q')) (row_with_pk cmd_id q'))"

definition requeue_interrupted_commands :: "command_queue \<Rightarrow> nat \<times> command_queue" where
  "requeue_interrupted_commands q = (length (filter (\<lambda>r. wc_status r = ''running'') (q_rows q)),
     update_rows (\<lambda>r. wc_status r = ''running'') (\<lambda>r. r\<lparr>wc_status := ''pending'', wc_started_at := None\<rparr>) q)"

definition STUCK_COMMAND_TIMEOUT_SECONDS :: int where "STUCK_COMMAND_TIMEOUT_SECONDS = 6 * 60 * 60"

definition is_stuck :: "int \<Rightarrow> command_row \<Rightarrow> bool" where
  "is_stuck now r \<longleftrightarrow> wc_status r = ''running'' \<and> (case wc_started_at r of None \<Rightarrow> False
     | Some t \<Rightarrow> t < now - STUCK_COMMAND_TIMEOUT_SECONDS)"

definition stuck_error :: string where
  "stuck_error = ''No result after 6h '' @ em_dash @ '' the worker gave up on it. ''
     @ ''The handler hung rather than failing; re-run it if you still want it.''"

definition fail_stuck_commands :: "int \<Rightarrow> command_queue \<Rightarrow> nat \<times> command_queue" where
  "fail_stuck_commands now q = (length (filter (is_stuck now) (q_rows q)),
     update_rows (is_stuck now) (\<lambda>r. r\<lparr>wc_status := ''failed'', wc_error := stuck_error, wc_finished_at := Some now\<rparr>) q)"

section \<open>Running commands\<close>

text \<open>How a handler ends, with the log it leaves on the command.\<close>

datatype outcome = Completed string | Raised exn string | Interrupted exn string

record 'w worker_host =
  wh_monotonic :: "'w \<Rightarrow> int"
  wh_now :: "'w \<Rightarrow> int"
  wh_triage_alive :: "'w \<Rightarrow> bool"
  wh_meanwhile :: "command_queue \<Rightarrow> 'w \<Rightarrow> command_queue \<times> 'w"
  wh_handle :: "command_row \<Rightarrow> command_queue \<Rightarrow> 'w \<Rightarrow> outcome \<times> command_queue \<times> 'w"

definition HANDLED_COMMANDS :: "string list" where
  "HANDLED_COMMANDS = [''run_dual_tests'', ''run_security_sandbox'', ''run_security_triage'', ''verify_security_report'',
     ''verify_exploit'', ''evaluate_patch'', ''mine_report_hardening'', ''mine_hardening_ideas'',
     ''confirm_hardening_idea'', ''map_report_versions'', ''find_report_introduction'', ''poll_security_rechecks'',
     ''match_security_branches'', ''scan_security_fixed'', ''check_fix_landed'', ''check_fixes_landed'',
     ''check_cve_fixes_landed'', ''run_agents'', ''scan_zombie_prs'', ''assess_zombie_pr'', ''analyze_pr_ci'',
     ''match_cves_to_reports'', ''scan_introduced_cves'', ''scan_security_variants'']"

definition dispatch :: "'w worker_host \<Rightarrow> command_row \<Rightarrow> command_queue \<Rightarrow> 'w \<Rightarrow> outcome \<times> command_queue \<times> 'w" where
  "dispatch h cmd q w = (if wc_command cmd \<in> set HANDLED_COMMANDS then wh_handle h cmd q w
     else (Raised (Exn ''ValueError'' (''Unknown WorkerCommand command='' @ str_repr (wc_command cmd))) (wc_log cmd), q, w))"

fun error_text :: "exn \<Rightarrow> string" where
  "error_text (Exn cls msg) = take 5000 (cls @ '': '' @ msg)"

fun closed :: "outcome \<Rightarrow> command_row \<Rightarrow> command_row" where
  "closed (Completed lg) cmd = cmd\<lparr>wc_status := ''completed'', wc_log := lg\<rparr>"
| "closed (Raised e lg) cmd = cmd\<lparr>wc_status := ''failed'', wc_error := error_text e, wc_log := lg\<rparr>"
| "closed (Interrupted e lg) cmd =
     cmd\<lparr>wc_status := ''failed'', wc_error := ''Interrupted by worker shutdown'', wc_log := lg\<rparr>"

text \<open>\<open>cmd.save(update_fields=[...])\<close>: it raises when the row is gone.\<close>

definition save_command :: "command_row \<Rightarrow> command_queue \<Rightarrow> exn + command_queue" where
  "save_command cmd q = (if \<not> list_ex (\<lambda>r. wc_pk r = wc_pk cmd) (q_rows q)
     then Inl (Exn ''DatabaseError'' ''Save with update_fields did not affect any rows.'')
     else Inr (update_rows (\<lambda>r. wc_pk r = wc_pk cmd) (\<lambda>r. r\<lparr>wc_status := wc_status cmd, wc_error := wc_error cmd,
       wc_log := wc_log cmd, wc_finished_at := wc_finished_at cmd\<rparr>) q))"

definition finish_command :: "int \<Rightarrow> outcome \<Rightarrow> command_row \<Rightarrow> command_queue \<Rightarrow> exn + command_queue" where
  "finish_command now out cmd q = save_command ((closed out cmd)\<lparr>wc_finished_at := Some now\<rparr>) q"

text \<open>The loop: at most \<open>n\<close> more commands, of which \<open>k\<close> are done.\<close>

fun drain ::
    "nat \<Rightarrow> 'w worker_host \<Rightarrow> lane \<Rightarrow> int option \<Rightarrow> nat \<Rightarrow> command_queue \<Rightarrow> 'w \<Rightarrow> (exn + nat) \<times> command_queue \<times> 'w" where
  "drain 0 h la deadline k q w = (Inr k, q, w)"
| "drain (Suc n) h la deadline k q w =
     (if (case deadline of None \<Rightarrow> False | Some d \<Rightarrow> d \<le> wh_monotonic h w) then (Inr k, q, w)
      else (case select_command (wh_triage_alive h w) la q of
          None \<Rightarrow> (Inr k, q, w)
        | Some cmd_id \<Rightarrow> (let (q1, w1) = wh_meanwhile h q w in
            case claim_command (wh_now h w1) cmd_id q1 of
              None \<Rightarrow> drain n h la deadline (Suc k) q1 w1
            | Some (cmd, q2) \<Rightarrow> (let (out, q3, w3) = dispatch h cmd q2 w1 in
                case finish_command (wh_now h w3) out cmd q3 of
                  Inl e \<Rightarrow> (Inl e, q3, w3)
                | Inr q4 \<Rightarrow> (case out of Interrupted e _ \<Rightarrow> (Inl e, q4, w3)
                    | _ \<Rightarrow> drain n h la deadline (Suc k) q4 w3)))))"

definition process_pending_commands ::
    "'w worker_host \<Rightarrow> int option \<Rightarrow> lane \<Rightarrow> int option \<Rightarrow> command_queue \<Rightarrow> 'w \<Rightarrow> (exn + nat) \<times> command_queue \<times> 'w" where
  "process_pending_commands h limit la deadline_seconds q w =
     drain (nat (case limit of None \<Rightarrow> MAX_COMMANDS_PER_DRAIN | Some l \<Rightarrow> l)) h la
       (map_option (\<lambda>d. wh_monotonic h w + d) deadline_seconds) 0 q w"

end
