(* ===== verification/QueueSafety.thy ===== *)
theory QueueSafety
  imports CommandQueue
begin

text \<open>
  The command queue as a concurrent system: any number of worker threads, the dashboard's
  doors, the sweeps and a restart, interleaved in any order. The invariant of the reachable
  states, and the properties of the queue that follow from it.
\<close>

section \<open>What an operation does to the rows\<close>

definition same_identity :: "command_row \<Rightarrow> command_row \<Rightarrow> bool" where
  "same_identity r s \<longleftrightarrow> wc_pk r = wc_pk s \<and> wc_command r = wc_command s \<and> wc_pull_request r = wc_pull_request s
     \<and> wc_security_report r = wc_security_report s \<and> wc_priority r = wc_priority s"

definition table_ok :: "command_queue \<Rightarrow> bool" where
  "table_ok q \<longleftrightarrow> distinct (map wc_pk (q_rows q)) \<and> (\<forall>r \<in> set (q_rows q). wc_pk r < q_next_pk q)
     \<and> (\<forall>r \<in> set (q_rows q). \<forall>s \<in> set (q_rows q). wc_pk r \<noteq> wc_pk s \<longrightarrow> \<not> conflicts r s)"

lemma same_identity_refl [simp]: "same_identity r r"
  by (simp add: same_identity_def)

lemma conflicts_mono:
  "same_identity r r' \<Longrightarrow> same_identity s s' \<Longrightarrow> (in_flight r \<Longrightarrow> in_flight r') \<Longrightarrow> (in_flight s \<Longrightarrow> in_flight s')
     \<Longrightarrow> conflicts r s \<Longrightarrow> conflicts r' s'"
  by (auto simp: conflicts_def same_identity_def same_report_def same_pr_def)

lemma rows_update_rows [simp]: "q_rows (update_rows p f q) = map (\<lambda>r. if p r then f r else r) (q_rows q)"
  and next_update_rows [simp]: "q_next_pk (update_rows p f q) = q_next_pk q"
  by (simp_all add: update_rows_def)

lemma map_rows_ok:
  assumes "table_ok q" and "q_rows q' = map g (q_rows q)" and "q_next_pk q' = q_next_pk q"
    and "\<And>r. same_identity (g r) r" and "\<And>r. in_flight (g r) \<Longrightarrow> in_flight r"
  shows "table_ok q'"
proof -
  have pk: "wc_pk (g r) = wc_pk r" for r using assms(4) unfolding same_identity_def by blast
  have "\<not> conflicts (g r) (g s)"
    if "r \<in> set (q_rows q)" "s \<in> set (q_rows q)" "wc_pk r \<noteq> wc_pk s" for r s
    using assms(1) that conflicts_mono [OF assms(4) assms(4) assms(5) assms(5)]
    unfolding table_ok_def by blast
  moreover have "distinct (map (wc_pk \<circ> g) (q_rows q))"
    using assms(1) pk unfolding table_ok_def by (simp add: comp_def)
  ultimately show ?thesis
    using assms(1) pk unfolding table_ok_def assms(2,3) set_map map_map ball_simps by simp
qed

lemma update_rows_ok:
  assumes "table_ok q" and "\<And>r. p r \<Longrightarrow> same_identity (f r) r"
    and "\<And>r. p r \<Longrightarrow> in_flight (f r) \<Longrightarrow> in_flight r"
  shows "table_ok (update_rows p f q)"
proof (rule map_rows_ok [OF assms(1) rows_update_rows next_update_rows])
  fix r
  show "same_identity (if p r then f r else r) r" using assms(2) by simp
  show "in_flight (if p r then f r else r) \<Longrightarrow> in_flight r" using assms(3) [of r] by (cases "p r") simp_all
qed

lemma subset_rows_ok:
  assumes "table_ok q" and "q_rows q' = filter p (q_rows q)" and "q_next_pk q' = q_next_pk q"
  shows "table_ok q'"
  using assms unfolding table_ok_def by (auto simp: distinct_map_filter)

lemma create_command_rows:
  "create_command refuse r q = Inr q' \<Longrightarrow> q_rows q' = q_rows q @ [r] \<and> q_next_pk q' = Suc (q_next_pk q)
     \<and> (\<forall>s \<in> set (q_rows q). \<not> conflicts r s)"
  by (auto simp: create_command_def conflict_message_def conflicts_def list_ex_iff split: option.splits if_splits)

lemma create_command_ok:
  assumes "table_ok q" and "create_command refuse r q = Inr q'" and "wc_pk r = q_next_pk q"
  shows "table_ok q'"
proof -
  note c = create_command_rows [OF assms(2)]
  have "conflicts s r \<Longrightarrow> conflicts r s" for s
    unfolding conflicts_def same_report_def same_pr_def by metis
  then show ?thesis using assms(1,3) c unfolding table_ok_def by (auto simp: less_Suc_eq)
qed

lemma unique_row:
  "table_ok q \<Longrightarrow> r \<in> set (q_rows q) \<Longrightarrow> s \<in> set (q_rows q) \<Longrightarrow> wc_pk r = wc_pk s \<Longrightarrow> r = s"
  unfolding table_ok_def distinct_map inj_on_def by blast

lemma row_with_pk_Some: "row_with_pk k q = Some r \<Longrightarrow> r \<in> set (q_rows q) \<and> wc_pk r = k"
  unfolding row_with_pk_def by (auto simp: find_Some_iff)

lemma row_with_pk_None: "row_with_pk k q = None \<longleftrightarrow> (\<forall>r \<in> set (q_rows q). wc_pk r \<noteq> k)"
  unfolding row_with_pk_def find_None_iff by blast

lemma claimed_pk [simp]: "wc_pk (claimed now r) = wc_pk r"
  by (simp add: claimed_def)

lemma select_command_Some:
  assumes "select_command alive la q = Some k"
  obtains r where "r \<in> set (q_rows q)" "wc_pk r = k" "claimable alive la r"
    "\<And>s. s \<in> set (q_rows q) \<Longrightarrow> claimable alive la s \<Longrightarrow> claim_key r \<le> claim_key s"
proof -
  obtain r where r: "first_by claim_key (filter (claimable alive la) (q_rows q)) = Some r" "k = wc_pk r"
    using assms by (auto simp: select_command_def)
  show ?thesis using first_by_Some [OF r(1)] r(2) by (intro that [of r]) simp_all
qed

text \<open>A claim takes the one pending row of its key, and nothing else changes.\<close>

lemma claim_command_Some:
  assumes "claim_command now k q = Some (cmd, q')" and "table_ok q"
  obtains r where "r \<in> set (q_rows q)" "free_row k r" "cmd = claimed now r" "q' = update_rows (free_row k) (claimed now) q"
proof -
  have a: "filter (free_row k) (q_rows q) \<noteq> []" "row_with_pk k (update_rows (free_row k) (claimed now) q) = Some cmd"
    "q' = update_rows (free_row k) (claimed now) q"
    using assms(1) unfolding claim_command_def Let_def by (auto split: if_splits)
  then obtain r where r: "r \<in> set (q_rows q)" "free_row k r" unfolding filter_empty_conv by blast
  obtain s where s: "s \<in> set (q_rows q)" "cmd = (if free_row k s then claimed now s else s)" "wc_pk cmd = k"
    using row_with_pk_Some [OF a(2)] by auto
  then have "wc_pk s = k" by (auto split: if_splits)
  then have "s = r" using unique_row [OF assms(2) s(1) r(1)] r(2) unfolding free_row_def by simp
  then show ?thesis using that [OF r] s(2) a(3) r(2) by simp
qed

lemma claim_command_None:
  assumes "claim_command now k q = None" and "table_ok q" and "r \<in> set (q_rows q)"
  shows "\<not> free_row k r"
proof
  assume f: "free_row k r"
  have d: "distinct (q_rows q)" using assms(2) unfolding table_ok_def by (simp add: distinct_map)
  have "y = r" if "y \<in> set (q_rows q)" "free_row k y" for y
    using unique_row [OF assms(2) that(1) assms(3)] that(2) f unfolding free_row_def by metis
  then have "filter (free_row k) (q_rows q) = [r]" using f by (rule filter_single [of _ r, OF d assms(3), rotated])
  moreover have "claimed now r \<in> set (q_rows (update_rows (free_row k) (claimed now) q))"
    using assms(3) f unfolding rows_update_rows set_map image_iff by (intro bexI [of _ r]) simp_all
  then have "row_with_pk k (update_rows (free_row k) (claimed now) q) \<noteq> None"
    using f unfolding row_with_pk_None free_row_def by (metis claimed_pk)
  ultimately show False using assms(1) unfolding claim_command_def Let_def by simp
qed

section \<open>The concurrent system\<close>

text \<open>What a worker thread is doing: nothing, about to claim the row it selected, or running a command.\<close>

datatype phase = Idle | Chose nat | Working command_row

record system =
  sy_queue :: command_queue
  sy_now :: int
  sy_thread :: "nat \<Rightarrow> phase"

text \<open>
  The steps. The doors with a target check and insert in one transaction; those without read
  first and insert later, so here their insert may come at any time. A row disappears when its
  report or PR is deleted (\<open>erase\<close>). A restart ends every thread, and requeues.
\<close>

inductive queue_step :: "(nat \<Rightarrow> lane) \<Rightarrow> system \<Rightarrow> system \<Rightarrow> bool" for lanes where
  door: "queue_command refuse (sy_now s) command report pr priority (sy_queue s) = (r, q')
     \<Longrightarrow> queue_step lanes s (s\<lparr>sy_queue := q'\<rparr>)"
| sweep_door: "insert_targetless refuse (sy_now s) command priority kwargs (sy_queue s) = (r, q')
     \<Longrightarrow> queue_step lanes s (s\<lparr>sy_queue := q'\<rparr>)"
| cancel: "queue_step lanes s (s\<lparr>sy_queue := snd (cancel_pending_for_reports ids (sy_queue s))\<rparr>)"
| erase: "q_rows q' = filter p (q_rows (sy_queue s)) \<Longrightarrow> q_next_pk q' = q_next_pk (sy_queue s)
     \<Longrightarrow> queue_step lanes s (s\<lparr>sy_queue := q'\<rparr>)"
| tick: "sy_now s \<le> now \<Longrightarrow> queue_step lanes s (s\<lparr>sy_now := now\<rparr>)"
| choose: "sy_thread s t = Idle \<Longrightarrow> select_command alive (lanes t) (sy_queue s) = Some k
     \<Longrightarrow> queue_step lanes s (s\<lparr>sy_thread := (sy_thread s)(t := Chose k)\<rparr>)"
| claim: "sy_thread s t = Chose k \<Longrightarrow> claim_command (sy_now s) k (sy_queue s) = Some (cmd, q')
     \<Longrightarrow> queue_step lanes s (s\<lparr>sy_queue := q', sy_thread := (sy_thread s)(t := Working cmd)\<rparr>)"
| lose: "sy_thread s t = Chose k \<Longrightarrow> claim_command (sy_now s) k (sy_queue s) = None
     \<Longrightarrow> queue_step lanes s (s\<lparr>sy_thread := (sy_thread s)(t := Idle)\<rparr>)"
| finish: "sy_thread s t = Working cmd \<Longrightarrow> finish_command (sy_now s) out cmd (sy_queue s) = Inr q'
     \<Longrightarrow> queue_step lanes s (s\<lparr>sy_queue := q', sy_thread := (sy_thread s)(t := Idle)\<rparr>)"
| finish_gone: "sy_thread s t = Working cmd \<Longrightarrow> finish_command (sy_now s) out cmd (sy_queue s) = Inl e
     \<Longrightarrow> queue_step lanes s (s\<lparr>sy_thread := (sy_thread s)(t := Idle)\<rparr>)"
| sweep: "queue_step lanes s (s\<lparr>sy_queue := snd (fail_stuck_commands (sy_now s) (sy_queue s))\<rparr>)"
| restart: "queue_step lanes s (s\<lparr>sy_queue := snd (requeue_interrupted_commands (sy_queue s)), sy_thread := (\<lambda>t. Idle)\<rparr>)"

definition initial :: "int \<Rightarrow> system" where
  "initial now = \<lparr>sy_queue = empty_queue, sy_now = now, sy_thread = (\<lambda>t. Idle)\<rparr>"

inductive reachable :: "(nat \<Rightarrow> lane) \<Rightarrow> system \<Rightarrow> bool" for lanes where
  start: "reachable lanes (initial now)"
| next_step: "reachable lanes s \<Longrightarrow> queue_step lanes s s' \<Longrightarrow> reachable lanes s'"

section \<open>The invariant\<close>

text \<open>
  The row of a command that is being run is running since its claim, or was failed by the
  sweep after the timeout.
\<close>

definition row_of :: "int \<Rightarrow> command_row \<Rightarrow> command_row \<Rightarrow> bool" where
  "row_of now c r \<longleftrightarrow> same_identity r c \<and>
     (wc_status r = ''running'' \<and> wc_started_at r = wc_started_at c \<or>
      wc_status r = ''failed'' \<and> (\<exists>s. wc_started_at c = Some s \<and> s < now - STUCK_COMMAND_TIMEOUT_SECONDS))"

fun thread_ok :: "int \<Rightarrow> command_queue \<Rightarrow> lane \<Rightarrow> phase \<Rightarrow> bool" where
  "thread_ok now q la Idle \<longleftrightarrow> True"
| "thread_ok now q la (Chose k) \<longleftrightarrow> k < q_next_pk q
     \<and> (\<forall>r \<in> set (q_rows q). wc_pk r = k \<longrightarrow> in_lane la (wc_priority r))"
| "thread_ok now q la (Working c) \<longleftrightarrow> wc_pk c < q_next_pk q \<and> in_lane la (wc_priority c)
     \<and> (\<exists>s \<le> now. wc_started_at c = Some s) \<and> (\<forall>r \<in> set (q_rows q). wc_pk r = wc_pk c \<longrightarrow> row_of now c r)"

definition exclusive :: "system \<Rightarrow> bool" where
  "exclusive s \<longleftrightarrow> (\<forall>t u c d. sy_thread s t = Working c \<longrightarrow> sy_thread s u = Working d
     \<longrightarrow> wc_pk c = wc_pk d \<longrightarrow> t = u)"

definition owned :: "system \<Rightarrow> bool" where
  "owned s \<longleftrightarrow> (\<forall>r \<in> set (q_rows (sy_queue s)). wc_status r = ''running'' \<longrightarrow>
     (\<exists>t c. sy_thread s t = Working c \<and> wc_pk c = wc_pk r))"

definition system_ok :: "(nat \<Rightarrow> lane) \<Rightarrow> system \<Rightarrow> bool" where
  "system_ok lanes s \<longleftrightarrow> table_ok (sy_queue s) \<and> exclusive s \<and> owned s
     \<and> (\<forall>t. thread_ok (sy_now s) (sy_queue s) (lanes t) (sy_thread s t))"

text \<open>
  A thread stays fine when every row it can see comes from the same row before, unchanged,
  failed as stuck, or not the one it runs.
\<close>

definition evolved :: "int \<Rightarrow> nat option \<Rightarrow> command_row \<Rightarrow> command_row \<Rightarrow> bool" where
  "evolved now k r r' \<longleftrightarrow> same_identity r' r \<and>
     (wc_status r' = wc_status r \<and> wc_started_at r' = wc_started_at r
      \<or> is_stuck now r \<and> wc_status r' = ''failed'' \<or> k \<noteq> Some (wc_pk r))"

fun working_on :: "phase \<Rightarrow> nat option" where
  "working_on (Working c) = Some (wc_pk c)"
| "working_on _ = None"

lemma same_identity_trans: "same_identity r s \<Longrightarrow> same_identity s u \<Longrightarrow> same_identity r u"
  and same_identity_pk: "same_identity r s \<Longrightarrow> wc_pk r = wc_pk s"
  and same_identity_priority: "same_identity r s \<Longrightarrow> wc_priority r = wc_priority s"
  by (simp_all add: same_identity_def)

lemma row_of_evolved:
  assumes "row_of now c r" and "evolved now' (Some (wc_pk c)) r r'" and "now \<le> now'"
  shows "row_of now' c r'"
proof -
  have "wc_pk c = wc_pk r" using assms(1) unfolding row_of_def by (metis same_identity_pk)
  moreover have "same_identity r' c" using assms(1,2) unfolding row_of_def evolved_def by (blast intro: same_identity_trans)
  ultimately show ?thesis
    using assms unfolding row_of_def evolved_def is_stuck_def by (auto split: option.splits)
qed

lemma thread_ok_evolved:
  assumes "thread_ok now q la ph" and "now \<le> now'" and "q_next_pk q \<le> q_next_pk q'"
    and "\<And>r'. r' \<in> set (q_rows q') \<Longrightarrow> wc_pk r' < q_next_pk q \<Longrightarrow>
      \<exists>r \<in> set (q_rows q). evolved now' (working_on ph) r r'"
  shows "thread_ok now' q' la ph"
proof (cases ph)
  case (Chose k)
  have "in_lane la (wc_priority r')" if r': "r' \<in> set (q_rows q')" "wc_pk r' = k" for r'
  proof -
    obtain r where "r \<in> set (q_rows q)" "same_identity r' r"
      using assms(1,4) r' Chose unfolding evolved_def by auto
    then show ?thesis using assms(1) r'(2) Chose
      by (metis same_identity_pk same_identity_priority thread_ok.simps(2))
  qed
  then show ?thesis using assms(1,3) Chose by simp
next
  case (Working c)
  have "row_of now' c r'" if r': "r' \<in> set (q_rows q')" "wc_pk r' = wc_pk c" for r'
  proof -
    have "wc_pk r' < q_next_pk q" using assms(1) r'(2) Working by simp
    then obtain r where r: "r \<in> set (q_rows q)" "evolved now' (Some (wc_pk c)) r r'"
      using assms(4) [OF r'(1)] Working by auto
    moreover have "wc_pk r = wc_pk c" using r(2) r'(2) unfolding evolved_def by (metis same_identity_pk)
    ultimately show ?thesis using assms(1,2) Working row_of_evolved by auto
  qed
  moreover have "\<exists>s \<le> now'. wc_started_at c = Some s" using assms(1,2) Working by fastforce
  ultimately show ?thesis using assms(1,3) Working by simp
qed simp

section \<open>Every step keeps the invariant\<close>

lemma evolved_refl: "evolved now k r r"
  by (simp add: evolved_def)

lemma exclusive_cong:
  "exclusive s \<Longrightarrow> (\<And>t c. sy_thread s' t = Working c \<Longrightarrow> sy_thread s t = Working c) \<Longrightarrow> exclusive s'"
  unfolding exclusive_def by blast

lemma owned_cong:
  assumes "owned s"
    and "\<And>r'. r' \<in> set (q_rows (sy_queue s')) \<Longrightarrow> wc_status r' = ''running'' \<Longrightarrow>
      \<exists>r \<in> set (q_rows (sy_queue s)). wc_pk r = wc_pk r' \<and> wc_status r = ''running''"
    and "\<And>t c. sy_thread s t = Working c \<Longrightarrow> sy_thread s' t = Working c"
  shows "owned s'"
  using assms unfolding owned_def by metis

lemma system_okD:
  assumes "system_ok lanes s"
  shows "table_ok (sy_queue s)" and "exclusive s" and "owned s"
    and "thread_ok (sy_now s) (sy_queue s) (lanes t) (sy_thread s t)"
  using assms unfolding system_ok_def by blast+

lemma system_okI:
  assumes "table_ok q" and "exclusive (s\<lparr>sy_queue := q, sy_thread := th\<rparr>)" and "owned (s\<lparr>sy_queue := q, sy_thread := th\<rparr>)"
    and "\<And>t. thread_ok (sy_now s) q (lanes t) (th t)"
  shows "system_ok lanes (s\<lparr>sy_queue := q, sy_thread := th\<rparr>)"
  using assms unfolding system_ok_def by simp

text \<open>Steps that touch the queue only: what they may do to the rows.\<close>

lemma queue_change_ok:
  assumes ok: "system_ok lanes s" and t: "table_ok q'" and n: "q_next_pk (sy_queue s) \<le> q_next_pk q'"
    and e: "\<And>r'. r' \<in> set (q_rows q') \<Longrightarrow> wc_pk r' < q_next_pk (sy_queue s) \<Longrightarrow>
      \<exists>r \<in> set (q_rows (sy_queue s)). same_identity r' r \<and>
        (wc_status r' = wc_status r \<and> wc_started_at r' = wc_started_at r
         \<or> is_stuck (sy_now s) r \<and> wc_status r' = ''failed'')"
    and a: "\<And>r'. r' \<in> set (q_rows q') \<Longrightarrow> q_next_pk (sy_queue s) \<le> wc_pk r' \<Longrightarrow> wc_status r' \<noteq> ''running''"
  shows "system_ok lanes (s\<lparr>sy_queue := q'\<rparr>)"
proof -
  have "exclusive (s\<lparr>sy_queue := q'\<rparr>)" by (rule exclusive_cong [OF system_okD(2) [OF ok]]) simp
  moreover have "owned (s\<lparr>sy_queue := q'\<rparr>)"
  proof (rule owned_cong [OF system_okD(3) [OF ok]])
    fix r' assume r': "r' \<in> set (q_rows (sy_queue (s\<lparr>sy_queue := q'\<rparr>)))" "wc_status r' = ''running''"
    then have "wc_pk r' < q_next_pk (sy_queue s)" using a [of r'] by (simp, metis linorder_not_le)
    then obtain r where "r \<in> set (q_rows (sy_queue s))" "same_identity r' r" "wc_status r' = wc_status r"
      using e [of r'] r' by auto
    then show "\<exists>r \<in> set (q_rows (sy_queue s)). wc_pk r = wc_pk r' \<and> wc_status r = ''running''"
      using r'(2) by (metis same_identity_pk)
  qed simp
  moreover have "thread_ok (sy_now s) q' (lanes t) (sy_thread s t)" for t
    by (rule thread_ok_evolved [OF system_okD(4) [OF ok] order_refl n]) (use e in \<open>fastforce simp: evolved_def\<close>)
  ultimately show ?thesis using t unfolding system_ok_def by simp
qed

lemma added_row_ok:
  assumes ok: "system_ok lanes s" and c: "create_command refuse r (sy_queue s) = Inr q'"
    and k: "wc_pk r = q_next_pk (sy_queue s)" "wc_status r = ''pending''"
  shows "system_ok lanes (s\<lparr>sy_queue := q'\<rparr>)"
proof -
  note rows = create_command_rows [OF c]
  have old: "wc_pk x < q_next_pk (sy_queue s)" if "x \<in> set (q_rows (sy_queue s))" for x
    using system_okD(1) [OF ok] that unfolding table_ok_def by blast
  show ?thesis
  proof (rule queue_change_ok [OF ok create_command_ok [OF system_okD(1) [OF ok] c k(1)]])
    fix r' assume r': "r' \<in> set (q_rows q')"
    show "wc_status r' \<noteq> ''running''" if "q_next_pk (sy_queue s) \<le> wc_pk r'"
      using r' rows old [of r'] k(2) that by auto
    show "\<exists>x \<in> set (q_rows (sy_queue s)). same_identity r' x \<and> (wc_status r' = wc_status x \<and>
        wc_started_at r' = wc_started_at x \<or> is_stuck (sy_now s) x \<and> wc_status r' = ''failed'')"
      if "wc_pk r' < q_next_pk (sy_queue s)"
      using r' rows k(1) that by (intro bexI [of _ r']) auto
  qed (use rows in simp)
qed

lemma removed_rows_ok:
  assumes ok: "system_ok lanes s" and f: "q_rows q' = filter p (q_rows (sy_queue s))" "q_next_pk q' = q_next_pk (sy_queue s)"
  shows "system_ok lanes (s\<lparr>sy_queue := q'\<rparr>)"
proof (rule queue_change_ok [OF ok subset_rows_ok [OF system_okD(1) [OF ok] f]])
  fix r' assume r': "r' \<in> set (q_rows q')"
  then have m: "r' \<in> set (q_rows (sy_queue s))" using f(1) by simp
  then have "wc_pk r' < q_next_pk (sy_queue s)" using system_okD(1) [OF ok] unfolding table_ok_def by blast
  then show "wc_status r' \<noteq> ''running''" if "q_next_pk (sy_queue s) \<le> wc_pk r'" using that by simp
  show "\<exists>x \<in> set (q_rows (sy_queue s)). same_identity r' x \<and> (wc_status r' = wc_status x \<and>
      wc_started_at r' = wc_started_at x \<or> is_stuck (sy_now s) x \<and> wc_status r' = ''failed'')"
    using m by (intro bexI [of _ r']) simp_all
qed (use f in simp)

lemma sweep_ok:
  assumes ok: "system_ok lanes s"
  shows "system_ok lanes (s\<lparr>sy_queue := snd (fail_stuck_commands (sy_now s) (sy_queue s))\<rparr>)"
proof -
  let ?f = "\<lambda>r. r\<lparr>wc_status := ''failed'', wc_error := stuck_error, wc_finished_at := Some (sy_now s)\<rparr>"
  let ?p = "is_stuck (sy_now s)"
  have q: "snd (fail_stuck_commands (sy_now s) (sy_queue s)) = update_rows ?p ?f (sy_queue s)"
    by (simp add: fail_stuck_commands_def)
  have t: "table_ok (update_rows ?p ?f (sy_queue s))"
    by (rule update_rows_ok [OF system_okD(1) [OF ok]]) (simp_all add: same_identity_def in_flight_def IN_FLIGHT_STATUSES_def)
  have old: "wc_pk x < q_next_pk (sy_queue s)" if "x \<in> set (q_rows (sy_queue s))" for x
    using system_okD(1) [OF ok] that unfolding table_ok_def by blast
  show ?thesis unfolding q
  proof (rule queue_change_ok [OF ok t])
    fix r' assume "r' \<in> set (q_rows (update_rows ?p ?f (sy_queue s)))"
    then obtain r where r: "r \<in> set (q_rows (sy_queue s))" "r' = (if ?p r then ?f r else r)" by auto
    then have i: "same_identity r' r" by (simp add: same_identity_def)
    then show "wc_status r' \<noteq> ''running''" if "q_next_pk (sy_queue s) \<le> wc_pk r'"
      using that old [OF r(1)] same_identity_pk [OF i] by simp
    show "\<exists>x \<in> set (q_rows (sy_queue s)). same_identity r' x \<and> (wc_status r' = wc_status x \<and>
        wc_started_at r' = wc_started_at x \<or> is_stuck (sy_now s) x \<and> wc_status r' = ''failed'')"
      using r i by (intro bexI [OF _ r(1)]) simp
  qed simp
qed

lemma queue_command_cases:
  assumes "queue_command refuse now command report pr priority q = (r, q')"
  obtains "q' = q" | x where "create_command refuse x q = Inr q'" "wc_pk x = q_next_pk q" "wc_status x = ''pending''"
proof (cases "create_command refuse (new_command now command report pr priority [] q) q")
  case (Inr q'')
  then show ?thesis using assms that by (auto simp: queue_command_def new_command_def split: if_splits)
qed (use assms that in \<open>auto simp: queue_command_def split: if_splits\<close>)

lemma insert_targetless_cases:
  assumes "insert_targetless refuse now command priority kwargs q = (r, q')"
  obtains "q' = q" | x where "create_command refuse x q = Inr q'" "wc_pk x = q_next_pk q" "wc_status x = ''pending''"
proof (cases "create_command refuse (new_command now command None None priority kwargs q) q")
  case (Inr q'')
  then show ?thesis using assms that by (auto simp: insert_targetless_def new_command_def)
qed (use assms that in \<open>auto simp: insert_targetless_def\<close>)

text \<open>A thread that ends up idle or with a choice, the queue unchanged.\<close>

lemma thread_change_ok:
  assumes ok: "system_ok lanes s" and n: "thread_ok (sy_now s) (sy_queue s) (lanes t) ph"
    and i: "working_on ph = None" "working_on (sy_thread s t) = None"
  shows "system_ok lanes (s\<lparr>sy_thread := (sy_thread s)(t := ph)\<rparr>)"
proof -
  have th: "((sy_thread s)(t := ph)) u = Working c \<longleftrightarrow> sy_thread s u = Working c" for u c
    using i by (cases "u = t") auto
  have "exclusive (s\<lparr>sy_thread := (sy_thread s)(t := ph)\<rparr>)"
    by (rule exclusive_cong [OF system_okD(2) [OF ok]]) (simp add: th del: fun_upd_apply)
  moreover have "owned (s\<lparr>sy_thread := (sy_thread s)(t := ph)\<rparr>)"
    by (rule owned_cong [OF system_okD(3) [OF ok]]) (auto simp: th simp del: fun_upd_apply)
  moreover have "thread_ok (sy_now s) (sy_queue s) (lanes u) (((sy_thread s)(t := ph)) u)" for u
    using n system_okD(4) [OF ok] by simp
  ultimately show ?thesis using system_okD(1) [OF ok] unfolding system_ok_def by simp
qed

lemma choose_ok:
  assumes ok: "system_ok lanes s" and t: "sy_thread s t = Idle" and k: "select_command alive (lanes t) (sy_queue s) = Some k"
  shows "system_ok lanes (s\<lparr>sy_thread := (sy_thread s)(t := Chose k)\<rparr>)"
proof (rule thread_change_ok [OF ok])
  obtain r where r: "r \<in> set (q_rows (sy_queue s))" "wc_pk r = k" "claimable alive (lanes t) r"
    using select_command_Some [OF k] by metis
  note q = system_okD(1) [OF ok]
  have "in_lane (lanes t) (wc_priority x)" if "x \<in> set (q_rows (sy_queue s))" "wc_pk x = k" for x
    using unique_row [OF q that(1) r(1)] that(2) r(2,3) unfolding claimable_def by simp
  moreover have "k < q_next_pk (sy_queue s)" using q r(1,2) unfolding table_ok_def by blast
  ultimately show "thread_ok (sy_now s) (sy_queue s) (lanes t) (Chose k)" by simp
qed (simp_all add: t)

lemma tick_ok:
  assumes ok: "system_ok lanes s" and "sy_now s \<le> now"
  shows "system_ok lanes (s\<lparr>sy_now := now\<rparr>)"
proof -
  have "exclusive (s\<lparr>sy_now := now\<rparr>)" by (rule exclusive_cong [OF system_okD(2) [OF ok]]) simp
  moreover have "owned (s\<lparr>sy_now := now\<rparr>)" by (rule owned_cong [OF system_okD(3) [OF ok]]) auto
  moreover have "thread_ok now (sy_queue s) (lanes t) (sy_thread s t)" for t
    by (rule thread_ok_evolved [OF system_okD(4) [OF ok] assms(2) order_refl]) (blast intro: evolved_refl)
  ultimately show ?thesis using system_okD(1) [OF ok] unfolding system_ok_def by simp
qed

lemma restart_ok:
  assumes ok: "system_ok lanes s"
  shows "system_ok lanes (s\<lparr>sy_queue := snd (requeue_interrupted_commands (sy_queue s)), sy_thread := (\<lambda>t. Idle)\<rparr>)"
proof (rule system_okI)
  let ?f = "\<lambda>r. r\<lparr>wc_status := ''pending'', wc_started_at := None\<rparr>"
  have q: "snd (requeue_interrupted_commands (sy_queue s)) = update_rows (\<lambda>r. wc_status r = ''running'') ?f (sy_queue s)"
    by (simp add: requeue_interrupted_commands_def)
  show "table_ok (snd (requeue_interrupted_commands (sy_queue s)))" unfolding q
    by (rule update_rows_ok [OF system_okD(1) [OF ok]]) (simp_all add: same_identity_def in_flight_def IN_FLIGHT_STATUSES_def)
  show "owned (s\<lparr>sy_queue := snd (requeue_interrupted_commands (sy_queue s)), sy_thread := (\<lambda>t. Idle)\<rparr>)"
    unfolding q owned_def by auto
qed (simp_all add: exclusive_def)

text \<open>An update of the row of one key, made by a thread that alone has to do with that key.\<close>

lemma one_row_ok:
  assumes ok: "system_ok lanes s"
    and g: "\<And>r. p r \<Longrightarrow> wc_pk r = k \<and> same_identity (f r) r" "\<And>r. p r \<Longrightarrow> in_flight (f r) \<Longrightarrow> in_flight r"
    and others: "\<And>u. u \<noteq> t \<Longrightarrow> working_on (sy_thread s u) \<noteq> Some k"
    and own: "\<And>c. sy_thread s t = Working c \<Longrightarrow> wc_pk c = k"
    and ph: "thread_ok (sy_now s) (update_rows p f (sy_queue s)) (lanes t) ph" "\<And>c. ph = Working c \<Longrightarrow> wc_pk c = k"
    and run: "\<And>r. r \<in> set (q_rows (update_rows p f (sy_queue s))) \<Longrightarrow> wc_pk r = k \<Longrightarrow> wc_status r = ''running''
      \<Longrightarrow> \<exists>c. ph = Working c"
  shows "system_ok lanes (s\<lparr>sy_queue := update_rows p f (sy_queue s), sy_thread := (sy_thread s)(t := ph)\<rparr>)"
proof (rule system_okI)
  show "table_ok (update_rows p f (sy_queue s))"
    by (rule update_rows_ok [OF system_okD(1) [OF ok]]) (use g in blast)+
  show "exclusive (s\<lparr>sy_queue := update_rows p f (sy_queue s), sy_thread := (sy_thread s)(t := ph)\<rparr>)"
    unfolding exclusive_def
  proof (intro allI impI)
    let ?th = "sy_thread (s\<lparr>sy_queue := update_rows p f (sy_queue s), sy_thread := (sy_thread s)(t := ph)\<rparr>)"
    fix u v c d assume w: "?th u = Working c" "?th v = Working d" "wc_pk c = wc_pk d"
    have old: "\<not> (x = t \<and> y \<noteq> t)" if "?th x = Working c'" "?th y = Working d'" "wc_pk c' = wc_pk d'" for x y c' d'
    proof
      assume xy: "x = t \<and> y \<noteq> t"
      then have "ph = Working c'" "sy_thread s y = Working d'" using that(1,2) by simp_all
      then have "working_on (sy_thread s y) = Some k" using ph(2) that(3) by simp
      then show False using others xy by blast
    qed
    show "u = v"
    proof (cases "u = t \<or> v = t")
      case True
      then show ?thesis using old [OF w] old [OF w(2,1) w(3) [symmetric]] by blast
    next
      case False
      then have "sy_thread s u = Working c" "sy_thread s v = Working d" using w by simp_all
      then show ?thesis using system_okD(2) [OF ok] w(3) unfolding exclusive_def by blast
    qed
  qed
  show "owned (s\<lparr>sy_queue := update_rows p f (sy_queue s), sy_thread := (sy_thread s)(t := ph)\<rparr>)"
    unfolding owned_def
  proof (intro ballI impI)
    let ?th = "sy_thread (s\<lparr>sy_queue := update_rows p f (sy_queue s), sy_thread := (sy_thread s)(t := ph)\<rparr>)"
    fix r' assume "r' \<in> set (q_rows (sy_queue (s\<lparr>sy_queue := update_rows p f (sy_queue s), sy_thread := (sy_thread s)(t := ph)\<rparr>)))"
    then have r': "r' \<in> set (q_rows (update_rows p f (sy_queue s)))" by simp
    assume running: "wc_status r' = ''running''"
    obtain r where r: "r \<in> set (q_rows (sy_queue s))" "r' = (if p r then f r else r)" using r' by auto
    show "\<exists>u c. ?th u = Working c \<and> wc_pk c = wc_pk r'"
    proof (cases "wc_pk r' = k")
      case True
      then obtain c where c: "ph = Working c" using run [OF r' True running] by blast
      then have "?th t = Working c" "wc_pk c = wc_pk r'" using True ph(2) [OF c] by simp_all
      then show ?thesis by blast
    next
      case False
      then have "r' = r" using r(2) g(1) [of r] same_identity_pk by auto
      then obtain u c where u: "sy_thread s u = Working c" "wc_pk c = wc_pk r'"
        using system_okD(3) [OF ok] r(1) running unfolding owned_def by blast
      moreover have "u \<noteq> t" using u own False by auto
      ultimately show ?thesis by (intro exI [of _ u]) simp
    qed
  qed
  fix u
  show "thread_ok (sy_now s) (update_rows p f (sy_queue s)) (lanes u) (((sy_thread s)(t := ph)) u)"
  proof (cases "u = t")
    case False
    have "thread_ok (sy_now s) (update_rows p f (sy_queue s)) (lanes u) (sy_thread s u)"
    proof (rule thread_ok_evolved [OF system_okD(4) [OF ok]])
      fix r' assume "r' \<in> set (q_rows (update_rows p f (sy_queue s)))"
      then obtain r where r: "r \<in> set (q_rows (sy_queue s))" "r' = (if p r then f r else r)" by auto
      have "evolved (sy_now s) (working_on (sy_thread s u)) r r'"
        using r(2) g(1) [of r] others [OF False] by (cases "p r") (simp_all add: evolved_def)
      then show "\<exists>r \<in> set (q_rows (sy_queue s)). evolved (sy_now s) (working_on (sy_thread s u)) r r'" using r(1) by blast
    qed simp_all
    then show ?thesis using False by simp
  qed (use ph(1) in simp)
qed

lemma claim_ok:
  assumes ok: "system_ok lanes s" and t: "sy_thread s t = Chose k"
    and c: "claim_command (sy_now s) k (sy_queue s) = Some (cmd, q')"
  shows "system_ok lanes (s\<lparr>sy_queue := q', sy_thread := (sy_thread s)(t := Working cmd)\<rparr>)"
proof -
  note q = system_okD(1) [OF ok]
  obtain r where r: "r \<in> set (q_rows (sy_queue s))" "free_row k r" "cmd = claimed (sy_now s) r"
    "q' = update_rows (free_row k) (claimed (sy_now s)) (sy_queue s)"
    using claim_command_Some [OF c q] by metis
  have rk: "wc_pk r = k" "wc_status r = ''pending''" using r(2) by (simp_all add: free_row_def)
  have others: "working_on (sy_thread s u) \<noteq> Some k" for u
  proof
    assume w: "working_on (sy_thread s u) = Some k"
    then obtain d where "sy_thread s u = Working d" "wc_pk d = k" by (cases "sy_thread s u") auto
    then have "row_of (sy_now s) d r" using system_okD(4) [OF ok, of u] r(1) rk(1) by simp
    then show False using rk(2) by (simp add: row_of_def)
  qed
  have row: "x = cmd" if x: "x \<in> set (q_rows q')" "wc_pk x = k" for x
  proof -
    obtain y where y: "y \<in> set (q_rows (sy_queue s))" "x = (if free_row k y then claimed (sy_now s) y else y)"
      using x(1) r(4) by auto
    then have "wc_pk y = k" using x(2) by (simp split: if_splits)
    then have "y = r" using unique_row [OF q y(1) r(1)] rk(1) by simp
    then show ?thesis using y(2) r(2,3) by simp
  qed
  have cmd: "wc_pk cmd = k" "wc_status cmd = ''running''" "wc_started_at cmd = Some (sy_now s)" "wc_priority cmd = wc_priority r"
    using r(3) rk(1) by (simp_all add: claimed_def)
  have chosen: "thread_ok (sy_now s) (sy_queue s) (lanes t) (Chose k)" using system_okD(4) [OF ok, of t] t by simp
  have "row_of (sy_now s) cmd x" if "x \<in> set (q_rows q')" "wc_pk x = k" for x
    using row [OF that] cmd(2) by (simp add: row_of_def)
  then have "thread_ok (sy_now s) q' (lanes t) (Working cmd)"
    using chosen cmd rk(1) r(1,4) by simp
  then have ph: "thread_ok (sy_now s) (update_rows (free_row k) (claimed (sy_now s)) (sy_queue s)) (lanes t) (Working cmd)"
    unfolding r(4) .
  show ?thesis unfolding r(4)
  proof (rule one_row_ok [OF ok, of _ k])
    fix x assume "free_row k x"
    then show "wc_pk x = k \<and> same_identity (claimed (sy_now s) x) x" "in_flight x"
      by (simp_all add: free_row_def claimed_def same_identity_def in_flight_def IN_FLIGHT_STATUSES_def)
  qed (use t cmd ph others in simp_all)
qed

lemma finish_command_rows:
  "finish_command now out cmd q = Inr q' \<Longrightarrow> q' = update_rows (\<lambda>r. wc_pk r = wc_pk cmd)
     (\<lambda>r. r\<lparr>wc_status := wc_status (closed out cmd), wc_error := wc_error (closed out cmd),
       wc_log := wc_log (closed out cmd), wc_finished_at := Some now\<rparr>) q"
  by (cases out) (auto simp: finish_command_def save_command_def split: if_splits)

lemma closed_status: "wc_status (closed out cmd) \<in> {''completed'', ''failed''}"
  by (cases out) simp_all

lemma finish_ok:
  assumes ok: "system_ok lanes s" and t: "sy_thread s t = Working cmd"
    and f: "finish_command (sy_now s) out cmd (sy_queue s) = Inr q'"
  shows "system_ok lanes (s\<lparr>sy_queue := q', sy_thread := (sy_thread s)(t := Idle)\<rparr>)"
proof -
  have others: "working_on (sy_thread s u) \<noteq> Some (wc_pk cmd)" if "u \<noteq> t" for u
    using system_okD(2) [OF ok] t that unfolding exclusive_def by (cases "sy_thread s u") auto
  show ?thesis unfolding finish_command_rows [OF f]
    by (intro one_row_ok [OF ok, of _ "wc_pk cmd"] others)
      (use t closed_status [of out cmd] in \<open>auto simp: same_identity_def in_flight_def IN_FLIGHT_STATUSES_def\<close>)
qed

lemma finish_gone_ok:
  assumes ok: "system_ok lanes s" and t: "sy_thread s t = Working cmd"
    and f: "finish_command (sy_now s) out cmd (sy_queue s) = Inl e"
  shows "system_ok lanes (s\<lparr>sy_thread := (sy_thread s)(t := Idle)\<rparr>)"
proof -
  have gone: "wc_pk r \<noteq> wc_pk cmd" if "r \<in> set (q_rows (sy_queue s))" for r
    using f that by (cases out) (auto simp: finish_command_def save_command_def list_ex_iff split: if_splits)
  have "exclusive (s\<lparr>sy_thread := (sy_thread s)(t := Idle)\<rparr>)"
    by (rule exclusive_cong [OF system_okD(2) [OF ok]]) (simp split: if_splits)
  moreover have "owned (s\<lparr>sy_thread := (sy_thread s)(t := Idle)\<rparr>)"
    using system_okD(3) [OF ok] t gone unfolding owned_def by (simp, metis phase.inject(2))
  ultimately show ?thesis using system_okD(1,4) [OF ok] unfolding system_ok_def by simp
qed

text \<open>The invariant of the reachable states, one case per step.\<close>

lemma step_keeps:
  assumes "queue_step lanes s s'" and "system_ok lanes s"
  shows "system_ok lanes s'"
  using assms
proof (cases rule: queue_step.cases)
  case (door refuse command report pr priority r q')
  from door(2) show ?thesis
    by (cases rule: queue_command_cases) (use assms(2) door(1) in \<open>auto intro: added_row_ok\<close>)
next
  case (sweep_door refuse command priority kwargs r q')
  from sweep_door(2) show ?thesis
    by (cases rule: insert_targetless_cases) (use assms(2) sweep_door(1) in \<open>auto intro: added_row_ok\<close>)
next
  case (cancel ids)
  show ?thesis unfolding cancel
    by (rule removed_rows_ok [OF assms(2)]) (simp_all add: cancel_pending_for_reports_def Let_def)
next
  case (lose t k)
  then show ?thesis using assms(2) thread_change_ok [of lanes s t Idle] by simp
qed (use assms(2) in \<open>blast intro: removed_rows_ok tick_ok choose_ok claim_ok finish_ok finish_gone_ok sweep_ok restart_ok\<close>)+

lemma initial_ok: "system_ok lanes (initial now)"
  by (simp add: system_ok_def initial_def empty_queue_def table_ok_def exclusive_def owned_def)

lemma reachable_ok: "reachable lanes s \<Longrightarrow> system_ok lanes s"
  by (induction rule: reachable.induct) (simp_all add: initial_ok step_keeps)

end
