(* ===== verification/QueueProperties.thy ===== *)
theory QueueProperties
  imports QueueSafety
begin

text \<open>
  The properties of the command queue: what a door answers, which command is claimed, that no
  command is run twice at once and none beside a run for the same target, the life of a row,
  the sweep of hung commands, and the drain as a run of the concurrent system.
\<close>

section \<open>Agent scopes\<close>

text \<open>
  A sweep that is declined would have been redundant: when the scope of a queued sweep
  covers the wanted scope, every report of the wanted scope is in the queued one.
\<close>

theorem covered_scope_is_contained:
  assumes "scope_covers running wanted" and "wanted \<noteq> []" and "scope_matches wanted source_agent"
  shows "scope_matches running source_agent"
proof (cases "running = SCOPE_ALL \<or> running = wanted")
  case True
  then show ?thesis using assms(3) by (metis scope_matches_def)
next
  case False
  then have "running = SCOPE_ANY_AGENT" "wanted \<notin> set RESERVED_SCOPES"
    using assms(1) by (simp_all add: scope_covers_def)
  moreover from this(2) have "scope_matches wanted source_agent \<longleftrightarrow> source_agent = wanted"
    by (simp add: scope_matches_def RESERVED_SCOPES_def)
  ultimately show ?thesis using assms(2,3) by (simp add: scope_matches_def)
qed

theorem covered_scope_is_contained_witness:
  "scope_matches SCOPE_ANY_AGENT ''claude-code'' \<and> \<not> scope_covers ''claude-code'' SCOPE_ANY_AGENT"
proof -
  have "scope_covers SCOPE_ANY_AGENT ''claude-code''" "''claude-code'' \<noteq> []" "scope_matches ''claude-code'' ''claude-code''"
    "\<not> scope_covers ''claude-code'' SCOPE_ANY_AGENT" by code_simp+
  then show ?thesis using covered_scope_is_contained by blast
qed

lemma name_char_not_dash: "name_char c \<Longrightarrow> c \<noteq> CHR ''-''"
  by (auto simp: name_char_def)

text \<open>A folded name: name characters and single hyphens. Folding leaves it alone.\<close>

fun folded :: "bool \<Rightarrow> string \<Rightarrow> bool" where
  "folded after_dash [] = True"
| "folded after_dash (c # s) = (if c = CHR ''-'' then \<not> after_dash \<and> folded True s else name_char c \<and> folded False s)"

lemma fold_junk_folded: "folded b (fold_junk b s)"
proof (induction b s rule: fold_junk.induct)
  case (2 b c s)
  then show ?case using name_char_not_dash [of c] by auto
qed simp

lemma dash_not_name_char: "\<not> name_char (CHR ''-'')"
  by (simp add: name_char_def)

lemma fold_junk_id: "folded b s \<Longrightarrow> fold_junk b s = s"
  by (induction b s rule: folded.induct) (auto simp: dash_not_name_char split: if_splits)

lemma folded_weaken: "folded True s \<Longrightarrow> folded False s"
  by (cases s) auto

lemma folded_take: "folded b s \<Longrightarrow> folded b (take n s)"
  by (induction b s arbitrary: n rule: folded.induct) (auto simp: take_Cons split: nat.splits if_splits)

lemma folded_drop: "folded b s \<Longrightarrow> folded False (drop n s)"
proof (induction b s arbitrary: n rule: folded.induct)
  case (2 b c s)
  then show ?case by (cases n) (auto split: if_splits intro: folded_weaken)
qed simp

lemma folded_chars: "folded b s \<Longrightarrow> c \<in> set s \<Longrightarrow> name_char c \<or> c = CHR ''-''"
  by (induction b s rule: folded.induct) (auto split: if_splits)

lemma name_char_lower: "name_char c \<or> c = CHR ''-'' \<Longrightarrow> lower_char c = c"
  by (auto simp: name_char_def lower_char_def Let_def)

lemma name_char_not_space: "name_char c \<or> c = CHR ''-'' \<Longrightarrow> \<not> is_space c"
  by (auto simp: name_char_def is_space_def Let_def)

lemma rstrip_dashes_take: "\<exists>n. rstrip_dashes s = take n s"
proof -
  have "rev (dropWhile dash_or_dot (rev s)) = take (length s - length (takeWhile dash_or_dot (rev s))) s"
    by (simp add: dropWhile_eq_drop rev_drop)
  then show ?thesis unfolding rstrip_dashes_def by blast
qed

lemma rstrip_dashes_last: "rstrip_dashes s = [] \<or> \<not> dash_or_dot (last (rstrip_dashes s))"
  unfolding rstrip_dashes_def by (metis hd_dropWhile last_rev rev_is_Nil_conv)

lemma rstrip_dashes_id: "s = [] \<or> \<not> dash_or_dot (last s) \<Longrightarrow> rstrip_dashes s = s"
  by (cases s rule: rev_cases) (simp_all add: rstrip_dashes_def)

definition good_name :: "string \<Rightarrow> bool" where
  "good_name s \<longleftrightarrow> folded False s \<and> length s \<le> MAX_AGENT_NAME_LEN \<and> (s = [] \<or> \<not> dash_or_dot (hd s))
     \<and> (s = [] \<or> \<not> dash_or_dot (last s))"

lemma hd_take_not: "s = [] \<or> \<not> P (hd s) \<Longrightarrow> take n s = [] \<or> \<not> P (hd (take n s))"
  by (cases s; cases n) auto

lemma normalize_good: "good_name (normalize_agent_name raw)"
proof -
  define d where "d = dropWhile dash_or_dot (fold_junk False (lower (strip raw)))"
  have d: "folded False d" "d = [] \<or> \<not> dash_or_dot (hd d)"
    by (metis d_def dropWhile_eq_drop fold_junk_folded folded_drop) (metis d_def hd_dropWhile)
  obtain m where m: "rstrip_dashes d = take m d" using rstrip_dashes_take by blast
  obtain n where n: "rstrip_dashes (take MAX_AGENT_NAME_LEN (rstrip_dashes d)) = take n (take MAX_AGENT_NAME_LEN (rstrip_dashes d))"
    using rstrip_dashes_take by blast
  define k where "k = min n (min MAX_AGENT_NAME_LEN m)"
  have t: "normalize_agent_name raw = take k d" "k \<le> MAX_AGENT_NAME_LEN"
    unfolding normalize_agent_name_def Let_def d_def [symmetric] n unfolding m k_def by (simp_all add: min.assoc)
  have "take k d = [] \<or> \<not> dash_or_dot (last (take k d))"
    unfolding t(1) [symmetric] unfolding normalize_agent_name_def Let_def by (rule rstrip_dashes_last)
  then show ?thesis
    unfolding good_name_def t(1) using d t(2) folded_take hd_take_not [of d dash_or_dot] by auto
qed

lemma normalize_id:
  assumes "good_name s"
  shows "normalize_agent_name s = s"
proof -
  have c: "name_char c \<or> c = CHR ''-''" if "c \<in> set s" for c
    using assms that folded_chars unfolding good_name_def by blast
  have "lower s = s" unfolding lower_def using c name_char_lower by (simp add: map_idI)
  moreover have "strip s = s"
    unfolding strip_def using c name_char_not_space by (metis hd_in_set last_in_set lstrip_no_leading rstrip_no_trailing)
  ultimately have f: "fold_junk False (lower (strip s)) = s"
    using assms by (simp add: fold_junk_id good_name_def)
  have "dropWhile dash_or_dot s = s" using assms unfolding good_name_def by (cases s) auto
  with f assms show ?thesis
    unfolding normalize_agent_name_def Let_def good_name_def by (simp add: rstrip_dashes_id)
qed

text \<open>
  Every agent has its own filter: a name that is accepted for storage, read back as a
  scope, is itself, and that scope selects exactly the reports stored under the name.
\<close>

theorem stored_name_is_its_scope:
  assumes "clean_agent_name raw = Some name" and "name \<noteq> []"
  shows "clean_agent_name name = Some name \<and> parse_scope (Some name) = Some name
    \<and> (scope_matches name source_agent \<longleftrightarrow> source_agent = name)"
proof -
  have n: "name = normalize_agent_name raw" "name \<notin> set RESERVED_SCOPES"
    using assms by (auto simp: clean_agent_name_def Let_def split: if_splits)
  have g: "good_name name" unfolding n(1) by (rule normalize_good)
  have c: "\<not> is_space c" if "c \<in> set name" for c
    using g that folded_chars name_char_not_space unfolding good_name_def by blast
  have "strip name = name"
    unfolding strip_def using c by (metis hd_in_set last_in_set lstrip_no_leading rstrip_no_trailing)
  then show ?thesis
    using assms(2) n(2) normalize_id [OF g]
    by (simp add: clean_agent_name_def parse_scope_def scope_matches_def RESERVED_SCOPES_def)
qed

theorem stored_name_is_its_scope_witness:
  "parse_scope (Some ''claude-code'') = Some ''claude-code'' \<and> clean_agent_name '' Any!'' = None"
proof -
  have "clean_agent_name '' Claude  Code- '' = Some ''claude-code''" by code_simp
  then have "parse_scope (Some ''claude-code'') = Some ''claude-code''"
    using stored_name_is_its_scope [of "'' Claude  Code- ''" "''claude-code''"] by blast
  moreover have "clean_agent_name '' Any!'' = None" by code_simp
  ultimately show ?thesis by blast
qed

section \<open>The doors\<close>

lemma conflict_messages: "is_inflight_conflict (UNIQUE_FAILED @ ''security_report_id'')"
    "is_inflight_conflict (UNIQUE_FAILED @ ''pull_request_id'')"
  by code_simp+

text \<open>
  What a door answers, when the database refuses nothing else: with exactly one target,
  "already queued" exactly when a command of that kind is pending or running for that target,
  and otherwise one pending row is added; with none or two it raises. Nothing else changes.
\<close>

theorem door_answer:
  "queue_command (\<lambda>_. None) now command report pr priority q =
    (if (report = None) = (pr = None)
     then (Inl (Exn ''ValueError'' ''queue_command needs exactly one of report / pull_request''), q)
     else let r = new_command now command report pr priority [] q in
       if filter (conflicts r) (q_rows q) \<noteq> [] then (Inr False, q)
       else (Inr True, q\<lparr>q_rows := q_rows q @ [r], q_next_pk := q_next_pk q + 1\<rparr>))"
proof -
  define r where "r = new_command now command report pr priority [] q"
  have "in_flight r" by (simp add: r_def new_command_def in_flight_def IN_FLIGHT_STATUSES_def)
  then have "filter (conflicts r) (q_rows q) \<noteq> [] \<longleftrightarrow>
      list_ex (\<lambda>s. in_flight s \<and> same_report r s) (q_rows q) \<or> list_ex (\<lambda>s. in_flight s \<and> same_pr r s) (q_rows q)"
    unfolding filter_empty_conv list_ex_iff conflicts_def by blast
  then have "create_command (\<lambda>_. None) r q = (if filter (conflicts r) (q_rows q) \<noteq> []
      then Inl (the (conflict_message r (q_rows q))) else Inr \<lparr>q_rows = q_rows q @ [r], q_next_pk = q_next_pk q + 1\<rparr>)"
    and "filter (conflicts r) (q_rows q) \<noteq> [] \<Longrightarrow> is_inflight_conflict (the (conflict_message r (q_rows q)))"
    by (auto simp only: create_command_def conflict_message_def conflict_messages if_True if_False option.case option.sel split: if_splits)
  then show ?thesis unfolding queue_command_def Let_def r_def [symmetric] by (cases report; cases pr) simp_all
qed

section \<open>Which command is claimed\<close>

text \<open>
  The command selected is a pending one of the lane (never a triage while no backend is
  alive) that no other such command precedes: higher priority first, then the cheaper tier,
  then the older; none is selected exactly when there is no such command.
\<close>

theorem best_command_first:
  "(case select_command alive la q of
      None \<Rightarrow> filter (claimable alive la) (q_rows q) = []
    | Some k \<Rightarrow> list_ex (\<lambda>r. wc_pk r = k \<and> claimable alive la r \<and>
        filter (\<lambda>s. claimable alive la s \<and>
          (wc_priority r < wc_priority s \<or> wc_priority s = wc_priority r \<and>
            (tier_of s < tier_of r \<or> tier_of s = tier_of r \<and> wc_created_at s < wc_created_at r))) (q_rows q) = [])
       (q_rows q))"
proof (cases "select_command alive la q")
  case (Some k)
  obtain r where r: "r \<in> set (q_rows q)" "wc_pk r = k" "claimable alive la r"
    "\<And>s. s \<in> set (q_rows q) \<Longrightarrow> claimable alive la s \<Longrightarrow> claim_key r \<le> claim_key s"
    using select_command_Some [OF Some] by metis
  have "\<not> (wc_priority r < wc_priority s \<or> wc_priority s = wc_priority r \<and>
      (tier_of s < tier_of r \<or> tier_of s = tier_of r \<and> wc_created_at s < wc_created_at r))"
    if "s \<in> set (q_rows q)" "claimable alive la s" for s
    using r(4) [OF that] by (auto simp: claim_key_def less_eq_prod_def)
  then show ?thesis using Some r(1-3) unfolding list_ex_iff filter_empty_conv by auto
qed (simp add: select_command_def)

section \<open>No command runs twice\<close>

text \<open>
  C6: No two threads run the same command, however the worker threads, the doors, the sweeps
  and restarts interleave.
\<close>

theorem no_double_run:
  assumes "reachable lanes s" and "sy_thread s t = Working c" and "sy_thread s u = Working d" and "t \<noteq> u"
  shows "wc_pk c \<noteq> wc_pk d"
  using system_okD(2) [OF reachable_ok [OF assms(1)]] assms(2-4) unfolding exclusive_def by blast

text \<open>
  Two runs of one kind of command for one report or PR overlap only past the timeout: if
  two threads run such commands and the rows of both are still there, one of the two was
  started more than six hours ago and has been failed by the sweep.
\<close>

theorem overlap_means_hung:
  assumes "reachable lanes s" and "sy_thread s t = Working c" and "sy_thread s u = Working d" and "t \<noteq> u"
    and "same_report c d \<or> same_pr c d"
    and "row_with_pk (wc_pk c) (sy_queue s) = Some rc" and "row_with_pk (wc_pk d) (sy_queue s) = Some rd"
  shows "wc_status rc = ''failed'' \<and> (\<exists>b. wc_started_at c = Some b \<and> b < sy_now s - 21600)
    \<or> wc_status rd = ''failed'' \<and> (\<exists>b. wc_started_at d = Some b \<and> b < sy_now s - 21600)"
proof (rule ccontr)
  note ok = system_okD [OF reachable_ok [OF assms(1)]]
  note rows = row_with_pk_Some [OF assms(6)] row_with_pk_Some [OF assms(7)]
  have rc: "row_of (sy_now s) c rc" using ok(4) [of t] assms(2) rows by simp
  have rd: "row_of (sy_now s) d rd" using ok(4) [of u] assms(3) rows by simp
  assume "\<not> ?thesis"
  then have "wc_status rc = ''running''" "wc_status rd = ''running''"
    using rc rd unfolding row_of_def STUCK_COMMAND_TIMEOUT_SECONDS_def by auto
  moreover have "same_report rc rd \<or> same_pr rc rd"
    using assms(5) rc rd unfolding row_of_def same_identity_def same_report_def same_pr_def by metis
  ultimately have "conflicts rc rd" by (simp add: conflicts_def in_flight_def IN_FLIGHT_STATUSES_def)
  moreover have "wc_pk c \<noteq> wc_pk d" using ok(2) assms(2-4) unfolding exclusive_def by blast
  ultimately show False using ok(1) rows unfolding table_ok_def by metis
qed

definition interactive_lane :: lane where
  "interactive_lane = \<lparr>min_priority = Some PRIORITY_INTERACTIVE, max_priority = None\<rparr>"

definition bulk_lane :: lane where
  "bulk_lane = \<lparr>min_priority = None, max_priority = Some PRIORITY_INTERACTIVE\<rparr>"

text \<open>
  The lanes hold: the interactive thread never runs bulk work, so it is never held by it,
  and a thread of the bulk pool never runs a command somebody waits for.
\<close>

theorem lanes_hold:
  assumes "reachable lanes s" and "sy_thread s t = Working c"
  shows "(lanes t = interactive_lane \<longrightarrow> 100 \<le> wc_priority c) \<and> (lanes t = bulk_lane \<longrightarrow> wc_priority c < 100)"
proof -
  have "in_lane (lanes t) (wc_priority c)"
    using system_okD(4) [OF reachable_ok [OF assms(1)], of t] assms(2) by simp
  then show ?thesis by (auto simp: in_lane_def interactive_lane_def bulk_lane_def PRIORITY_INTERACTIVE_def)
qed

text \<open>
  A run of the system: an interactive triage of report 7 hangs; after more than six hours the
  sweep fails it, a second click queues it again in bulk, and the other thread claims that one.
\<close>

definition two_lanes :: "nat \<Rightarrow> lane" where
  "two_lanes t = (if t = 0 then interactive_lane else bulk_lane)"

definition click :: "int \<Rightarrow> system \<Rightarrow> system" where
  "click priority s = s\<lparr>sy_queue := snd (queue_triage (\<lambda>_. None) (sy_now s) 7 priority (sy_queue s))\<rparr>"

definition choosing :: "nat \<Rightarrow> system \<Rightarrow> system" where
  "choosing t s = s\<lparr>sy_thread := (sy_thread s)(t := Chose (the (select_command True (two_lanes t) (sy_queue s))))\<rparr>"

definition claiming :: "nat \<Rightarrow> nat \<Rightarrow> system \<Rightarrow> system" where
  "claiming t k s = (case the (claim_command (sy_now s) k (sy_queue s)) of
     (cmd, q') \<Rightarrow> s\<lparr>sy_queue := q', sy_thread := (sy_thread s)(t := Working cmd)\<rparr>)"

definition hung :: system where
  "hung = claiming 0 1 (choosing 0 (click 100 (initial 500)))"

definition swept :: system where
  "swept = (let s = hung\<lparr>sy_now := 22101\<rparr> in s\<lparr>sy_queue := snd (fail_stuck_commands (sy_now s) (sy_queue s))\<rparr>)"

definition overlapping :: system where
  "overlapping = claiming 1 2 (choosing 1 (click 0 swept))"

lemma reachable_click: "reachable lanes s \<Longrightarrow> reachable lanes (click priority s)"
  unfolding click_def queue_triage_def queue_report_def
  by (rule next_step, assumption, rule door, rule surjective_pairing)

lemma reachable_choosing:
  "reachable two_lanes s \<Longrightarrow> sy_thread s t = Idle \<Longrightarrow> select_command True (two_lanes t) (sy_queue s) \<noteq> None
     \<Longrightarrow> reachable two_lanes (choosing t s)"
  unfolding choosing_def by (rule next_step, assumption, rule choose [of _ _ True]) auto

lemma reachable_claiming:
  "reachable lanes s \<Longrightarrow> sy_thread s t = Chose k \<Longrightarrow> claim_command (sy_now s) k (sy_queue s) \<noteq> None
     \<Longrightarrow> reachable lanes (claiming t k s)"
  unfolding claiming_def by (auto intro!: next_step [OF _ claim])

lemma reachable_hung: "reachable two_lanes hung"
proof -
  have "sy_thread (click 100 (initial 500)) 0 = Idle"
    "select_command True (two_lanes 0) (sy_queue (click 100 (initial 500))) \<noteq> None"
    "sy_thread (choosing 0 (click 100 (initial 500))) 0 = Chose 1"
    "claim_command (sy_now (choosing 0 (click 100 (initial 500)))) 1 (sy_queue (choosing 0 (click 100 (initial 500)))) \<noteq> None"
    by code_simp+
  then show ?thesis unfolding hung_def
    by (intro reachable_claiming reachable_choosing reachable_click start)
qed

lemma reachable_swept: "reachable two_lanes swept"
proof -
  have "sy_now hung \<le> 22101" by code_simp
  then show ?thesis unfolding swept_def Let_def
    by (intro next_step [OF _ sweep] next_step [OF reachable_hung tick])
qed

lemma reachable_overlapping: "reachable two_lanes overlapping"
proof -
  have "sy_thread (click 0 swept) 1 = Idle" "select_command True (two_lanes 1) (sy_queue (click 0 swept)) \<noteq> None"
    "sy_thread (choosing 1 (click 0 swept)) 1 = Chose 2"
    "claim_command (sy_now (choosing 1 (click 0 swept))) 2 (sy_queue (choosing 1 (click 0 swept))) \<noteq> None"
    by code_simp+
  then show ?thesis unfolding overlapping_def
    by (intro reachable_claiming reachable_choosing reachable_click reachable_swept)
qed

fun command_of :: "phase \<Rightarrow> command_row" where
  "command_of (Working c) = c"

definition first_run :: command_row where "first_run = command_of (sy_thread overlapping 0)"
definition second_run :: command_row where "second_run = command_of (sy_thread overlapping 1)"

lemma overlapping_threads:
  "sy_thread overlapping 0 = Working first_run" "sy_thread overlapping 1 = Working second_run"
  by code_simp+

theorem no_double_run_witness: "wc_pk first_run \<noteq> wc_pk second_run"
  using no_double_run [OF reachable_overlapping overlapping_threads] by simp

theorem overlap_means_hung_witness:
  "(\<exists>b. wc_started_at first_run = Some b \<and> b < sy_now overlapping - 21600)"
proof -
  have r: "row_with_pk (wc_pk first_run) (sy_queue overlapping) = Some (the (row_with_pk 1 (sy_queue overlapping)))"
    "row_with_pk (wc_pk second_run) (sy_queue overlapping) = Some (the (row_with_pk 2 (sy_queue overlapping)))"
    "wc_status (the (row_with_pk 2 (sy_queue overlapping))) = ''running''"
    by code_simp+
  have "same_report first_run second_run \<or> same_pr first_run second_run" by code_simp
  from overlap_means_hung [OF reachable_overlapping overlapping_threads _ this r(1,2)] r(3) show ?thesis by simp
qed

theorem lanes_hold_witness: "100 \<le> wc_priority first_run \<and> wc_priority second_run < 100"
  using lanes_hold [OF reachable_overlapping overlapping_threads(1)] lanes_hold [OF reachable_overlapping overlapping_threads(2)]
  by (simp add: two_lanes_def)

theorem best_command_first_witness:
  "select_command True bulk_lane (sy_queue (click 0 swept)) = Some 2
   \<and> filter (claimable True interactive_lane) (q_rows (sy_queue (click 0 swept))) = []"
proof -
  have "select_command True bulk_lane (sy_queue (click 0 swept)) = Some 2" by code_simp
  moreover have "select_command True interactive_lane (sy_queue (click 0 swept)) = None" by code_simp
  ultimately show ?thesis using best_command_first [of True interactive_lane "sy_queue (click 0 swept)"] by simp
qed

section \<open>The life of a row\<close>

definition STATUS_MOVES :: "(string \<times> string) list" where
  "STATUS_MOVES = [(''pending'', ''running''), (''running'', ''completed''), (''running'', ''failed''),
     (''running'', ''pending''), (''failed'', ''completed'')]"

definition later_version :: "command_row \<Rightarrow> command_row \<Rightarrow> bool" where
  "later_version r r' \<longleftrightarrow> same_identity r' r \<and> wc_kwargs r' = wc_kwargs r \<and> wc_created_at r' = wc_created_at r
     \<and> (wc_status r' = wc_status r \<or> (wc_status r, wc_status r') \<in> set STATUS_MOVES)"

lemma later_version_refl [simp]: "later_version r r"
  by (simp add: later_version_def)

lemma later_version_pk: "later_version r r' \<Longrightarrow> wc_pk r' = wc_pk r"
  by (simp add: later_version_def same_identity_def)

lemma old_row_kept:
  assumes "system_ok lanes s" and "r \<in> set (q_rows (sy_queue s))" and "r' \<in> set (q_rows (sy_queue s))"
    and "wc_pk r' = wc_pk r"
  shows "later_version r r'"
  using unique_row [OF system_okD(1) [OF assms(1)] assms(3,2,4)] by simp

lemma updated_row:
  assumes "system_ok lanes s" and "r \<in> set (q_rows (sy_queue s))"
    and "r' \<in> set (q_rows (update_rows p f (sy_queue s)))" and "wc_pk r' = wc_pk r"
    and "\<And>x. x \<in> set (q_rows (sy_queue s)) \<Longrightarrow> p x \<Longrightarrow> later_version x (f x)"
  shows "later_version r r'"
proof -
  obtain x where x: "x \<in> set (q_rows (sy_queue s))" "r' = (if p x then f x else x)" using assms(3) by auto
  then have v: "later_version x r'" using assms(5) by simp
  then have "x = r"
    using unique_row [OF system_okD(1) [OF assms(1)] x(1) assms(2)] later_version_pk assms(4) by simp
  then show ?thesis using v by simp
qed

lemma inserted_row:
  assumes "system_ok lanes s" and "create_command refuse x (sy_queue s) = Inr q'" and "wc_pk x = q_next_pk (sy_queue s)"
    and "r \<in> set (q_rows (sy_queue s))" and "r' \<in> set (q_rows q')" and "wc_pk r' = wc_pk r"
  shows "later_version r r'"
proof -
  have "wc_pk r < q_next_pk (sy_queue s)" using system_okD(1) [OF assms(1)] assms(4) unfolding table_ok_def by blast
  then have "r' \<in> set (q_rows (sy_queue s))" using create_command_rows [OF assms(2)] assms(3,5,6) by auto
  then show ?thesis by (rule old_row_kept [OF assms(1,4) _ assms(6)])
qed

lemma finished_row:
  assumes "system_ok lanes s" and "sy_thread s t = Working cmd"
    and "finish_command (sy_now s) out cmd (sy_queue s) = Inr q'"
    and "r \<in> set (q_rows (sy_queue s))" and "r' \<in> set (q_rows q')" and "wc_pk r' = wc_pk r"
  shows "later_version r r'"
proof (rule updated_row [OF assms(1,4) assms(5) [unfolded finish_command_rows [OF assms(3)]] assms(6)])
  fix x assume x: "x \<in> set (q_rows (sy_queue s))" "wc_pk x = wc_pk cmd"
  then have "row_of (sy_now s) cmd x" using system_okD(4) [OF assms(1), of t] assms(2) by simp
  then have "wc_status x = ''running'' \<or> wc_status x = ''failed''" unfolding row_of_def by blast
  then show "later_version x (x\<lparr>wc_status := wc_status (closed out cmd), wc_error := wc_error (closed out cmd),
      wc_log := wc_log (closed out cmd), wc_finished_at := Some (sy_now s)\<rparr>)"
    using closed_status [of out cmd] by (auto simp: later_version_def same_identity_def STATUS_MOVES_def)
qed

text \<open>
  In every step of the system a row that survives keeps its command, target, priority,
  arguments and age, and its status moves only from pending to running, from running to
  completed or failed, from running back to pending (a restart), or from failed to completed
  (a handler the sweep had given up returns after all); a completed row stays completed.
\<close>

theorem row_life:
  assumes "reachable lanes s" and "queue_step lanes s s'"
    and "r \<in> set (q_rows (sy_queue s))" and "r' \<in> set (q_rows (sy_queue s'))" and "wc_pk r' = wc_pk r"
  shows "later_version r r'"
proof -
  note ok = reachable_ok [OF assms(1)]
  from assms(2) show ?thesis
  proof (cases rule: queue_step.cases)
    case (door refuse command report pr priority a q')
    from door(2) show ?thesis
      by (cases rule: queue_command_cases) (use ok assms(3-5) door(1) in \<open>auto intro: old_row_kept inserted_row\<close>)
  next
    case (sweep_door refuse command priority kwargs a q')
    from sweep_door(2) show ?thesis
      by (cases rule: insert_targetless_cases) (use ok assms(3-5) sweep_door(1) in \<open>auto intro: old_row_kept inserted_row\<close>)
  next
    case (cancel ids)
    then have "r' \<in> set (q_rows (sy_queue s))" using assms(4) by (simp add: cancel_pending_for_reports_def Let_def)
    then show ?thesis by (rule old_row_kept [OF ok assms(3) _ assms(5)])
  next
    case (erase q' p)
    then have "r' \<in> set (q_rows (sy_queue s))" using assms(4) by simp
    then show ?thesis by (rule old_row_kept [OF ok assms(3) _ assms(5)])
  next
    case (claim t k cmd q')
    obtain x where "q' = update_rows (free_row k) (claimed (sy_now s)) (sy_queue s)"
      using claim_command_Some [OF claim(3) system_okD(1) [OF ok]] by metis
    then have "r' \<in> set (q_rows (update_rows (free_row k) (claimed (sy_now s)) (sy_queue s)))"
      using assms(4) claim(1) by simp
    then show ?thesis
      by (rule updated_row [OF ok assms(3) _ assms(5)])
        (simp add: free_row_def claimed_def later_version_def same_identity_def STATUS_MOVES_def)
  next
    case (finish t cmd out q')
    show ?thesis by (rule finished_row [OF ok finish(2,3) assms(3) _ assms(5)]) (use assms(4) finish(1) in simp)
  next
    case sweep
    then have "r' \<in> set (q_rows (snd (fail_stuck_commands (sy_now s) (sy_queue s))))" using assms(4) by simp
    then show ?thesis unfolding fail_stuck_commands_def snd_conv
      by (rule updated_row [OF ok assms(3) _ assms(5)])
        (simp add: is_stuck_def later_version_def same_identity_def STATUS_MOVES_def)
  next
    case restart
    then have "r' \<in> set (q_rows (snd (requeue_interrupted_commands (sy_queue s))))" using assms(4) by simp
    then show ?thesis unfolding requeue_interrupted_commands_def snd_conv
      by (rule updated_row [OF ok assms(3) _ assms(5)])
        (simp add: later_version_def same_identity_def STATUS_MOVES_def)
  qed (use assms(4) old_row_kept [OF ok assms(3) _ assms(5)] in simp_all)
qed

theorem row_life_witness:
  "later_version (the (row_with_pk 1 (sy_queue hung))) (the (row_with_pk 1 (sy_queue swept)))
   \<and> wc_status (the (row_with_pk 1 (sy_queue hung))) = ''running'' \<and> wc_status (the (row_with_pk 1 (sy_queue swept))) = ''failed''"
proof -
  have "sy_now hung \<le> 22101" by code_simp
  from tick [OF this] have r: "reachable two_lanes (hung\<lparr>sy_now := 22101\<rparr>)"
    by (rule next_step [OF reachable_hung])
  have step: "queue_step two_lanes (hung\<lparr>sy_now := 22101\<rparr>) swept" unfolding swept_def Let_def by (rule sweep)
  have row: "row_with_pk 1 (sy_queue (hung\<lparr>sy_now := 22101\<rparr>)) = Some (the (row_with_pk 1 (sy_queue hung)))"
    "row_with_pk 1 (sy_queue swept) = Some (the (row_with_pk 1 (sy_queue swept)))" by code_simp+
  have st: "wc_status (the (row_with_pk 1 (sy_queue hung))) = ''running''"
    "wc_status (the (row_with_pk 1 (sy_queue swept))) = ''failed''" by code_simp+
  from row_with_pk_Some [OF row(1)] row_with_pk_Some [OF row(2)] show ?thesis
    using row_life [OF r step] st by simp
qed

section \<open>Hung commands\<close>

text \<open>
  C36: A hung command does not block its target for ever: when the only command of that kind in
  flight for the report is past the timeout, the sweep fails it and the next click queues the
  report again.
\<close>

theorem sweep_unblocks:
  assumes "filter (\<lambda>r. wc_command r = command \<and> wc_security_report r = Some report \<and> in_flight r) (q_rows q) = [c]"
    and "wc_status c = ''running''" and "wc_started_at c = Some b" and "b + 21600 < now"
  shows "fst (queue_report command (\<lambda>_. None) now report priority q) = Inr False
    \<and> fst (queue_report command (\<lambda>_. None) now report priority (snd (fail_stuck_commands now q))) = Inr True"
proof -
  let ?hit = "\<lambda>r. wc_command r = command \<and> wc_security_report r = Some report \<and> in_flight r"
  let ?r = "\<lambda>q. new_command now command (Some report) None priority [] q"
  have stuck: "is_stuck now c" using assms(2-4) by (simp add: is_stuck_def STUCK_COMMAND_TIMEOUT_SECONDS_def)
  have hit: "in_flight s \<and> same_report (?r q') s \<longleftrightarrow> ?hit s" "\<not> same_pr (?r q') s" for s q'
    by (auto simp: same_report_def same_pr_def new_command_def)
  have msg: "conflict_message (?r q') rows =
      (if filter ?hit rows \<noteq> [] then Some (UNIQUE_FAILED @ ''security_report_id'') else None)" for q' rows
    unfolding conflict_message_def hit(1) using hit(2) by (simp add: filter_empty_conv list_ex_iff)
  have "?hit s \<Longrightarrow> s \<in> set (q_rows q) \<Longrightarrow> s = c" for s
    using arg_cong [where f = set, OF assms(1)] by auto
  then have "\<not> ?hit s" if s: "s \<in> set (q_rows (snd (fail_stuck_commands now q)))" for s
  proof -
    have "\<exists>x \<in> set (q_rows q). (is_stuck now x \<longrightarrow> wc_status s = ''failed'') \<and> (\<not> is_stuck now x \<longrightarrow> s = x)"
      using s by (auto simp: fail_stuck_commands_def)
    then obtain x where "x \<in> set (q_rows q)" "is_stuck now x \<longrightarrow> wc_status s = ''failed''" "\<not> is_stuck now x \<longrightarrow> s = x"
      by blast
    then show ?thesis using stuck \<open>\<And>s. ?hit s \<Longrightarrow> s \<in> set (q_rows q) \<Longrightarrow> s = c\<close> [of x]
      by (cases "is_stuck now x") (auto simp: in_flight_def IN_FLIGHT_STATUSES_def)
  qed
  then have "filter ?hit (q_rows (snd (fail_stuck_commands now q))) = []" by (simp add: filter_empty_conv)
  then show ?thesis
    unfolding queue_report_def queue_command_def create_command_def msg assms(1) by (simp add: conflict_messages)
qed

theorem sweep_unblocks_witness:
  "fst (queue_report ''run_security_triage'' (\<lambda>_. None) 22101 7 0 (snd (fail_stuck_commands 22101 (sy_queue hung)))) = Inr True"
proof -
  let ?c = "the (row_with_pk 1 (sy_queue hung))"
  have "filter (\<lambda>r. wc_command r = ''run_security_triage'' \<and> wc_security_report r = Some 7 \<and> in_flight r) (q_rows (sy_queue hung)) = [?c]"
    "wc_status ?c = ''running''" "wc_started_at ?c = Some 500" "500 + 21600 < (22101 :: int)" by code_simp+
  from sweep_unblocks [OF this] show ?thesis by blast
qed

section \<open>The drain\<close>

lemma drain_step:
  "drain (Suc n) h la deadline k q w = (res, q', w') \<Longrightarrow>
     (res = Inr k \<and> q' = q \<and> w' = w \<and> (case deadline of None \<Rightarrow> False | Some d \<Rightarrow> d \<le> wh_monotonic h w))
   \<or> (res = Inr k \<and> q' = q \<and> w' = w \<and> select_command (wh_triage_alive h w) la q = None)
   \<or> (\<exists>q1 w1. drain n h la deadline (Suc k) q1 w1 = (res, q', w')) \<or> (\<exists>e. res = Inl e)"
  by (auto simp: Let_def split: if_splits option.splits prod.splits sum.splits outcome.splits)

text \<open>
  The drain is bounded and complete: it handles at most its budget of commands, and when
  it stops before the budget is used up and without a deadline, no command of its lane is
  left to claim in the table as it found it last.
\<close>

theorem drain_bounded_complete:
  "case drain n h la deadline k q w of
     (Inl e, _) \<Rightarrow> n \<noteq> 0
   | (Inr m, q', w') \<Rightarrow> k \<le> m \<and> m \<le> k + n
       \<and> (deadline = None \<and> m < k + n \<longrightarrow> filter (claimable (wh_triage_alive h w') la) (q_rows q') = [])"
proof (induction n arbitrary: k q w)
  case (Suc n)
  obtain res q' w' where d: "drain (Suc n) h la deadline k q w = (res, q', w')" by (metis prod_cases3)
  from drain_step [OF d] consider
      d where "res = Inr k" "q' = q" "w' = w" "deadline = Some d"
    | "res = Inr k" "q' = q" "w' = w" "select_command (wh_triage_alive h w) la q = None"
    | q1 w1 where "drain n h la deadline (Suc k) q1 w1 = (res, q', w')" | e where "res = Inl e"
    by (auto split: option.splits)
  then show ?case
  proof cases
    case 1
    then show ?thesis unfolding d by simp
  next
    case 3
    show ?thesis using Suc.IH [of "Suc k" q1 w1] unfolding d 3 by (cases res) auto
  qed (simp_all add: d select_command_def del: drain.simps)
qed simp

text \<open>A host that does nothing but work: the handler succeeds, and a minute passes.\<close>

definition quiet_host :: "int worker_host" where
  "quiet_host = \<lparr>wh_monotonic = (\<lambda>w. w), wh_now = (\<lambda>w. w), wh_triage_alive = (\<lambda>_. True),
     wh_meanwhile = (\<lambda>q w. (q, w)), wh_handle = (\<lambda>cmd q w. (Completed ''done'', q, w + 60))\<rparr>"

theorem drain_bounded_complete_witness:
  "filter (claimable True interactive_lane)
     (q_rows (fst (snd (drain 20 quiet_host interactive_lane None 0 (sy_queue (click 100 (initial 500))) 500)))) = []"
proof -
  let ?q = "sy_queue (click 100 (initial 500))"
  obtain res q' w' where r: "drain 20 quiet_host interactive_lane None 0 ?q 500 = (res, q', w')" by (metis prod_cases3)
  have "fst (drain 20 quiet_host interactive_lane None 0 ?q 500) = Inr 1" by code_simp
  then have "res = Inr 1" using r by simp
  moreover have "wh_triage_alive quiet_host w' = True" by (simp add: quiet_host_def)
  ultimately show ?thesis using r
    drain_bounded_complete [where n = 20 and h = quiet_host and la = interactive_lane and deadline = None and k = 0 and q = ?q and w = 500]
    by simp
qed

text \<open>
  What happens while a drain looks away, or runs a handler, is a sequence of steps that leave
  its own thread alone, up to the clock's reading.
\<close>

definition others_run :: "(nat \<Rightarrow> lane) \<Rightarrow> nat \<Rightarrow> system \<Rightarrow> command_queue \<Rightarrow> int \<Rightarrow> bool" where
  "others_run lanes t s q now \<longleftrightarrow> (\<exists>s'. (queue_step lanes)\<^sup>*\<^sup>* s s' \<and> sy_thread s' t = sy_thread s t
     \<and> sy_queue s' = q \<and> sy_now s' = now)"

definition host_ok :: "(nat \<Rightarrow> lane) \<Rightarrow> nat \<Rightarrow> 'w worker_host \<Rightarrow> bool" where
  "host_ok lanes t h \<longleftrightarrow> (\<forall>s w. reachable lanes s \<longrightarrow> sy_now s = wh_now h w \<longrightarrow>
     (case wh_meanwhile h (sy_queue s) w of (q', w') \<Rightarrow> others_run lanes t s q' (wh_now h w'))
     \<and> (\<forall>cmd. case wh_handle h cmd (sy_queue s) w of (out, q', w') \<Rightarrow> others_run lanes t s q' (wh_now h w')))"

lemma host_okD:
  assumes "host_ok lanes t h" and "reachable lanes s" and "sy_now s = wh_now h w"
  shows "wh_meanwhile h (sy_queue s) w = (q', w') \<Longrightarrow> others_run lanes t s q' (wh_now h w')"
    and "wh_handle h cmd (sy_queue s) w = (out, q', w') \<Longrightarrow> others_run lanes t s q' (wh_now h w')"
  using assms(1) [unfolded host_ok_def, rule_format, OF assms(2,3)] by (metis (no_types, lifting) prod.case)+

lemma host_meanwhile:
  assumes "host_ok lanes t h" and "reachable lanes s" and "sy_now s = wh_now h w"
    and "wh_meanwhile h (sy_queue s) w = (q', w')"
  obtains s' where "(queue_step lanes)\<^sup>*\<^sup>* s s'" "sy_thread s' t = sy_thread s t" "sy_queue s' = q'" "sy_now s' = wh_now h w'"
  using host_okD(1) [OF assms] that unfolding others_run_def by blast

lemma host_dispatch:
  assumes "host_ok lanes t h" and "reachable lanes s" and "sy_now s = wh_now h w"
    and "dispatch h cmd (sy_queue s) w = (out, q', w')"
  obtains s' where "(queue_step lanes)\<^sup>*\<^sup>* s s'" "sy_thread s' t = sy_thread s t" "sy_queue s' = q'" "sy_now s' = wh_now h w'"
proof (cases "wc_command cmd \<in> set HANDLED_COMMANDS")
  case True
  then have "wh_handle h cmd (sy_queue s) w = (out, q', w')" using assms(4) by (simp add: dispatch_def)
  from host_okD(2) [OF assms(1-3) this] show ?thesis using that unfolding others_run_def by blast
next
  case False
  then show ?thesis using that [of s] assms(3,4) by (auto simp: dispatch_def)
qed

lemma reachable_steps: "(queue_step lanes)\<^sup>*\<^sup>* s s' \<Longrightarrow> reachable lanes s \<Longrightarrow> reachable lanes s'"
  by (induction rule: rtranclp_induct) (auto intro: next_step)

lemma drain_claims:
  assumes h: "host_ok lanes t h" and s: "reachable lanes s" "sy_thread s t = Idle" "sy_now s = wh_now h w"
    and sel: "select_command (wh_triage_alive h w) (lanes t) (sy_queue s) = Some k"
    and m: "wh_meanwhile h (sy_queue s) w = (q1, w1)"
  obtains s1 where "(queue_step lanes)\<^sup>*\<^sup>* s s1" "sy_thread s1 t = Chose k" "sy_queue s1 = q1" "sy_now s1 = wh_now h w1"
proof -
  let ?s = "s\<lparr>sy_thread := (sy_thread s)(t := Chose k)\<rparr>"
  have c: "queue_step lanes s ?s" by (rule choose, rule s(2), rule sel)
  have "reachable lanes ?s" using next_step [OF s(1) c] .
  then obtain s1 where "(queue_step lanes)\<^sup>*\<^sup>* ?s s1" "sy_thread s1 t = Chose k" "sy_queue s1 = q1" "sy_now s1 = wh_now h w1"
    using host_meanwhile [OF h, of ?s w q1 w1] s(3) m by auto
  then show ?thesis using that converse_rtranclp_into_rtranclp [of "queue_step lanes", OF c] by blast
qed

lemma drain_runs:
  assumes h: "host_ok lanes t h" and s: "reachable lanes s" "sy_thread s t = Chose k" "sy_now s = wh_now h w"
    and c: "claim_command (wh_now h w) k (sy_queue s) = Some (cmd, q2)"
    and d: "dispatch h cmd q2 w = (out, q3, w3)"
  obtains s3 where "(queue_step lanes)\<^sup>*\<^sup>* s s3" "sy_thread s3 t = Working cmd" "sy_queue s3 = q3" "sy_now s3 = wh_now h w3"
proof -
  let ?s = "s\<lparr>sy_queue := q2, sy_thread := (sy_thread s)(t := Working cmd)\<rparr>"
  have step: "queue_step lanes s ?s" using claim [OF s(2)] s(3) c by simp
  have "reachable lanes ?s" using next_step [OF s(1) step] .
  then obtain s3 where "(queue_step lanes)\<^sup>*\<^sup>* ?s s3" "sy_thread s3 t = Working cmd" "sy_queue s3 = q3" "sy_now s3 = wh_now h w3"
    using host_dispatch [OF h, of ?s w cmd out q3 w3] s(3) d by auto
  then show ?thesis using that converse_rtranclp_into_rtranclp [of "queue_step lanes", OF step] by blast
qed

lemma finish_step:
  assumes "sy_thread s t = Working cmd"
  obtains s' where "queue_step lanes s s'" "sy_thread s' t = Idle" "sy_now s' = sy_now s"
    "sy_queue s' = (case finish_command (sy_now s) out cmd (sy_queue s) of Inl e \<Rightarrow> sy_queue s | Inr q \<Rightarrow> q)"
proof (cases "finish_command (sy_now s) out cmd (sy_queue s)")
  case (Inl e)
  show ?thesis by (rule that [OF finish_gone [OF assms Inl]]) (simp_all add: Inl)
next
  case (Inr q)
  show ?thesis by (rule that [OF finish [OF assms Inr]]) (simp_all add: Inr)
qed

lemma drain_claimed:
  assumes h: "host_ok lanes t h" and s: "reachable lanes s" "sy_thread s t = Chose pk" "sy_now s = wh_now h w"
    and c: "claim_command (wh_now h w) pk (sy_queue s) = Some (cmd, q2)"
    and d: "(let (out, q3, w3) = dispatch h cmd q2 w in
      case finish_command (wh_now h w3) out cmd q3 of Inl e \<Rightarrow> (Inl e, q3, w3)
      | Inr q4 \<Rightarrow> (case out of Interrupted e _ \<Rightarrow> (Inl e, q4, w3) | _ \<Rightarrow> drain n h (lanes t) deadline (Suc k) q4 w3))
      = (res, q', w')"
  shows "\<exists>s4 w4. (queue_step lanes)\<^sup>*\<^sup>* s s4 \<and> sy_thread s4 t = Idle \<and> sy_now s4 = wh_now h w4 \<and>
     ((sy_queue s4 = q' \<and> w4 = w') \<or> drain n h (lanes t) deadline (Suc k) (sy_queue s4) w4 = (res, q', w'))"
proof -
  obtain out q3 w3 where o: "dispatch h cmd q2 w = (out, q3, w3)" by (metis prod_cases3)
  obtain s3 where s3: "(queue_step lanes)\<^sup>*\<^sup>* s s3" "sy_thread s3 t = Working cmd" "sy_queue s3 = q3" "sy_now s3 = wh_now h w3"
    using drain_runs [OF h s c o] .
  obtain s4 where s4: "queue_step lanes s3 s4" "sy_thread s4 t = Idle" "sy_now s4 = sy_now s3"
    "sy_queue s4 = (case finish_command (sy_now s3) out cmd (sy_queue s3) of Inl e \<Rightarrow> sy_queue s3 | Inr q \<Rightarrow> q)"
    using finish_step [OF s3(2)] by blast
  have "(queue_step lanes)\<^sup>*\<^sup>* s s4" using s3(1) s4(1) by (rule rtranclp.rtrancl_into_rtrancl)
  moreover have "(sy_queue s4 = q' \<and> w3 = w') \<or> drain n h (lanes t) deadline (Suc k) (sy_queue s4) w3 = (res, q', w')"
    using d s4(4) unfolding o s3(3,4) by (auto split: sum.splits outcome.splits)
  ultimately show ?thesis using s4(2,3) s3(4) by auto
qed

lemma drain_round:
  assumes h: "host_ok lanes t h" and s: "reachable lanes s" "sy_thread s t = Idle" "sy_now s = wh_now h w"
    and d: "drain (Suc n) h (lanes t) deadline k (sy_queue s) w = (res, q', w')"
  shows "\<exists>s4 w4. (queue_step lanes)\<^sup>*\<^sup>* s s4 \<and> sy_thread s4 t = Idle \<and> sy_now s4 = wh_now h w4 \<and>
     ((sy_queue s4 = q' \<and> w4 = w') \<or> drain n h (lanes t) deadline (Suc k) (sy_queue s4) w4 = (res, q', w'))"
proof (cases "(case deadline of None \<Rightarrow> False | Some d \<Rightarrow> d \<le> wh_monotonic h w)
    \<or> select_command (wh_triage_alive h w) (lanes t) (sy_queue s) = None")
  case True
  then have "q' = sy_queue s \<and> w' = w" using d by (auto split: if_splits)
  then show ?thesis using s(2,3) by blast
next
  case False
  then obtain pk where pk: "select_command (wh_triage_alive h w) (lanes t) (sy_queue s) = Some pk" by blast
  obtain q1 w1 where m: "wh_meanwhile h (sy_queue s) w = (q1, w1)" by fastforce
  obtain s1 where s1: "(queue_step lanes)\<^sup>*\<^sup>* s s1" "sy_thread s1 t = Chose pk" "sy_queue s1 = q1" "sy_now s1 = wh_now h w1"
    using drain_claims [OF h s pk m] .
  have body: "(case claim_command (wh_now h w1) pk (sy_queue s1) of None \<Rightarrow> drain n h (lanes t) deadline (Suc k) (sy_queue s1) w1
      | Some (cmd, q2) \<Rightarrow> (let (out, q3, w3) = dispatch h cmd q2 w1 in
          case finish_command (wh_now h w3) out cmd q3 of Inl e \<Rightarrow> (Inl e, q3, w3)
          | Inr q4 \<Rightarrow> (case out of Interrupted e _ \<Rightarrow> (Inl e, q4, w3) | _ \<Rightarrow> drain n h (lanes t) deadline (Suc k) q4 w3)))
      = (res, q', w')"
    unfolding s1(3) using d False pk m by simp
  show ?thesis
  proof (cases "claim_command (wh_now h w1) pk (sy_queue s1)")
    case None
    have l: "queue_step lanes s1 (s1\<lparr>sy_thread := (sy_thread s1)(t := Idle)\<rparr>)"
      by (rule lose, rule s1(2)) (simp add: s1(4) None)
    have "(queue_step lanes)\<^sup>*\<^sup>* s (s1\<lparr>sy_thread := (sy_thread s1)(t := Idle)\<rparr>)"
      using s1(1) l by (rule rtranclp.rtrancl_into_rtrancl)
    then show ?thesis using body None s1(4)
      by (intro exI [of _ "s1\<lparr>sy_thread := (sy_thread s1)(t := Idle)\<rparr>"] exI [of _ w1]) simp
  next
    case (Some cq)
    obtain cmd q2 where cq: "cq = (cmd, q2)" by fastforce
    show ?thesis
      using drain_claimed [OF h reachable_steps [OF s1(1) s(1)] s1(2,4) Some [unfolded cq]
          body [unfolded Some cq option.case prod.case]] rtranclp_trans [OF s1(1)] by blast
  qed
qed

text \<open>
  C7: The drain refines the concurrent system: whatever the handlers do, as long as the rest
  of the world only takes steps of the system, a drain of thread \<open>t\<close> is a sequence of steps
  of the system that ends with the thread idle, also when it ends in an exception. So
  everything proved of the reachable states holds while it runs.
\<close>

theorem drain_is_a_run:
  assumes "host_ok lanes t h" and "reachable lanes s" and "sy_thread s t = Idle" and "sy_now s = wh_now h w"
    and "drain n h (lanes t) deadline k (sy_queue s) w = (res, q', w')"
  shows "\<exists>s'. (queue_step lanes)\<^sup>*\<^sup>* s s' \<and> sy_queue s' = q' \<and> sy_now s' = wh_now h w' \<and> sy_thread s' t = Idle"
  using assms(2-5)
proof (induction n arbitrary: k s w)
  case (Suc n)
  obtain s4 w4 where s4: "(queue_step lanes)\<^sup>*\<^sup>* s s4" "sy_thread s4 t = Idle" "sy_now s4 = wh_now h w4"
    "(sy_queue s4 = q' \<and> w4 = w') \<or> drain n h (lanes t) deadline (Suc k) (sy_queue s4) w4 = (res, q', w')"
    using drain_round [OF assms(1) Suc.prems] by blast
  from s4(4) show ?case
  proof
    assume "drain n h (lanes t) deadline (Suc k) (sy_queue s4) w4 = (res, q', w')"
    from Suc.IH [OF reachable_steps [OF s4(1) Suc.prems(1)] s4(2,3) this] show ?thesis
      using rtranclp_trans [OF s4(1)] by blast
  qed (use s4 in blast)
qed auto

lemma quiet_host_ok: "host_ok lanes t quiet_host"
proof -
  have "others_run lanes t s (sy_queue s) (sy_now s + d)" if "0 \<le> d" for s d
  proof -
    have "queue_step lanes s (s\<lparr>sy_now := sy_now s + d\<rparr>)" using that by (intro queue_step.tick) simp
    then show ?thesis unfolding others_run_def by (intro exI [of _ "s\<lparr>sy_now := sy_now s + d\<rparr>"]) auto
  qed
  from this [of 0] this [of 60] show ?thesis unfolding host_ok_def quiet_host_def by auto
qed

theorem drain_is_a_run_witness:
  "\<exists>s'. (queue_step two_lanes)\<^sup>*\<^sup>* (click 100 (initial 500)) s' \<and> sy_thread s' 0 = Idle
     \<and> map wc_status (q_rows (sy_queue s')) = [''completed'']"
proof -
  let ?s = "click 100 (initial 500)"
  have d: "map wc_status (q_rows (fst (snd (drain 20 quiet_host (two_lanes 0) None 0 (sy_queue ?s) 500)))) = [''completed'']"
    by code_simp
  have i: "sy_thread ?s 0 = Idle" "sy_now ?s = wh_now quiet_host 500" by code_simp+
  obtain res q' w' where r: "drain 20 quiet_host (two_lanes 0) None 0 (sy_queue ?s) 500 = (res, q', w')" by (metis prod_cases3)
  then have "map wc_status (q_rows q') = [''completed'']" using d by simp
  moreover obtain s' where "(queue_step two_lanes)\<^sup>*\<^sup>* ?s s'" "sy_queue s' = q'" "sy_thread s' 0 = Idle"
    using drain_is_a_run [where lanes = two_lanes, OF quiet_host_ok reachable_click [OF start] i r] by metis
  ultimately show ?thesis by (intro exI [of _ s']) (simp only: simp_thms)
qed

end
