(* ===== verification/JsonCandidates.thy ===== *)
theory JsonCandidates
  imports JsonText
begin

text \<open>
  The balanced \<open>{...}\<close> spans of a language model's answer, last first
  (\<open>json_object_candidates\<close> in \<open>review/backends/base.py\<close>), \<open>json.loads\<close>, and the loop with
  which a verdict is read from an answer: the first candidate that is an acceptable object.

  The generator of the source is the list of what it yields. The positions are scanned from
  the tail with a budget of characters, as in the source.
\<close>

definition MAX_JSON_SCAN_CHARS :: int where "MAX_JSON_SCAN_CHARS = 2000000"

text \<open>
  One character of an attempt: \<open>None\<close> when it closes the span, else depth and string state.
\<close>

definition object_step :: "int \<Rightarrow> bool \<Rightarrow> bool \<Rightarrow> char \<Rightarrow> (int \<times> bool \<times> bool) option" where
  "object_step depth in_string escaped c =
     (if in_string then
        (if escaped then Some (depth, True, False)
         else if c = char_of (92 :: nat) then Some (depth, True, True)
         else if c = quote_char then Some (depth, False, False)
         else Some (depth, True, False))
      else if c = quote_char then Some (depth, True, escaped)
      else if c = open_brace then Some (depth + 1, False, escaped)
      else if c = close_brace then (if depth - 1 = 0 then None else Some (depth - 1, False, escaped))
      else Some (depth, False, escaped))"

text \<open>One attempt: the length of the balanced span, if it closes, and the characters read.\<close>

fun object_span :: "int \<Rightarrow> bool \<Rightarrow> bool \<Rightarrow> string \<Rightarrow> nat option \<times> nat" where
  "object_span depth in_string escaped [] = (None, 0)"
| "object_span depth in_string escaped (c # s) = (case object_step depth in_string escaped c of
     None \<Rightarrow> (Some 1, 1)
   | Some (d, i, e) \<Rightarrow> (case object_span d i e s of (r, n) \<Rightarrow> (map_option Suc r, Suc n)))"

text \<open>The loop over the positions of \<open>{\<close>, given from the last to the first.\<close>

fun candidates_at :: "string \<Rightarrow> int \<Rightarrow> nat list \<Rightarrow> string list" where
  "candidates_at answer scanned [] = []"
| "candidates_at answer scanned (start # starts) =
     (if MAX_JSON_SCAN_CHARS \<le> scanned then []
      else (case object_span 0 False False (drop start answer) of
          (None, n) \<Rightarrow> candidates_at answer (scanned + int n) starts
        | (Some len, n) \<Rightarrow> take len (drop start answer) # candidates_at answer (scanned + int n) starts))"

definition brace_positions :: "string \<Rightarrow> nat list" where
  "brace_positions answer = rev (filter (\<lambda>i. answer ! i = open_brace) [0..<length answer])"

definition json_object_candidates :: "string \<Rightarrow> string list" where
  "json_object_candidates answer = candidates_at answer 0 (brace_positions answer)"

text \<open>\<open>json.loads\<close>: one value, with only white space around it; \<open>None\<close> is the \<open>ValueError\<close>.\<close>

definition json_loads :: "string \<Rightarrow> json option" where
  "json_loads s = (case scan_value (skip_ws s) of None \<Rightarrow> None
   | Some (v, r) \<Rightarrow> if skip_ws r = [] then Some v else None)"

text \<open>The first candidate that decodes to an object which \<open>read\<close> accepts.\<close>

fun first_answer :: "(jdict \<Rightarrow> 'a option) \<Rightarrow> string list \<Rightarrow> 'a option" where
  "first_answer accept [] = None"
| "first_answer accept (candidate # rest) = (case json_loads candidate of
     Some (JObj data) \<Rightarrow> (case accept data of None \<Rightarrow> first_answer accept rest | Some x \<Rightarrow> Some x)
   | _ \<Rightarrow> first_answer accept rest)"

section \<open>What comes earlier the answer does not matter\<close>

lemma candidates_at_shift:
  "\<exists>more. candidates_at (earlier @ answer) scanned (map ((+) (length earlier)) starts @ starts')
     = candidates_at answer scanned starts @ more"
proof (induction answer scanned starts rule: candidates_at.induct)
  case (2 answer scanned start starts)
  then show ?case by (cases "object_span 0 False False (drop start answer)") (auto split: option.splits)
qed auto

lemma upt_append_length: "[0..<m + n] = [0..<m] @ map ((+) m) [0..<n]"
  by (intro nth_equalityI) (auto simp: nth_append)

lemma brace_positions_append:
  "brace_positions (earlier @ answer) = map ((+) (length earlier)) (brace_positions answer) @ brace_positions earlier"
proof -
  have "filter (\<lambda>i. (earlier @ answer) ! i = open_brace) (map ((+) (length earlier)) [0..<length answer])
      = map ((+) (length earlier)) (filter (\<lambda>i. answer ! i = open_brace) [0..<length answer])"
    by (simp add: filter_map comp_def nth_append)
  moreover have "filter (\<lambda>i. (earlier @ answer) ! i = open_brace) [0..<length earlier]
      = filter (\<lambda>i. earlier ! i = open_brace) [0..<length earlier]"
    by (intro filter_cong) (auto simp: nth_append)
  ultimately show ?thesis
    unfolding brace_positions_def length_append upt_append_length by (simp add: rev_map)
qed

lemma candidates_of_tail:
  "\<exists>more. json_object_candidates (earlier @ answer) = json_object_candidates answer @ more"
  unfolding json_object_candidates_def brace_positions_append by (rule candidates_at_shift)

lemma first_answer_append:
  "first_answer accept cs = Some x \<Longrightarrow> first_answer accept (cs @ more) = Some x"
  by (induction cs) (auto split: option.splits json.splits)

lemma answer_of_tail:
  "first_answer accept (json_object_candidates answer) = Some x
     \<Longrightarrow> first_answer accept (json_object_candidates (earlier @ answer)) = Some x"
  using candidates_of_tail [of earlier answer] first_answer_append by metis

end
