(* ===== verification/ReviewGates.thy ===== *)
theory ReviewGates
  imports JsonCandidates DataModel Signals
begin

text \<open>
  The gates in front of a full review, from \<open>worker/runner.py\<close> (who still owes a review of
  the current head, the quiet window, the review policy, the composition in \<open>process_pr\<close>),
  \<open>review/mergeability.py\<close> (the triage), \<open>review/worthiness.py\<close> (the screen) and
  \<open>backends/poller.py\<close> (what a push does to the recorded reviews).

  The row is the PR row with the columns the gates read. The language models, the search path
  and the clock are parameters; instants are seconds.
\<close>

section \<open>Rows and configuration\<close>

record review_row = pr_row +
  rv_body :: string
  rv_assignees :: "string list"
  rv_requested_reviewers :: "string list"
  rv_queue :: string
  rv_merge_intent :: string
  rv_head_seen_at :: "int option"
  rv_mergeability_verdict :: string
  rv_mergeability_sha :: string
  rv_mergeability_detail :: jdict
  rv_worthiness_verdict :: string
  rv_worthiness_sha :: string
  rv_worthiness_detail :: jdict

text \<open>An agent-CLI reviewer: \<open>enabled\<close> is \<open>None\<close> for \<open>"auto"\<close>; whether its launcher is installed
  is what \<open>shutil.which\<close> answers.\<close>

record reviewer =
  rc_name :: string
  rc_fallback :: "string list"
  rc_enabled :: "bool option"
  rc_ssh :: bool
  rc_installed :: bool

record gate_operator =
  go_github_username :: string
  go_agent_cli_reviewers :: "reviewer list"
  go_coderabbit_enabled :: bool
  go_snowflake_enabled :: bool

record gate_project =
  gp_full_name :: string
  gp_frequent_contributors :: "string list"
  gp_committers :: "string list"
  gp_watched_paths :: "string list"
  gp_auto_review_policy :: string
  gp_minimize_reviews :: bool
  gp_review_activity_days :: int
  gp_fresh_pr_quiet_minutes :: int
  gp_rereview_quiet_minutes :: int

section \<open>Whose pull request it is\<close>

definition should_auto_review :: "review_row \<Rightarrow> string \<Rightarrow> bool" where
  "should_auto_review pr operator_username = (if operator_username = [] then True
     else if pr_author pr \<noteq> [] \<and> lower (pr_author pr) = lower operator_username then True
     else is_operator_involved (rv_body pr) (rv_assignees pr) (rv_requested_reviewers pr) operator_username)"

definition interest_reason :: "review_row \<Rightarrow> gate_project \<Rightarrow> string \<Rightarrow> string" where
  "interest_reason pr pc operator_username =
     (if operator_username \<noteq> [] \<and> should_auto_review pr operator_username then ''you are involved''
      else if lower (pr_author pr) \<in> set (lowered (gp_frequent_contributors pc @ gp_committers pc))
      then pr_author pr @ '' is a contributor you follow''
      else if list_ex (watched (gp_watched_paths pc)) (pr_changed_files pr) then ''it touches watched_paths''
      else if rv_merge_intent pr \<noteq> [] then ''it is already approved''
      else if pr_readiness_verdict pr \<noteq> [] then ''it is almost ready to merge''
      else [])"

section \<open>The mergeability triage\<close>

abbreviation LIKELY_MERGEABLE :: string where "LIKELY_MERGEABLE \<equiv> ''likely-mergeable''"

definition TRIAGE_VERDICTS :: "string list" where
  "TRIAGE_VERDICTS = [LIKELY_MERGEABLE, ''needs-work'', ''unclear'']"

record triage =
  tg_verdict :: string
  tg_summary :: string
  tg_suggestion :: string
  tg_touches_area :: bool
  tg_source :: string

definition wants_full_review :: "triage \<Rightarrow> bool" where
  "wants_full_review t \<longleftrightarrow> tg_verdict t = LIKELY_MERGEABLE \<or> tg_touches_area t"

text \<open>\<open>_state\<close>: what a verdict reads besides the code and that moves without a push.\<close>

definition verdict_state :: "review_row \<Rightarrow> json list" where
  "verdict_state pr = [JBool (pr_ci_status pr \<in> {''failure'', ''error''}), JBool (pr_mergeable pr = Some False),
     JList (map (\<lambda>(login, r). JList [JStr login, case map_of r ''state'' of None \<Rightarrow> JNull | Some s \<Rightarrow> JStr s])
       (sort_key fst (pr_review_states pr)))]"

definition str_field :: "jdict \<Rightarrow> string \<Rightarrow> string" where
  "str_field d k = py_str (dict_get (JStr []) d k)"

definition current_triage :: "review_row \<Rightarrow> triage option" where
  "current_triage pr = (if rv_mergeability_sha pr = [] \<or> rv_mergeability_sha pr \<noteq> pr_head_sha pr then None
     else (let detail = rv_mergeability_detail pr in
       if jget detail ''state'' \<noteq> JList (verdict_state pr) then None
       else Some \<lparr>tg_verdict = rv_mergeability_verdict pr, tg_summary = str_field detail ''summary'',
         tg_suggestion = str_field detail ''suggestion'', tg_touches_area = truthy (jget detail ''touches_area''),
         tg_source = str_field detail ''source''\<rparr>))"

definition read_triage :: "jdict \<Rightarrow> triage option" where
  "read_triage data = (let verdict = lower (strip (str_field data ''verdict'')) in
     if verdict \<notin> set TRIAGE_VERDICTS then None
     else Some \<lparr>tg_verdict = verdict, tg_summary = take 1000 (str_or data ''summary'' []),
       tg_suggestion = take 2000 (str_or data ''suggestion'' []),
       tg_touches_area = (jget data ''touches_area_of_interest'' = JBool True), tg_source = []\<rparr>)"

definition parse_triage :: "string \<Rightarrow> triage option" where
  "parse_triage raw = first_answer read_triage (json_object_candidates raw)"

definition record_triage :: "triage \<Rightarrow> review_row \<Rightarrow> review_row" where
  "record_triage t pr = pr\<lparr>rv_mergeability_verdict := tg_verdict t, rv_mergeability_sha := pr_head_sha pr,
     rv_mergeability_detail := [(''summary'', JStr (tg_summary t)), (''suggestion'', JStr (tg_suggestion t)),
       (''touches_area'', JBool (tg_touches_area t)), (''source'', JStr (tg_source t)),
       (''state'', JList (verdict_state pr))]\<rparr>"

section \<open>The worthiness screen\<close>

abbreviation WORTH_REVIEWING :: string where "WORTH_REVIEWING \<equiv> ''worth-reviewing''"

definition WORTHINESS_VERDICTS :: "string list" where
  "WORTHINESS_VERDICTS = [WORTH_REVIEWING, ''not-worth-reviewing'', ''unclear'']"

record worthiness =
  wo_verdict :: string
  wo_reason :: string
  wo_source :: string

definition worth_reviewing :: "worthiness \<Rightarrow> bool" where
  "worth_reviewing v \<longleftrightarrow> wo_verdict v = WORTH_REVIEWING"

definition looks_close_to_mergeable :: "review_row \<Rightarrow> string" where
  "looks_close_to_mergeable pr = (if rv_merge_intent pr \<noteq> [] then ''already approved (merge intent)''
     else if pr_readiness_verdict pr \<in> set LISTED_VERDICTS then ''almost ready to merge''
     else if 0 < pr_approval_count pr then ''has approvals''
     else (case current_triage pr of None \<Rightarrow> []
       | Some t \<Rightarrow> if tg_verdict t = LIKELY_MERGEABLE then ''triage said likely-mergeable'' else []))"

definition lowered_set :: "json \<Rightarrow> string list" where
  "lowered_set v = (case v of JList items \<Rightarrow> map (lower \<circ> py_str) items | _ \<Rightarrow> [])"

text \<open>\<open>blame\<close> is what the blame fetcher answers; \<open>None\<close> when it raises.\<close>

definition blame_touches_operator :: "review_row \<Rightarrow> string \<Rightarrow> bool \<Rightarrow> jdict list option \<Rightarrow> string" where
  "blame_touches_operator pr operator_username has_checkout blame =
     (if operator_username = [] \<or> \<not> has_checkout \<or> pr_changed_files pr = [] then []
      else (case blame of None \<Rightarrow> []
        | Some entries \<Rightarrow>
            if list_ex (\<lambda>e. lower operator_username \<in> set (lowered_set (jget e ''authors''))) entries
            then ''it rewrites code you wrote'' else []))"

definition current_worthiness :: "review_row \<Rightarrow> worthiness option" where
  "current_worthiness pr = (if rv_worthiness_sha pr = [] \<or> rv_worthiness_sha pr \<noteq> pr_head_sha pr then None
     else (let detail = rv_worthiness_detail pr in
       if jget detail ''state'' \<noteq> JList (verdict_state pr) then None
       else Some \<lparr>wo_verdict = rv_worthiness_verdict pr, wo_reason = str_field detail ''reason'',
         wo_source = str_field detail ''source''\<rparr>))"

definition read_worthiness :: "jdict \<Rightarrow> worthiness option" where
  "read_worthiness data = (let verdict = lower (strip (str_field data ''verdict'')) in
     if verdict \<notin> set WORTHINESS_VERDICTS then None
     else Some \<lparr>wo_verdict = verdict, wo_reason = take 1000 (str_or data ''reason'' []), wo_source = []\<rparr>)"

definition parse_worthiness :: "string \<Rightarrow> worthiness option" where
  "parse_worthiness raw = first_answer read_worthiness (json_object_candidates raw)"

definition record_worthiness :: "worthiness \<Rightarrow> review_row \<Rightarrow> review_row" where
  "record_worthiness v pr = pr\<lparr>rv_worthiness_verdict := wo_verdict v, rv_worthiness_sha := pr_head_sha pr,
     rv_worthiness_detail := [(''reason'', JStr (wo_reason v)), (''source'', JStr (wo_source v)),
       (''state'', JList (verdict_state pr))]\<rparr>"

section \<open>Asking the configured backends\<close>

definition with_routed_first :: "'b option \<Rightarrow> 'b list \<Rightarrow> 'b list" where
  "with_routed_first routed fallbacks = (case routed of None \<Rightarrow> fallbacks | Some b \<Rightarrow> b # fallbacks)"

definition worthiness_backend_configs :: "'b option \<Rightarrow> 'b option \<Rightarrow> 'b list \<Rightarrow> 'b list" where
  "worthiness_backend_configs explicit routed llm_backends =
     (case explicit of Some b \<Rightarrow> [b] | None \<Rightarrow> with_routed_first routed llm_backends)"

definition by_name :: "reviewer list \<Rightarrow> string \<Rightarrow> reviewer option" where
  "by_name reviewers name = map_of (rev (map (\<lambda>rc. (rc_name rc, rc)) reviewers)) name"

definition triage_backend_configs ::
    "(reviewer \<Rightarrow> bool) \<Rightarrow> (string \<Rightarrow> 'b) \<Rightarrow> reviewer list \<Rightarrow> string list \<Rightarrow> 'b option \<Rightarrow> 'b list \<Rightarrow> 'b list" where
  "triage_backend_configs usage_paused agent_cli reviewers backends routed llm_backends =
     concat (map (\<lambda>name. if name = ''llm'' then with_routed_first routed llm_backends
       else (case by_name reviewers name of None \<Rightarrow> []
         | Some rc \<Rightarrow> if \<not> usage_paused rc then [agent_cli name] else [])) backends)"

text \<open>
  A backend: its label, and the metered call, \<open>None\<close> when it cannot be built, is not a
  language model or raises. The first parseable answer wins.
\<close>

record 'w screen_backend =
  sb_label :: string
  sb_call :: "string \<Rightarrow> 'w \<Rightarrow> string option \<times> 'w"

fun ask_backends ::
    "(string \<Rightarrow> 'a option) \<Rightarrow> (string \<Rightarrow> 'a \<Rightarrow> 'a) \<Rightarrow> string \<Rightarrow> 'w screen_backend list \<Rightarrow> 'w \<Rightarrow> 'a option \<times> 'w" where
  "ask_backends parse with_source prompt [] w = (None, w)"
| "ask_backends parse with_source prompt (b # bs) w = (case sb_call b prompt w of
     (None, w1) \<Rightarrow> ask_backends parse with_source prompt bs w1
   | (Some raw, w1) \<Rightarrow> (case parse raw of
       None \<Rightarrow> ask_backends parse with_source prompt bs w1
     | Some verdict \<Rightarrow> (Some (with_source (sb_label b) verdict), w1)))"

definition run_triage :: "string \<Rightarrow> 'w screen_backend list \<Rightarrow> 'w \<Rightarrow> triage option \<times> 'w" where
  "run_triage prompt bs w = ask_backends parse_triage (\<lambda>label t. t\<lparr>tg_source := label\<rparr>) prompt bs w"

definition run_worthiness_screen :: "string \<Rightarrow> 'w screen_backend list \<Rightarrow> 'w \<Rightarrow> worthiness option \<times> 'w" where
  "run_worthiness_screen prompt bs w = ask_backends parse_worthiness (\<lambda>label v. v\<lparr>wo_source := label\<rparr>) prompt bs w"

section \<open>Who still owes a review\<close>

abbreviation LLM_REVIEW_SOURCE :: string where "LLM_REVIEW_SOURCE \<equiv> ''llm''"

definition reviewer_active :: "reviewer \<Rightarrow> bool" where
  "reviewer_active rc = (case rc_enabled rc of None \<Rightarrow> rc_ssh rc \<or> rc_installed rc | Some b \<Rightarrow> b)"

definition resolve_agent_cli_reviewers :: "gate_operator option \<Rightarrow> reviewer list" where
  "resolve_agent_cli_reviewers oc = (case oc of None \<Rightarrow> []
   | Some c \<Rightarrow> filter reviewer_active (go_agent_cli_reviewers c))"

definition reviewer_fallbacks :: "reviewer \<Rightarrow> gate_operator \<Rightarrow> reviewer list" where
  "reviewer_fallbacks rc oc = filter (\<lambda>f. rc_enabled f \<noteq> None \<or> rc_ssh f \<or> rc_installed f)
     (List.map_filter (by_name (go_agent_cli_reviewers oc)) (rc_fallback rc))"

text \<open>A set of source keys is a list read as a set.\<close>

definition expected_review_sources :: "(reviewer \<Rightarrow> bool) \<Rightarrow> gate_operator option \<Rightarrow> string list" where
  "expected_review_sources usage_paused oc = LLM_REVIEW_SOURCE # (case oc of None \<Rightarrow> []
   | Some c \<Rightarrow>
       map rc_name (filter (\<lambda>rc. \<not> list_all usage_paused (rc # reviewer_fallbacks rc c)) (resolve_agent_cli_reviewers oc))
       @ (if go_coderabbit_enabled c then [''coderabbit''] else [])
       @ (if go_snowflake_enabled c then [''snowflake''] else []))"

definition activity_is_recent :: "int \<Rightarrow> int option \<Rightarrow> int \<Rightarrow> bool" where
  "activity_is_recent now moment days = (if days \<le> 0 then True
     else (case moment of None \<Rightarrow> True | Some t \<Rightarrow> now - t \<le> days * 86400))"

definition run_matches_head :: "json \<Rightarrow> string \<Rightarrow> bool \<Rightarrow> bool" where
  "run_matches_head info head_sha re_review = (case info of
     JObj d \<Rightarrow> (let stale = truthy (jget d ''stale''); recorded = str_or d ''head_sha'' [];
       moved = stale \<or> (recorded \<noteq> [] \<and> head_sha \<noteq> [] \<and> recorded \<noteq> head_sha)
       in \<not> (moved \<and> re_review))
   | _ \<Rightarrow> False)"

definition reviewed_this_head :: "review_row \<Rightarrow> string \<Rightarrow> bool" where
  "reviewed_this_head pr source = (case jget (pr_agent_runs pr) source of
     JObj d \<Rightarrow> jget d ''status'' = JStr ''ok'' \<and> run_matches_head (JObj d) (pr_head_sha pr) True
   | _ \<Rightarrow> False)"

definition satisfied_sources :: "jdict \<Rightarrow> string \<Rightarrow> bool \<Rightarrow> string list" where
  "satisfied_sources runs head_sha re_review = map fst (filter (\<lambda>(name, info). run_matches_head info head_sha re_review) runs)"

text \<open>\<open>drafts\<close>: the \<open>backend_used\<close> of each review draft of the PR.\<close>

definition missing_review_sources ::
    "(reviewer \<Rightarrow> bool) \<Rightarrow> int \<Rightarrow> string list \<Rightarrow> gate_operator option \<Rightarrow> int \<Rightarrow> review_row \<Rightarrow> string list" where
  "missing_review_sources usage_paused now drafts oc review_activity_days pr =
     (let runs = pr_agent_runs pr in
      if runs = [] \<and> list_ex (\<lambda>backend. backend \<noteq> ''auto-conflict'') drafts then []
      else (let re_review = activity_is_recent now (pr_github_updated_at pr) review_activity_days;
          satisfied = satisfied_sources runs (pr_head_sha pr) re_review
        in filter (\<lambda>s. s \<notin> set satisfied) (expected_review_sources usage_paused oc)))"

text \<open>
  \<open>record_agent_run\<close> and \<open>_mark_reviews_stale\<close> read the stored runs again before they change
  them: \<open>stored\<close> is the column as it is then, and the result is what both write.
\<close>

definition record_agent_run :: "string \<Rightarrow> jdict \<Rightarrow> review_row \<Rightarrow> string \<Rightarrow> string \<Rightarrow> int \<Rightarrow> jdict" where
  "record_agent_run at_iso stored pr source status findings =
     AList.update source (JObj [(''at'', JStr at_iso), (''status'', JStr status), (''findings'', JInt findings),
       (''head_sha'', JStr (pr_head_sha pr))]) stored"

definition stale_info :: "json \<Rightarrow> json" where
  "stale_info info = (case info of
     JObj d \<Rightarrow> if truthy (jget d ''stale'') then JObj d else JObj (AList.update ''stale'' (JBool True) d)
   | _ \<Rightarrow> info)"

definition mark_reviews_stale :: "jdict option \<Rightarrow> review_row \<Rightarrow> jdict" where
  "mark_reviews_stale stored pr = (let
     runs = (case stored of None \<Rightarrow> pr_agent_runs pr | Some s \<Rightarrow> if s = [] then pr_agent_runs pr else s)
   in map (\<lambda>(source, info). (source, stale_info info)) runs)"

text \<open>What a refresh does to the row when the forge reports a head (\<open>_refresh_pull_request\<close>).\<close>

definition see_head :: "int \<Rightarrow> gate_project \<Rightarrow> jdict option \<Rightarrow> string \<Rightarrow> review_row \<Rightarrow> review_row" where
  "see_head now pc stored head_sha pr = (let
     pushed = head_sha \<noteq> [] \<and> pr_head_sha pr \<noteq> [] \<and> head_sha \<noteq> pr_head_sha pr
       \<and> activity_is_recent now (pr_github_updated_at pr) (gp_review_activity_days pc);
     pr1 = (if pushed then pr\<lparr>pr_agent_runs := mark_reviews_stale stored pr\<rparr> else pr);
     head_is_new = (head_sha \<noteq> [] \<and> pr_head_sha pr1 \<noteq> head_sha);
     pr2 = (if head_is_new then pr1\<lparr>pr_head_sha := head_sha, pr_ci_status := []\<rparr> else pr1)
   in if head_sha \<noteq> [] \<and> (rv_head_seen_at pr2 = None \<or> head_is_new)
      then pr2\<lparr>rv_head_seen_at := Some now\<rparr> else pr2)"

section \<open>The quiet window and the policy\<close>

definition quiet_minutes :: "gate_project \<Rightarrow> string list \<Rightarrow> review_row \<Rightarrow> int" where
  "quiet_minutes pc drafts pr = (if pr_agent_runs pr \<noteq> [] \<or> drafts \<noteq> []
     then gp_rereview_quiet_minutes pc else gp_fresh_pr_quiet_minutes pc)"

definition settling_window_remaining :: "int \<Rightarrow> gate_project \<Rightarrow> string list \<Rightarrow> review_row \<Rightarrow> string" where
  "settling_window_remaining now pc drafts pr = (case rv_head_seen_at pr of None \<Rightarrow> []
   | Some seen \<Rightarrow> (let
       reviewed_before = (pr_agent_runs pr \<noteq> [] \<or> drafts \<noteq> []);
       minutes = quiet_minutes pc drafts pr; age = now - seen in
     if minutes \<le> 0 then []
     else if minutes * 60 \<le> age then []
     else (let remaining_min = max 1 ((minutes * 60 - age) div 60);
         which = (if reviewed_before then ''re-review'' else ''first review'') in
       ''Its head is only '' @ int_str (age div 60) @ '' minute(s) old; the '' @ which @ '' waits out the ''
       @ int_str minutes @ ''-minute quiet window (about '' @ int_str remaining_min
       @ '' more) so a burst of pushes costs one review, not one per push. ''
       @ ''Set fresh_pr_quiet_minutes / rereview_quiet_minutes to 0 to disable.'')))"

record review_skip =
  sk_reason :: string
  sk_explanation :: string

definition review_skip :: "string \<Rightarrow> string \<Rightarrow> review_skip option" where
  "review_skip reason explanation = Some \<lparr>sk_reason = reason, sk_explanation = explanation\<rparr>"

text \<open>What the gate asks the database and the machine about: the clock, the PR's drafts, whether
  its row is still open, and which reviewers are paused.\<close>

record gate_env =
  ge_now :: int
  ge_drafts :: "string list"
  ge_still_open :: bool
  ge_paused :: "reviewer \<Rightarrow> bool"

definition owed_sources :: "gate_env \<Rightarrow> gate_project \<Rightarrow> gate_operator option \<Rightarrow> review_row \<Rightarrow> string list" where
  "owed_sources env pc oc pr =
     missing_review_sources (ge_paused env) (ge_now env) (ge_drafts env) oc (gp_review_activity_days pc) pr"

definition username_of :: "gate_operator option \<Rightarrow> string" where
  "username_of oc = (case oc of None \<Rightarrow> [] | Some c \<Rightarrow> go_github_username c)"

definition triage_declines :: "gate_project \<Rightarrow> string \<Rightarrow> review_row \<Rightarrow> bool" where
  "triage_declines pc operator_username pr = (case current_triage pr of None \<Rightarrow> False
   | Some t \<Rightarrow> \<not> wants_full_review t \<and> interest_reason pr pc operator_username = [])"

definition triage_line :: "triage option \<Rightarrow> string" where
  "triage_line t = (case t of None \<Rightarrow> [] | Some v \<Rightarrow>
     ''Mergeability triage ('' @ tg_source v @ '') said '' @ tg_verdict v @ '': '' @ tg_summary v)"

definition review_skip_reason ::
    "gate_env \<Rightarrow> review_row \<Rightarrow> gate_project \<Rightarrow> gate_operator option \<Rightarrow> bool \<Rightarrow> review_skip option" where
  "review_skip_reason env pr pc oc force = (let
     missing = owed_sources env pc oc pr;
     settling = settling_window_remaining (ge_now env) pc (ge_drafts env) pr;
     policy = gp_auto_review_policy pc; operator_username = username_of oc in
   if force then None
   else if missing = [] \<and> ge_drafts env \<noteq> [] then review_skip ''already-reviewed''
     ''Every configured reviewer has had a turn; use Force Run Agents to redo it.''
   else if missing = [] \<and> pr_agent_runs pr \<noteq> [] then review_skip ''reviewed-clean''
     ''Every configured reviewer has had a turn and none found anything.''
   else if settling \<noteq> [] then review_skip ''settling'' settling
   else if rv_queue pr = ''wip'' then review_skip ''wip''
     (''It is routed to the wip queue (draft, or a WIP title). ''
       @ ''Reviews wait until it comes out of draft.'')
   else if policy = ''none'' then review_skip ''policy-none''
     (''auto_review_policy is 'none' for '' @ gp_full_name pc @ '' '' @ em_dash @ '' ''
       @ ''it is ingested and scored but never auto-reviewed. ''
       @ ''Set auto_review_policy: all (or mentioned_or_authored) to change that.'')
   else if policy = ''triage'' \<and> triage_declines pc operator_username pr then
     review_skip ''triage-not-mergeable'' (triage_line (current_triage pr))
   else if policy = ''mentioned_or_authored'' \<and> \<not> should_auto_review pr operator_username then
     review_skip ''not-involved''
       (''auto_review_policy is 'mentioned_or_authored' and ''
         @ (if operator_username = [] then ''(you)'' else operator_username)
         @ '' is not the author, a requested reviewer, an assignee, or @-mentioned. ''
         @ ''Set auto_review_policy: all to review every PR.'')
   else if pr_pk pr \<noteq> 0 \<and> \<not> ge_still_open env then review_skip ''closed'' ''It was closed or merged upstream.''
   else None)"

section \<open>The gates of \<open>process_pr\<close>\<close>

text \<open>
  What the gates of \<open>process_pr\<close> read: the diff (empty when the fetch failed), the prompts and
  backends of the two cheap calls, and the blame of the changed files.
\<close>

record 'w review_host =
  rh_diff :: string
  rh_triage_prompt :: string
  rh_triage_backends :: "'w screen_backend list"
  rh_screen_prompt :: string
  rh_screen_backends :: "'w screen_backend list"
  rh_has_checkout :: bool
  rh_blame :: "jdict list option"

type_synonym tally = "string \<Rightarrow> int"

definition bump :: "string \<Rightarrow> int \<Rightarrow> tally \<Rightarrow> tally" where
  "bump reason n decisions = decisions(reason := decisions reason + n)"

definition turn_away :: "string \<Rightarrow> tally \<Rightarrow> tally" where
  "turn_away reason decisions = bump reason 1 (bump ''ran'' (-1) decisions)"

text \<open>A verdict for this head and state: the stored one, else the answer of the backends, stored.\<close>

definition obtain_triage :: "'w review_host \<Rightarrow> review_row \<Rightarrow> 'w \<Rightarrow> triage option \<times> review_row \<times> 'w" where
  "obtain_triage h pr w = (case current_triage pr of Some t \<Rightarrow> (Some t, pr, w)
   | None \<Rightarrow> if rh_diff h = [] then (None, pr, w)
     else (case run_triage (rh_triage_prompt h) (rh_triage_backends h) w of
         (None, w1) \<Rightarrow> (None, pr, w1)
       | (Some t, w1) \<Rightarrow> (Some t, record_triage t pr, w1)))"

definition obtain_screen :: "'w review_host \<Rightarrow> review_row \<Rightarrow> 'w \<Rightarrow> worthiness option \<times> review_row \<times> 'w" where
  "obtain_screen h pr w = (case current_worthiness pr of Some v \<Rightarrow> (Some v, pr, w)
   | None \<Rightarrow> if rh_diff h = [] then (None, pr, w)
     else (case run_worthiness_screen (rh_screen_prompt h) (rh_screen_backends h) w of
         (None, w1) \<Rightarrow> (None, pr, w1)
       | (Some v, w1) \<Rightarrow> (Some v, record_worthiness v pr, w1)))"

type_synonym 'w gated = "bool \<times> tally \<times> review_row \<times> 'w"

definition triage_gate ::
    "'w review_host \<Rightarrow> gate_project \<Rightarrow> gate_operator option \<Rightarrow> bool \<Rightarrow> tally \<Rightarrow> review_row \<Rightarrow> 'w \<Rightarrow> 'w gated" where
  "triage_gate h pc oc force decisions pr w = (case oc of None \<Rightarrow> (True, decisions, pr, w)
   | Some c \<Rightarrow> if gp_auto_review_policy pc \<noteq> ''triage'' then (True, decisions, pr, w)
     else (let (t, pr1, w1) = obtain_triage h pr w; why = interest_reason pr1 pc (go_github_username c) in
       if \<not> force \<and> why = [] \<and> (case t of None \<Rightarrow> True | Some v \<Rightarrow> \<not> wants_full_review v) then
         (False, turn_away (if t = None then ''triage-unavailable'' else ''triage-not-mergeable'') decisions, pr1, w1)
       else (True, decisions, pr1, w1)))"

definition deterministic_interest ::
    "'w review_host \<Rightarrow> gate_project \<Rightarrow> gate_operator \<Rightarrow> review_row \<Rightarrow> string" where
  "deterministic_interest h pc c pr = (let
     why = interest_reason pr pc (go_github_username c);
     why1 = (if why = [] then looks_close_to_mergeable pr else why) in
   if why1 = [] then blame_touches_operator pr (go_github_username c) (rh_has_checkout h) (rh_blame h) else why1)"

definition screen_gate ::
    "'w review_host \<Rightarrow> gate_project \<Rightarrow> gate_operator option \<Rightarrow> bool \<Rightarrow> tally \<Rightarrow> review_row \<Rightarrow> 'w \<Rightarrow> 'w gated" where
  "screen_gate h pc oc force decisions pr w = (case oc of None \<Rightarrow> (True, decisions, pr, w)
   | Some c \<Rightarrow> if \<not> gp_minimize_reviews pc \<or> force then (True, decisions, pr, w)
     else if deterministic_interest h pc c pr \<noteq> [] then (True, decisions, pr, w)
     else (case obtain_screen h pr w of
         (None, pr1, w1) \<Rightarrow> (False, turn_away ''screen-unavailable'' decisions, pr1, w1)
       | (Some v, pr1, w1) \<Rightarrow> if \<not> worth_reviewing v
           then (False, turn_away ''screen-no'' decisions, pr1, w1)
           else (True, decisions, pr1, w1)))"

definition process_gates ::
    "'w review_host \<Rightarrow> gate_env \<Rightarrow> gate_project \<Rightarrow> gate_operator option \<Rightarrow> bool \<Rightarrow> tally \<Rightarrow> review_row \<Rightarrow> 'w \<Rightarrow> 'w gated" where
  "process_gates h env pc oc force decisions pr w = (case review_skip_reason env pr pc oc force of
     Some skip \<Rightarrow> (False, bump (sk_reason skip) 1 decisions, pr, w)
   | None \<Rightarrow> if pr_mergeable pr = Some False \<and> \<not> force then (False, bump ''conflicted'' 1 decisions, pr, w)
     else (case triage_gate h pc oc force (bump ''ran'' 1 decisions) pr w of
         (False, d, pr1, w1) \<Rightarrow> (False, d, pr1, w1)
       | (True, d, pr1, w1) \<Rightarrow> screen_gate h pc oc force d pr1 w1))"

section \<open>The turns of the agent CLIs\<close>

text \<open>
  A turn changes the row's runs, the stored runs and the world. \<open>th_run\<close> is one run of a
  reviewer, which ends by recording itself; \<open>th_stored\<close> and \<open>th_save\<close> are the stored column.
\<close>

record 'w turn_host =
  th_paused :: "reviewer \<Rightarrow> 'w \<Rightarrow> bool"
  th_run :: "reviewer \<Rightarrow> review_row \<Rightarrow> 'w \<Rightarrow> string \<times> review_row \<times> 'w"
  th_stored :: "'w \<Rightarrow> jdict"
  th_save :: "jdict \<Rightarrow> 'w \<Rightarrow> 'w"
  th_iso :: "'w \<Rightarrow> string"

definition record_turn :: "'w turn_host \<Rightarrow> string \<Rightarrow> string \<Rightarrow> review_row \<Rightarrow> 'w \<Rightarrow> review_row \<times> 'w" where
  "record_turn h source status pr w = (let runs = record_agent_run (th_iso h w) (th_stored h w) pr source status 0
     in (pr\<lparr>pr_agent_runs := runs\<rparr>, th_save h runs w))"

type_synonym taken = "(string \<times> string) list"

fun try_fallbacks ::
    "'w turn_host \<Rightarrow> reviewer \<Rightarrow> reviewer list \<Rightarrow> review_row \<Rightarrow> taken \<Rightarrow> 'w \<Rightarrow> string \<times> review_row \<times> taken \<times> 'w" where
  "try_fallbacks h rc [] pr turns w = (''paused: its CLI hit a usage limit and no fallback reviewed it'', pr, turns, w)"
| "try_fallbacks h rc (f # fs) pr turns w =
     (if th_paused h f w then try_fallbacks h rc fs pr turns w
      else (let (pr1, turns1, w1) = (if map_of turns (rc_name f) = None \<and> \<not> reviewed_this_head pr (rc_name f)
            then (case th_run h f pr w of (out, pr', w') \<Rightarrow> (pr', AList.update (rc_name f) out turns, w'))
            else (pr, turns, w)) in
        if \<not> reviewed_this_head pr1 (rc_name f) then try_fallbacks h rc fs pr1 turns1 w1
        else (let (pr2, w2) = record_turn h (rc_name rc) (''fallback:'' @ rc_name f) pr1 w1
          in (''paused; '' @ rc_name f @ '' took its turn ('' @ dict_get ''earlier'' turns1 (rc_name f) @ '')'', pr2, turns1, w2))))"

definition take_agent_cli_turn ::
    "'w turn_host \<Rightarrow> reviewer \<Rightarrow> gate_operator option \<Rightarrow> bool \<Rightarrow> review_row \<Rightarrow> taken \<Rightarrow> 'w \<Rightarrow> string \<times> review_row \<times> taken \<times> 'w" where
  "take_agent_cli_turn h rc oc force pr turns w = (case map_of turns (rc_name rc) of
     Some out \<Rightarrow> (''already ran on this PR ('' @ out @ '')'', pr, turns, w)
   | None \<Rightarrow> (let
       fallbacks = (case oc of None \<Rightarrow> [] | Some c \<Rightarrow> reviewer_fallbacks rc c) in
       if force \<or> \<not> th_paused h rc w then
         (case th_run h rc pr w of (out, pr1, w1) \<Rightarrow> (let turns1 = AList.update (rc_name rc) out turns in
            if \<not> th_paused h rc w1 then (out, pr1, turns1, w1)
            else try_fallbacks h rc fallbacks pr1 turns1 w1))
       else try_fallbacks h rc fallbacks pr turns w))"

text \<open>The loop over the active reviewers: without \<open>force\<close> only those that owe a review.\<close>

fun agent_cli_turns ::
    "'w turn_host \<Rightarrow> reviewer list \<Rightarrow> gate_operator option \<Rightarrow> bool \<Rightarrow> string list \<Rightarrow> review_row \<Rightarrow> taken \<Rightarrow> 'w \<Rightarrow> review_row \<times> taken \<times> 'w" where
  "agent_cli_turns h [] oc force owed pr turns w = (pr, turns, w)"
| "agent_cli_turns h (rc # rcs) oc force owed pr turns w =
     (if \<not> force \<and> rc_name rc \<notin> set owed then agent_cli_turns h rcs oc force owed pr turns w
      else (case take_agent_cli_turn h rc oc force pr turns w of
          (out, pr1, turns1, w1) \<Rightarrow> agent_cli_turns h rcs oc force owed pr1 turns1 w1))"

end
