(* ===== verification/GateProperties.thy ===== *)
theory GateProperties
  imports ReviewGates
begin

text \<open>
  The properties of the review gates: verdicts are read from the end of an answer, a screen is
  asked once per head and state, a push reopens the review, the gate is open exactly when a
  review is owed and allowed, every pull request is counted once, and no agent CLI runs twice.
\<close>

section \<open>A verdict per head and state as an interface\<close>

text \<open>
  What a cached verdict has to do with its row: storing it makes it the current one, storing
  changes no key (head, state), and a stored verdict is not current under another key.
\<close>

locale head_screen =
  fixes key :: "'r \<Rightarrow> 'k" and live :: "'r \<Rightarrow> bool" and columns :: "'r \<Rightarrow> 'c"
    and current :: "'r \<Rightarrow> 'v option" and store :: "'v \<Rightarrow> 'r \<Rightarrow> 'r"
  assumes current_store: "live r \<Longrightarrow> current (store v r) = Some v"
    and key_store: "key (store v r) = key r"
    and current_key: "current r = Some v \<Longrightarrow> columns s = columns r \<Longrightarrow> key s \<noteq> key r \<Longrightarrow> current s = None"
begin

definition visit :: "('w \<Rightarrow> 'v option \<times> 'w) \<Rightarrow> 'r \<Rightarrow> 'w \<Rightarrow> 'v option \<times> 'r \<times> 'w" where
  "visit ask r w = (case current r of Some v \<Rightarrow> (Some v, r, w)
   | None \<Rightarrow> (case ask w of (None, w1) \<Rightarrow> (None, r, w1) | (Some v, w1) \<Rightarrow> (Some v, store v r, w1)))"

lemma visit_again: "live r \<Longrightarrow> visit ask r w = (Some v, r1, w1) \<Longrightarrow> visit ask' r1 w' = (Some v, r1, w')"
  by (auto simp: visit_def current_store split: option.splits prod.splits)

lemma moved_key: "live r \<Longrightarrow> columns s = columns (store v r) \<Longrightarrow> key s \<noteq> key r \<Longrightarrow> current s = None"
  using current_key [OF current_store] key_store by metis

end

definition verdict_key :: "review_row \<Rightarrow> string \<times> json list" where
  "verdict_key pr = (pr_head_sha pr, verdict_state pr)"

lemma verdict_state_record [simp]: "verdict_state (record_triage t pr) = verdict_state pr"
    "verdict_state (record_worthiness v pr) = verdict_state pr"
  by (simp_all add: verdict_state_def record_triage_def record_worthiness_def)

interpretation triage_screen: head_screen verdict_key "\<lambda>pr. pr_head_sha pr \<noteq> []"
  "\<lambda>pr. (rv_mergeability_verdict pr, rv_mergeability_sha pr, rv_mergeability_detail pr)" current_triage record_triage
proof
  show "pr_head_sha pr \<noteq> [] \<Longrightarrow> current_triage (record_triage t pr) = Some t" for pr t
    unfolding current_triage_def Let_def verdict_state_record
    by (simp add: record_triage_def jget_def dict_get_def str_field_def)
  show "verdict_key (record_triage t pr) = verdict_key pr" for t pr
    unfolding verdict_key_def verdict_state_record by (simp add: record_triage_def)
qed (auto simp: current_triage_def verdict_key_def Let_def split: if_splits)

interpretation worth_screen: head_screen verdict_key "\<lambda>pr. pr_head_sha pr \<noteq> []"
  "\<lambda>pr. (rv_worthiness_verdict pr, rv_worthiness_sha pr, rv_worthiness_detail pr)" current_worthiness record_worthiness
proof
  show "pr_head_sha pr \<noteq> [] \<Longrightarrow> current_worthiness (record_worthiness v pr) = Some v" for pr v
    unfolding current_worthiness_def Let_def verdict_state_record
    by (simp add: record_worthiness_def jget_def dict_get_def str_field_def)
  show "verdict_key (record_worthiness v pr) = verdict_key pr" for v pr
    unfolding verdict_key_def verdict_state_record by (simp add: record_worthiness_def)
qed (auto simp: current_worthiness_def verdict_key_def Let_def split: if_splits)

lemma obtain_triage_visit:
  "obtain_triage h pr w = triage_screen.visit
     (if rh_diff h = [] then Pair None else run_triage (rh_triage_prompt h) (rh_triage_backends h)) pr w"
  by (auto simp: obtain_triage_def triage_screen.visit_def split: option.splits)

lemma obtain_screen_visit:
  "obtain_screen h pr w = worth_screen.visit
     (if rh_diff h = [] then Pair None else run_worthiness_screen (rh_screen_prompt h) (rh_screen_backends h)) pr w"
  by (auto simp: obtain_screen_def worth_screen.visit_def split: option.splits)

text \<open>
  A pull request is screened once per head and state, not once a cycle: after a triage (or
  a worthiness screen) has given a verdict, asking again on the row it left gives the same
  verdict, changes nothing and calls no backend, whatever the diff and the backends are then.
\<close>

theorem screened_once:
  assumes "pr_head_sha pr \<noteq> []"
  shows "(obtain_triage h pr w = (Some t, pr1, w1) \<longrightarrow> obtain_triage h' pr1 w' = (Some t, pr1, w'))
    \<and> (obtain_screen h pr w = (Some v, pr2, w2) \<longrightarrow> obtain_screen h' pr2 w' = (Some v, pr2, w'))"
  unfolding obtain_triage_visit obtain_screen_visit
  by (intro conjI impI triage_screen.visit_again [OF assms] worth_screen.visit_again [OF assms])

text \<open>
  A stored verdict is about one head and one state: on a row with the same stored triage
  and screen but another head, or red CI, conflicts or reviews that differ, neither counts.
\<close>

theorem verdicts_expire:
  assumes "pr_head_sha pr \<noteq> []" and "pr' = record_worthiness v (record_triage t pr)"
    and "rv_mergeability_sha s = rv_mergeability_sha pr'" and "rv_mergeability_detail s = rv_mergeability_detail pr'"
    and "rv_worthiness_sha s = rv_worthiness_sha pr'" and "rv_worthiness_detail s = rv_worthiness_detail pr'"
    and "pr_head_sha s \<noteq> pr_head_sha pr \<or> verdict_state s \<noteq> verdict_state pr"
  shows "current_triage s = None \<and> current_worthiness s = None"
proof -
  have "rv_mergeability_sha s = pr_head_sha pr" "jget (rv_mergeability_detail s) ''state'' = JList (verdict_state pr)"
    "rv_worthiness_sha s = pr_head_sha pr" "jget (rv_worthiness_detail s) ''state'' = JList (verdict_state pr)"
    unfolding assms(2-6) verdict_state_record
    by (simp_all add: record_worthiness_def record_triage_def jget_def dict_get_def verdict_state_def)
  then show ?thesis using assms(7) unfolding current_triage_def current_worthiness_def Let_def by auto
qed

section \<open>Reading a verdict\<close>

text \<open>
  C9: The verdict comes from the end of the answer: text before it (an echoed prompt, a report
  an attacker wrote, stray braces) never changes the verdict that the rest alone gives.
\<close>

theorem earlier_text_never_wins:
  "(parse_triage answer = Some t \<longrightarrow> parse_triage (earlier @ answer) = Some t)
   \<and> (parse_worthiness answer = Some v \<longrightarrow> parse_worthiness (earlier @ answer) = Some v)"
  unfolding parse_triage_def parse_worthiness_def by (blast intro: answer_of_tail)

text \<open>What a parsed triage says is what the object in the answer says, and within bounds.\<close>

lemma read_triage_bounds:
  "read_triage data = Some t \<Longrightarrow> tg_verdict t \<in> set TRIAGE_VERDICTS \<and> length (tg_summary t) \<le> 1000
     \<and> length (tg_suggestion t) \<le> 2000 \<and> tg_source t = []"
  by (auto simp: read_triage_def Let_def split: if_splits)

lemma ask_backends_answer:
  "ask_backends parse with_source prompt bs w = (Some x, w') \<Longrightarrow>
     \<exists>b raw v. b \<in> set bs \<and> parse raw = Some v \<and> x = with_source (sb_label b) v"
  by (induction bs arbitrary: w) (fastforce split: prod.splits option.splits)+

section \<open>Who owes a review\<close>

lemma nothing_missing:
  assumes "missing_review_sources paused now drafts oc days pr = []"
  shows "pr_agent_runs pr \<noteq> [] \<or> drafts \<noteq> []"
  using assms by (auto simp: missing_review_sources_def expected_review_sources_def satisfied_sources_def Let_def split: if_splits)

lemma settling_iff:
  "settling_window_remaining now pc drafts pr = [] \<longleftrightarrow>
     (case rv_head_seen_at pr of None \<Rightarrow> True
      | Some seen \<Rightarrow> quiet_minutes pc drafts pr \<le> 0 \<or> quiet_minutes pc drafts pr * 60 \<le> now - seen)"
  by (auto simp: settling_window_remaining_def Let_def split: option.splits)

text \<open>
  The gate, exactly: a review runs when it is forced, or when some reviewer owes one, the
  head has been quiet long enough, the PR is not in the wip queue, the policy lets it through
  (not "none"; under "triage" no verdict that declines; under "mentioned_or_authored" the
  operator is involved) and the row is still open.
\<close>

theorem gate_open_exact:
  "review_skip_reason env pr pc oc force = None \<longleftrightarrow> force \<or>
     (owed_sources env pc oc pr \<noteq> []
      \<and> (case rv_head_seen_at pr of None \<Rightarrow> True
         | Some seen \<Rightarrow> quiet_minutes pc (ge_drafts env) pr \<le> 0
             \<or> quiet_minutes pc (ge_drafts env) pr * 60 \<le> ge_now env - seen)
      \<and> rv_queue pr \<noteq> ''wip'' \<and> gp_auto_review_policy pc \<noteq> ''none''
      \<and> (if gp_auto_review_policy pc = ''triage'' then \<not> triage_declines pc (username_of oc) pr
         else if gp_auto_review_policy pc = ''mentioned_or_authored'' then should_auto_review pr (username_of oc)
         else True)
      \<and> (pr_pk pr = 0 \<or> ge_still_open env))"
proof -
  have "owed_sources env pc oc pr = [] \<Longrightarrow> pr_agent_runs pr \<noteq> [] \<or> ge_drafts env \<noteq> []"
    unfolding owed_sources_def by (rule nothing_missing)
  then show ?thesis
    unfolding settling_iff [symmetric] review_skip_reason_def Let_def review_skip_def
    by (cases force; cases "owed_sources env pc oc pr = []"; cases "gp_auto_review_policy pc = ''triage''";
        cases "gp_auto_review_policy pc = ''mentioned_or_authored''") auto
qed

section \<open>Pushes and recorded runs\<close>

lemma in_satisfied: "s \<in> set (satisfied_sources runs head_sha r) \<longleftrightarrow> (\<exists>info. (s, info) \<in> set runs \<and> run_matches_head info head_sha r)"
  by (force simp: satisfied_sources_def)

lemma missing_filter:
  "runs = pr_agent_runs pr \<Longrightarrow> runs \<noteq> [] \<or> \<not> list_ex (\<lambda>backend. backend \<noteq> ''auto-conflict'') drafts \<Longrightarrow>
     missing_review_sources paused now drafts oc days pr = filter (\<lambda>s. s \<notin> set (satisfied_sources runs (pr_head_sha pr)
       (activity_is_recent now (pr_github_updated_at pr) days))) (expected_review_sources paused oc)"
  by (auto simp: missing_review_sources_def Let_def)

lemma stale_not_current: "\<not> run_matches_head (stale_info info) head_sha True"
  by (cases info) (auto simp: stale_info_def run_matches_head_def Let_def jget_def)

lemma fresh_record_matches:
  "pr_head_sha pr \<noteq> [] \<Longrightarrow> (source, info) \<in> set (record_agent_run stamp stored pr source status n) \<Longrightarrow>
     distinct (map fst stored) \<Longrightarrow> run_matches_head info (pr_head_sha pr) re_review"
proof -
  assume a: "(source, info) \<in> set (record_agent_run stamp stored pr source status n)" "distinct (map fst stored)"
  have "distinct (map fst (record_agent_run stamp stored pr source status n))"
    unfolding record_agent_run_def using a(2) by (rule distinct_update)
  then have "map_of (record_agent_run stamp stored pr source status n) source = Some info"
    using a(1) by simp
  then have "info = JObj [(''at'', JStr stamp), (''status'', JStr status), (''findings'', JInt n), (''head_sha'', JStr (pr_head_sha pr))]"
    by (simp add: record_agent_run_def)
  then show "run_matches_head info (pr_head_sha pr) re_review"
    by (simp add: run_matches_head_def jget_def dict_get_def str_or_def jor_def)
qed

text \<open>
  A push reopens the review: when the poller sees a new head on a PR that moved recently,
  every configured reviewer owes a review again, the CI word is forgotten, and the quiet
  window starts over. (A PR with drafts and no recorded run at all stays exempt.)
\<close>

theorem push_reopens:
  assumes "head_sha \<noteq> []" and "pr_head_sha pr \<noteq> []" and "head_sha \<noteq> pr_head_sha pr"
    and "activity_is_recent now (pr_github_updated_at pr) (gp_review_activity_days pc)"
    and "mark_reviews_stale stored pr \<noteq> [] \<or> \<not> list_ex (\<lambda>backend. backend \<noteq> ''auto-conflict'') drafts"
    and "pr' = see_head now pc stored head_sha pr"
  shows "missing_review_sources paused now drafts oc (gp_review_activity_days pc) pr' = expected_review_sources paused oc
    \<and> pr_ci_status pr' = [] \<and> rv_head_seen_at pr' = Some now
    \<and> (0 < quiet_minutes pc drafts pr' \<longrightarrow> settling_window_remaining now pc drafts pr' \<noteq> [])"
proof -
  have pr': "pr_agent_runs pr' = mark_reviews_stale stored pr" "pr_head_sha pr' = head_sha" "pr_ci_status pr' = []"
    "rv_head_seen_at pr' = Some now" "pr_github_updated_at pr' = pr_github_updated_at pr"
    using assms(1-4) by (simp_all add: assms(6) see_head_def Let_def)
  have "\<not> run_matches_head info head_sha True" if "(s, info) \<in> set (pr_agent_runs pr')" for s info
    using that stale_not_current unfolding pr'(1) mark_reviews_stale_def Let_def by auto
  then have "set (satisfied_sources (pr_agent_runs pr') head_sha True) = {}" unfolding set_eq_iff in_satisfied by blast
  then have "missing_review_sources paused now drafts oc (gp_review_activity_days pc) pr' = expected_review_sources paused oc"
    using missing_filter [OF refl, of pr' drafts paused now oc] assms(4,5) pr'(1,2,5) by simp
  moreover have "settling_window_remaining now pc drafts pr' \<noteq> []" if "0 < quiet_minutes pc drafts pr'"
    using that unfolding settling_iff pr'(4) by simp
  ultimately show ?thesis using pr'(3,4) by blast
qed

text \<open>
  A recorded turn settles the debt: after a reviewer is recorded on the current head it
  owes nothing, whatever its status was and however recent the PR is.
\<close>

theorem recorded_run_settles:
  assumes "pr_head_sha pr \<noteq> []" and "distinct (map fst stored)"
  shows "source \<notin> set (missing_review_sources paused now drafts oc days
     (pr\<lparr>pr_agent_runs := record_agent_run stamp stored pr source status n\<rparr>))"
proof -
  let ?runs = "record_agent_run stamp stored pr source status n"
  have "source \<in> fst ` set ?runs" by (simp add: record_agent_run_def)
  then obtain info where i: "(source, info) \<in> set ?runs" by auto
  then have m: "run_matches_head info (pr_head_sha pr) r" for r
    using fresh_record_matches [OF assms(1) _ assms(2)] by blast
  then have "source \<in> set (satisfied_sources ?runs (pr_head_sha pr) r)" for r using i in_satisfied by blast
  moreover have "?runs \<noteq> []" using i by auto
  ultimately show ?thesis by (subst missing_filter [OF refl]) simp_all
qed



section \<open>The composition\<close>

lemma skip_reason_not_ran: "review_skip_reason env pr pc oc force = Some skip \<Longrightarrow> sk_reason skip \<noteq> ''ran''"
  by (auto simp: review_skip_reason_def review_skip_def Let_def split: if_splits)

lemma triage_gate_cases:
  assumes "triage_gate h pc oc force d pr w = (go, d', pr1, w1)"
  shows "(go \<and> d' = d) \<or> (\<not> go \<and> (\<exists>r. r \<noteq> ''ran'' \<and> d' = turn_away r d))"
proof (cases "oc = None \<or> gp_auto_review_policy pc \<noteq> ''triage''")
  case True
  then show ?thesis using assms by (auto simp: triage_gate_def split: option.splits)
next
  case False
  then obtain c where c: "oc = Some c" by (cases oc) auto
  obtain t pr2 w2 where o: "obtain_triage h pr w = (t, pr2, w2)" by (metis prod_cases3)
  let ?r = "if t = None then ''triage-unavailable'' else ''triage-not-mergeable''"
  define no where "no \<longleftrightarrow> \<not> force \<and> interest_reason pr2 pc (go_github_username c) = []
      \<and> (case t of None \<Rightarrow> True | Some v \<Rightarrow> \<not> wants_full_review v)"
  have "triage_gate h pc oc force d pr w = (if no then (False, turn_away ?r d, pr2, w2) else (True, d, pr2, w2))"
    using False unfolding triage_gate_def c o Let_def no_def by simp
  then have "(go, d') = (if no then (False, turn_away ?r d) else (True, d))" using assms by (cases no) simp_all
  moreover have "?r \<noteq> ''ran''" by simp
  ultimately show ?thesis by (cases no) (simp_all only: if_True if_False prod.inject, blast+)
qed

lemma screen_gate_cases:
  assumes "screen_gate h pc oc force d pr w = (go, d', pr1, w1)"
  shows "(go \<and> d' = d) \<or> (\<not> go \<and> (\<exists>r. r \<noteq> ''ran'' \<and> d' = turn_away r d))"
proof (cases oc)
  case None
  then show ?thesis using assms by (simp add: screen_gate_def)
next
  case (Some c)
  obtain v pr2 w2 where o: "obtain_screen h pr w = (v, pr2, w2)" by (metis prod_cases3)
  have r: "''screen-unavailable'' \<noteq> ''ran''" "''screen-no'' \<noteq> ''ran''" by simp_all
  show ?thesis
  proof (cases "\<not> gp_minimize_reviews pc \<or> force \<or> deterministic_interest h pc c pr \<noteq> []")
    case True
    then have "screen_gate h pc oc force d pr w = (True, d, pr, w)" by (auto simp: screen_gate_def Some)
    then show ?thesis using assms by simp
  next
    case False
    then have g: "screen_gate h pc oc force d pr w = (case v of None \<Rightarrow> (False, turn_away ''screen-unavailable'' d, pr2, w2)
        | Some x \<Rightarrow> if \<not> worth_reviewing x then (False, turn_away ''screen-no'' d, pr2, w2) else (True, d, pr2, w2))"
      by (simp add: screen_gate_def Some o split: option.split)
    show ?thesis
    proof (cases v)
      case None
      then have "\<not> go \<and> d' = turn_away ''screen-unavailable'' d" using assms unfolding g by simp
      then show ?thesis using r(1) by metis
    next
      case (Some x)
      then have "(\<not> go \<and> d' = turn_away ''screen-no'' d) \<or> (go \<and> d' = d)"
        using assms unfolding g by (cases "worth_reviewing x") simp_all
      then show ?thesis using r(2) by metis
    qed
  qed
qed

lemma turn_away_back: "turn_away r (bump ''ran'' 1 d) = bump r 1 d"
  by (simp add: turn_away_def bump_def)

text \<open>
  Every pull request is counted exactly once in the cycle's tally: one reason goes up by
  one, and it is "ran" exactly when the full review goes on.
\<close>

theorem one_decision:
  "case process_gates h env pc oc force decisions pr w of (go, decisions', pr1, w1) \<Rightarrow>
     \<exists>reason. decisions' = bump reason 1 decisions \<and> (go \<longleftrightarrow> reason = ''ran'')"
proof -
  obtain go d pr1 w1 where p: "process_gates h env pc oc force decisions pr w = (go, d, pr1, w1)" by (metis prod_cases4)
  have "\<exists>reason. d = bump reason 1 decisions \<and> (go \<longleftrightarrow> reason = ''ran'')"
  proof (cases "review_skip_reason env pr pc oc force")
    case (Some skip)
    then show ?thesis using p skip_reason_not_ran [OF Some] by (auto simp: process_gates_def)
  next
    case None
    show ?thesis
    proof (cases "pr_mergeable pr = Some False \<and> \<not> force")
      case True
      then show ?thesis using p None by (auto simp: process_gates_def)
    next
      case False
      obtain g d2 pr2 w2 where t: "triage_gate h pc oc force (bump ''ran'' 1 decisions) pr w = (g, d2, pr2, w2)"
        by (metis prod_cases4)
      show ?thesis
      proof (cases g)
        case True
        then have "screen_gate h pc oc force (bump ''ran'' 1 decisions) pr2 w2 = (go, d, pr1, w1)"
          using p None False t triage_gate_cases [OF t] by (auto simp: process_gates_def)
        from screen_gate_cases [OF this] show ?thesis unfolding turn_away_back by blast
      next
        case g: False
        then show ?thesis using p None False t triage_gate_cases [OF t] unfolding turn_away_back by (auto simp: process_gates_def)
      qed
    qed
  qed
  then show ?thesis unfolding p by simp
qed

lemma obtain_triage_current:
  "pr_head_sha pr \<noteq> [] \<Longrightarrow> obtain_triage h pr w = (t, pr1, w1) \<Longrightarrow>
     (t \<noteq> None \<longrightarrow> current_triage pr1 = t) \<and> (pr1 = pr \<or> (\<exists>v. pr1 = record_triage v pr))"
  by (auto simp: obtain_triage_def triage_screen.current_store split: option.splits if_splits prod.splits)

lemma obtain_screen_current:
  "pr_head_sha pr \<noteq> [] \<Longrightarrow> obtain_screen h pr w = (v, pr1, w1) \<Longrightarrow>
     (v \<noteq> None \<longrightarrow> current_worthiness pr1 = v) \<and> (pr1 = pr \<or> (\<exists>v. pr1 = record_worthiness v pr))"
  by (auto simp: obtain_screen_def worth_screen.current_store split: option.splits if_splits prod.splits)

lemma record_columns [simp]:
  "pr_head_sha (record_triage t pr) = pr_head_sha pr" "pr_head_sha (record_worthiness v pr) = pr_head_sha pr"
  "rv_mergeability_sha (record_worthiness v pr) = rv_mergeability_sha pr"
  "rv_mergeability_detail (record_worthiness v pr) = rv_mergeability_detail pr"
  "rv_mergeability_verdict (record_worthiness v pr) = rv_mergeability_verdict pr"
  by (simp_all add: record_triage_def record_worthiness_def)

lemma interest_record [simp]:
  "interest_reason (record_triage t pr) pc u = interest_reason pr pc u"
  "interest_reason (record_worthiness v pr) pc u = interest_reason pr pc u"
  unfolding interest_reason_def should_auto_review_def by (simp_all add: record_triage_def record_worthiness_def)

lemma current_triage_record [simp]: "current_triage (record_worthiness v pr) = current_triage pr"
  unfolding current_triage_def Let_def verdict_state_record record_columns ..

lemma blame_record [simp]:
  "blame_touches_operator (record_worthiness v pr) u c b = blame_touches_operator pr u c b"
  unfolding blame_touches_operator_def by (simp add: record_worthiness_def)

lemma deterministic_interest_record [simp]:
  "deterministic_interest h pc c (record_worthiness v pr) = deterministic_interest h pc c pr"
  unfolding deterministic_interest_def looks_close_to_mergeable_def Let_def interest_record current_triage_record blame_record
  by (simp add: record_worthiness_def)

lemma triage_gate_go:
  assumes "triage_gate h pc (Some c) False d pr w = (True, d', pr1, w1)" and "pr_head_sha pr \<noteq> []"
  shows "pr_head_sha pr1 = pr_head_sha pr \<and> (gp_auto_review_policy pc = ''triage'' \<longrightarrow>
    interest_reason pr1 pc (go_github_username c) \<noteq> [] \<or> (\<exists>t. current_triage pr1 = Some t \<and> wants_full_review t))"
proof (cases "gp_auto_review_policy pc = ''triage''")
  case False
  then show ?thesis using assms(1) by (simp add: triage_gate_def)
next
  case True
  obtain t pr2 w2 where o: "obtain_triage h pr w = (t, pr2, w2)" by (metis prod_cases3)
  note cur = obtain_triage_current [OF assms(2) o]
  have "pr1 = pr2 \<and> (interest_reason pr2 pc (go_github_username c) \<noteq> [] \<or> (\<exists>v. t = Some v \<and> wants_full_review v))"
    using assms(1) True unfolding triage_gate_def o Let_def by (cases t) (auto split: if_splits)
  then show ?thesis using cur by auto
qed

lemma screen_gate_go:
  assumes "screen_gate h pc (Some c) False d pr w = (True, d', pr1, w1)" and "pr_head_sha pr \<noteq> []"
  shows "(pr1 = pr \<or> (\<exists>v. pr1 = record_worthiness v pr)) \<and> (gp_minimize_reviews pc \<longrightarrow>
    deterministic_interest h pc c pr1 \<noteq> [] \<or> (\<exists>v. current_worthiness pr1 = Some v \<and> worth_reviewing v))"
proof (cases "\<not> gp_minimize_reviews pc \<or> deterministic_interest h pc c pr \<noteq> []")
  case True
  then have "screen_gate h pc (Some c) False d pr w = (True, d, pr, w)" by (auto simp: screen_gate_def)
  then show ?thesis using assms(1) True by auto
next
  case False
  obtain v pr2 w2 where o: "obtain_screen h pr w = (v, pr2, w2)" by (metis prod_cases3)
  note cur = obtain_screen_current [OF assms(2) o]
  have "pr1 = pr2 \<and> (\<exists>x. v = Some x \<and> worth_reviewing x)"
    using assms(1) False by (cases v) (auto simp: screen_gate_def o split: if_splits)
  then show ?thesis using cur by auto
qed

text \<open>
  C8: A full review is earned: without force it starts only if the gate is open and the PR is
  not conflicted, under "triage" only with a reason of interest or a verdict for this very head
  and state that wants it, and under minimize_reviews only with a deterministic reason or a
  screen for this head and state that says it is worth it.
\<close>

theorem review_is_earned:
  assumes "process_gates h env pc (Some c) False decisions pr w = (True, d, pr1, w1)" and "pr_head_sha pr \<noteq> []"
  shows "review_skip_reason env pr pc (Some c) False = None \<and> pr_mergeable pr \<noteq> Some False
    \<and> (gp_auto_review_policy pc = ''triage'' \<longrightarrow>
        interest_reason pr1 pc (go_github_username c) \<noteq> [] \<or> (\<exists>t. current_triage pr1 = Some t \<and> wants_full_review t))
    \<and> (gp_minimize_reviews pc \<longrightarrow>
        deterministic_interest h pc c pr1 \<noteq> [] \<or> (\<exists>v. current_worthiness pr1 = Some v \<and> worth_reviewing v))"
proof -
  have n: "review_skip_reason env pr pc (Some c) False = None" "pr_mergeable pr \<noteq> Some False"
    using assms(1) by (auto simp: process_gates_def split: option.splits if_splits)
  obtain g d2 pr2 w2 where t: "triage_gate h pc (Some c) False (bump ''ran'' 1 decisions) pr w = (g, d2, pr2, w2)"
    by (metis prod_cases4)
  then have g: g "screen_gate h pc (Some c) False d2 pr2 w2 = (True, d, pr1, w1)"
    using assms(1) n unfolding process_gates_def by (cases g, simp_all)+
  note tg = triage_gate_go [OF t [unfolded eqTrueI [OF g(1)]] assms(2)]
  then have "pr_head_sha pr2 \<noteq> []" using assms(2) by simp
  from screen_gate_go [OF g(2) this] tg n show ?thesis by auto
qed

section \<open>The turns of the agent CLIs\<close>

text \<open>A host that also writes down which reviewer it ran.\<close>

definition traced :: "'w turn_host \<Rightarrow> ('w \<times> string list) turn_host" where
  "traced h = \<lparr>th_paused = (\<lambda>rc s. th_paused h rc (fst s)),
     th_run = (\<lambda>rc pr s. case th_run h rc pr (fst s) of (out, pr', w') \<Rightarrow> (out, pr', (w', snd s @ [rc_name rc]))),
     th_stored = (\<lambda>s. th_stored h (fst s)), th_save = (\<lambda>runs s. (th_save h runs (fst s), snd s)),
     th_iso = (\<lambda>s. th_iso h (fst s))\<rparr>"

definition trace_ok :: "taken \<Rightarrow> 'w \<times> string list \<Rightarrow> bool" where
  "trace_ok turns s \<longleftrightarrow> snd s = map fst turns \<and> distinct (map fst turns)"

lemma update_appends: "map_of turns k = None \<Longrightarrow> map fst (AList.update k v turns) = map fst turns @ [k]"
  by (induction turns) (auto split: if_splits)

lemma traced_run:
  assumes "trace_ok turns s" and "map_of turns (rc_name rc) = None" and "th_run (traced h) rc pr s = (out, pr1, s1)"
  shows "trace_ok (AList.update (rc_name rc) out turns) s1"
proof -
  have "rc_name rc \<notin> set (map fst turns)" using assms(2) by (auto simp: map_of_eq_None_iff)
  moreover have "snd s1 = snd s @ [rc_name rc]" using assms(3) by (auto simp: traced_def split: prod.splits)
  ultimately show ?thesis using assms(1) update_appends [OF assms(2)] by (simp add: trace_ok_def)
qed

lemma traced_record: "record_turn (traced h) source status pr s = (pr1, s1) \<Longrightarrow> snd s1 = snd s"
  by (auto simp: record_turn_def traced_def Let_def)

lemma try_fallbacks_trace:
  "trace_ok turns s \<Longrightarrow> try_fallbacks (traced h) rc fs pr turns s = (out, pr1, turns1, s1) \<Longrightarrow> trace_ok turns1 s1"
proof (induction fs arbitrary: pr turns s)
  case (Cons f fs)
  obtain pr2 turns2 s2 where step: "(if map_of turns (rc_name f) = None \<and> \<not> reviewed_this_head pr (rc_name f)
      then (case th_run (traced h) f pr s of (out, pr', w') \<Rightarrow> (pr', AList.update (rc_name f) out turns, w'))
      else (pr, turns, s)) = (pr2, turns2, s2)" by (metis prod_cases3)
  then have ok: "trace_ok turns2 s2"
    using Cons.prems(1) traced_run [OF Cons.prems(1)] by (auto split: if_splits prod.splits)
  obtain pr3 s3 where r: "record_turn (traced h) (rc_name rc) (''fallback:'' @ rc_name f) pr2 s2 = (pr3, s3)" by (metis surj_pair)
  have ok3: "trace_ok turns2 s3" using ok traced_record [OF r] by (simp add: trace_ok_def)
  show ?case
    using Cons.prems Cons.IH [OF Cons.prems(1)] Cons.IH [OF ok] ok3
    unfolding try_fallbacks.simps step Let_def prod.case r by (auto split: if_splits)
qed simp

lemma take_turn_trace:
  assumes "trace_ok turns s" and "take_agent_cli_turn (traced h) rc oc force pr turns s = (out, pr1, turns1, s1)"
  shows "trace_ok turns1 s1"
proof (cases "map_of turns (rc_name rc)")
  case None
  obtain o2 pr2 s2 where r: "th_run (traced h) rc pr s = (o2, pr2, s2)" by (metis prod_cases3)
  show ?thesis
    using assms(2) traced_run [OF assms(1) None r] try_fallbacks_trace [OF assms(1)]
      try_fallbacks_trace [OF traced_run [OF assms(1) None r]]
    unfolding take_agent_cli_turn_def None r Let_def prod.case option.case by (auto split: if_splits)
qed (use assms in \<open>auto simp: take_agent_cli_turn_def\<close>)

text \<open>
  No agent CLI reviews a PR twice in one pass: whatever is paused, whoever falls back to
  whom and whatever the runs do, every reviewer is run at most once, and exactly the reviewers
  that ran are remembered.
\<close>

theorem agents_run_once:
  assumes "agent_cli_turns (traced h) rcs oc force owed pr [] (w, []) = (pr', turns, (w', trace))"
  shows "distinct trace \<and> trace = map fst turns"
proof -
  have "trace_ok turns1 s1" if "trace_ok turns0 s0" "agent_cli_turns (traced h) rcs oc force owed pr0 turns0 s0 = (pr1, turns1, s1)"
    for pr0 turns0 s0 pr1 turns1 s1
    using that
  proof (induction rcs arbitrary: pr0 turns0 s0)
    case (Cons rc rcs)
    obtain out pr2 turns2 s2 where t: "take_agent_cli_turn (traced h) rc oc force pr0 turns0 s0 = (out, pr2, turns2, s2)"
      by (metis prod_cases4)
    show ?case
      using Cons.prems Cons.IH [OF Cons.prems(1)] Cons.IH [OF take_turn_trace [OF Cons.prems(1) t]]
      unfolding agent_cli_turns.simps t prod.case by (auto split: if_splits)
  qed simp
  from this [OF _ assms] show ?thesis by (simp add: trace_ok_def)
qed

section \<open>A sample run\<close>

definition verdict_text :: "string \<Rightarrow> string" where
  "verdict_text v = [open_brace, quote_char] @ ''verdict'' @ [quote_char] @ '': '' @ [quote_char] @ v @ [quote_char, close_brace]"

definition sample_review :: review_row where
  "sample_review = \<lparr>pr_pk = 4, pr_project = 1, pr_number = 77, pr_title = ''Fix the parser'', pr_author = ''dana'',
     pr_state = ''open'', pr_labels = [], pr_changed_files = [''core/parser.py''], pr_additions = 12, pr_deletions = 3,
     pr_interest_score = 20, pr_is_draft = False, pr_is_new_contributor = False, pr_mergeable = Some True,
     pr_base_sha = ''b0'', pr_head_sha = ''a1'', pr_head_branch = ''fix'', pr_ci_status = ''success'', pr_approval_count = 0,
     pr_merge_queue_eligible = False, pr_merged_at = None, pr_merged_by = [], pr_review_states = [], pr_ci_checks = [],
     pr_ci_checks_sha = [], pr_ci_analysis = [], pr_readiness_score = 0, pr_readiness_verdict = [], pr_readiness_detail = [],
     pr_readiness_dismissed_sha = [], pr_approved_critical = False, pr_approved_critical_detail = [],
     pr_rebase_requested_sha = [], pr_rebase_requested_at = None, pr_rebase_requested_checks = [],
     pr_github_updated_at = Some 900, pr_agent_runs = [(''llm'', JObj [(''status'', JStr ''ok''), (''head_sha'', JStr ''a1'')])],
     rv_body = ''It failed on empty input.'', rv_assignees = [], rv_requested_reviewers = [], rv_queue = ''review'',
     rv_merge_intent = [], rv_head_seen_at = Some 0, rv_mergeability_verdict = [], rv_mergeability_sha = [],
     rv_mergeability_detail = [], rv_worthiness_verdict = [], rv_worthiness_sha = [], rv_worthiness_detail = []\<rparr>"

definition sample_project :: gate_project where
  "sample_project = \<lparr>gp_full_name = ''o/r'', gp_frequent_contributors = [], gp_committers = [], gp_watched_paths = [],
     gp_auto_review_policy = ''triage'', gp_minimize_reviews = True, gp_review_activity_days = 30,
     gp_fresh_pr_quiet_minutes = 30, gp_rereview_quiet_minutes = 60\<rparr>"

definition codex :: reviewer where
  "codex = \<lparr>rc_name = ''codex'', rc_fallback = [''coco''], rc_enabled = None, rc_ssh = False, rc_installed = True\<rparr>"

definition coco :: reviewer where
  "coco = \<lparr>rc_name = ''coco'', rc_fallback = [], rc_enabled = Some True, rc_ssh = False, rc_installed = True\<rparr>"

definition sample_operator :: gate_operator where
  "sample_operator = \<lparr>go_github_username = ''holden'', go_agent_cli_reviewers = [codex, coco],
     go_coderabbit_enabled = False, go_snowflake_enabled = False\<rparr>"

text \<open>One backend that is out of order, one that answers; the world counts the calls.\<close>

definition backends_saying :: "string \<Rightarrow> nat screen_backend list" where
  "backends_saying v = [\<lparr>sb_label = ''llm/big'', sb_call = (\<lambda>p n. (None, Suc n))\<rparr>,
     \<lparr>sb_label = ''llm/small'', sb_call = (\<lambda>p n. (Some (''Sure. '' @ verdict_text v), Suc n))\<rparr>]"

definition sample_host :: "nat review_host" where
  "sample_host = \<lparr>rh_diff = ''+x'', rh_triage_prompt = [], rh_triage_backends = backends_saying ''likely-mergeable'',
     rh_screen_prompt = [], rh_screen_backends = backends_saying ''worth-reviewing'', rh_has_checkout = False, rh_blame = None\<rparr>"

definition sample_env :: gate_env where
  "sample_env = \<lparr>ge_now = 10000, ge_drafts = [], ge_still_open = True, ge_paused = (\<lambda>rc. rc_name rc = ''codex'')\<rparr>"

theorem earlier_text_never_wins_witness:
  "map_option tg_verdict (parse_triage (''The report says '' @ verdict_text ''likely-mergeable'' @ '' My verdict: '' @ verdict_text ''Needs-Work''))
     = Some ''needs-work''"
proof -
  have "parse_triage ('' My verdict: '' @ verdict_text ''Needs-Work'') = Some \<lparr>tg_verdict = ''needs-work'', tg_summary = [],
      tg_suggestion = [], tg_touches_area = False, tg_source = []\<rparr>" by code_simp
  then have "parse_triage ((''The report says '' @ verdict_text ''likely-mergeable'') @ '' My verdict: '' @ verdict_text ''Needs-Work'')
      = Some \<lparr>tg_verdict = ''needs-work'', tg_summary = [], tg_suggestion = [], tg_touches_area = False, tg_source = []\<rparr>"
    using earlier_text_never_wins by blast
  then show ?thesis by simp
qed

theorem screened_once_witness:
  "\<exists>pr1. fst (obtain_triage sample_host sample_review 0) \<noteq> None \<and> obtain_triage sample_host sample_review 0 = (fst (obtain_triage sample_host pr1 5), pr1, 2)
     \<and> snd (snd (obtain_triage sample_host pr1 5)) = 5"
proof -
  obtain t pr1 n where o: "obtain_triage sample_host sample_review 0 = (t, pr1, n)" by (metis prod_cases3)
  have "fst (obtain_triage sample_host sample_review 0) \<noteq> None" "snd (snd (obtain_triage sample_host sample_review 0)) = 2"
    by code_simp+
  then obtain x where x: "t = Some x" "n = 2" unfolding o by auto
  have "pr_head_sha sample_review \<noteq> []" by code_simp
  then have "obtain_triage sample_host pr1 5 = (Some x, pr1, 5)"
    by (rule screened_once [THEN conjunct1, THEN mp, OF _ o [unfolded x(1)]])
  then show ?thesis using o x by (intro exI [of _ pr1]) simp
qed

definition unclear_triage :: triage where
  "unclear_triage = \<lparr>tg_verdict = ''unclear'', tg_summary = [], tg_suggestion = [], tg_touches_area = False, tg_source = []\<rparr>"

definition unclear_screen :: worthiness where
  "unclear_screen = \<lparr>wo_verdict = ''unclear'', wo_reason = [], wo_source = []\<rparr>"

definition screened_review :: review_row where
  "screened_review = record_worthiness unclear_screen (record_triage unclear_triage sample_review)"

theorem verdicts_expire_witness:
  "current_triage (screened_review\<lparr>pr_ci_status := ''failure''\<rparr>) = None \<and> current_triage screened_review = Some unclear_triage"
proof -
  have h: "pr_head_sha sample_review \<noteq> []" by code_simp
  have "verdict_state (screened_review\<lparr>pr_ci_status := ''failure''\<rparr>) \<noteq> verdict_state sample_review" by code_simp
  then have "current_triage (screened_review\<lparr>pr_ci_status := ''failure''\<rparr>) = None"
    using verdicts_expire [OF h screened_review_def, of "screened_review\<lparr>pr_ci_status := ''failure''\<rparr>"] by simp
  moreover have "current_triage screened_review = Some unclear_triage" by code_simp
  ultimately show ?thesis by blast
qed

theorem push_reopens_witness:
  "missing_review_sources (\<lambda>_. False) 1000 [] (Some sample_operator) 30 (see_head 1000 sample_project None ''a2'' sample_review)
     = [''llm'', ''codex'', ''coco'']
   \<and> missing_review_sources (\<lambda>_. False) 1000 [] (Some sample_operator) 30 sample_review = [''codex'', ''coco'']"
proof -
  have "''a2'' \<noteq> []" "pr_head_sha sample_review \<noteq> []" "''a2'' \<noteq> pr_head_sha sample_review"
    "activity_is_recent 1000 (pr_github_updated_at sample_review) (gp_review_activity_days sample_project)"
    "mark_reviews_stale None sample_review \<noteq> [] \<or> \<not> list_ex (\<lambda>backend. backend \<noteq> ''auto-conflict'') []"
    by code_simp+
  note push_reopens [OF this refl, of "\<lambda>_. False" "Some sample_operator"]
  moreover have "gp_review_activity_days sample_project = 30"
    "expected_review_sources (\<lambda>_. False) (Some sample_operator) = [''llm'', ''codex'', ''coco'']"
    "missing_review_sources (\<lambda>_. False) 1000 [] (Some sample_operator) 30 sample_review = [''codex'', ''coco'']"
    by code_simp+
  ultimately show ?thesis by simp
qed

theorem recorded_run_settles_witness:
  "''codex'' \<notin> set (missing_review_sources (\<lambda>_. False) 1000 [] (Some sample_operator) 30
     (sample_review\<lparr>pr_agent_runs := record_agent_run ''now'' (pr_agent_runs sample_review) sample_review ''codex'' ''failed'' 0\<rparr>))"
proof -
  have "pr_head_sha sample_review \<noteq> []" "distinct (map fst (pr_agent_runs sample_review))" by code_simp+
  from recorded_run_settles [OF this] show ?thesis by blast
qed


theorem review_is_earned_witness:
  "fst (process_gates sample_host sample_env sample_project (Some sample_operator) False (\<lambda>_. 0) sample_review 0)
   \<and> review_skip_reason sample_env sample_review sample_project (Some sample_operator) False = None"
proof -
  obtain g d pr1 w1 where p: "process_gates sample_host sample_env sample_project (Some sample_operator) False (\<lambda>_. 0) sample_review 0
      = (g, d, pr1, w1)" by (metis prod_cases4)
  have g: "fst (process_gates sample_host sample_env sample_project (Some sample_operator) False (\<lambda>_. 0) sample_review 0)"
    by code_simp
  then have "g = True" unfolding p by simp
  moreover have "pr_head_sha sample_review \<noteq> []" by code_simp
  ultimately show ?thesis using review_is_earned [of sample_host sample_env] p g by blast
qed

text \<open>Running codex pauses it; coco then reviews the head for it, and is not run again for itself.\<close>

definition sample_turns :: "bool turn_host" where
  "sample_turns = \<lparr>th_paused = (\<lambda>rc w. w \<and> rc_name rc = ''codex''),
     th_run = (\<lambda>rc pr w. (''ok'', pr\<lparr>pr_agent_runs := record_agent_run ''now'' (pr_agent_runs pr) pr (rc_name rc) ''ok'' 0\<rparr>, True)),
     th_stored = (\<lambda>_. []), th_save = (\<lambda>_ w. w), th_iso = (\<lambda>_. ''now'')\<rparr>"

theorem agents_run_once_witness:
  "snd (snd (snd (agent_cli_turns (traced sample_turns) [codex, coco] (Some sample_operator) True [] sample_review [] (False, []))))
     = [''codex'', ''coco'']"
proof -
  obtain pr' turns w' trace where r: "agent_cli_turns (traced sample_turns) [codex, coco] (Some sample_operator) True [] sample_review [] (False, [])
      = (pr', turns, (w', trace))" by (metis prod_cases4)
  have "map fst (fst (snd (agent_cli_turns (traced sample_turns) [codex, coco] (Some sample_operator) True [] sample_review [] (False, []))))
      = [''codex'', ''coco'']" by code_simp
  then have "map fst turns = [''codex'', ''coco'']" unfolding r by simp
  then show ?thesis using agents_run_once [OF r] unfolding r by simp
qed

end
