(* ===== verification/DiffPosition.thy ===== *)
theory DiffPosition
  imports Mentions
begin

text \<open>
  From a file, line and side to a position in a unified diff (\<open>backends/diff_position.py\<close>).
  The regular expressions are prefix tests on single lines; \<open>split_lines\<close> is
  \<open>str.splitlines\<close>.
\<close>

datatype side = RIGHT | LEFT

definition parse_side :: "string \<Rightarrow> exn + side" where
  "parse_side s = (let u = upper s in
     if u = ''RIGHT'' then Inr RIGHT else if u = ''LEFT'' then Inr LEFT
     else Inl (Exn ''ValueError'' (''side must be ''  @ str_repr ''RIGHT'' @ '' or '' @ str_repr ''LEFT'' @ '', got '' @ str_repr u)))"

section \<open>Lines of a diff\<close>

definition after_prefix :: "string \<Rightarrow> string \<Rightarrow> string option" where
  "after_prefix p s = (if prefix p s \<and> length p < length s then Some (drop (length p) s) else None)"

definition file_header_new :: "string \<Rightarrow> string option" where
  "file_header_new raw = after_prefix ''+++ b/'' raw"

definition file_header_null :: "string \<Rightarrow> bool" where
  "file_header_null raw \<longleftrightarrow> raw = ''+++ /dev/null''"

definition file_header_old :: "string \<Rightarrow> string option" where
  "file_header_old raw = after_prefix ''--- a/'' raw"

text \<open>\<open>^@@ -(\d+)(?:,(\d+))? \+(\d+)(?:,(\d+))? @@\<close>: the first and the third number.\<close>

definition take_number :: "string \<Rightarrow> (nat \<times> string) option" where
  "take_number s = (let ds = takeWhile is_digit s in
     if ds = [] then None else Some (digits_value ds, dropWhile is_digit s))"

definition skip_count :: "string \<Rightarrow> string" where
  "skip_count s = (case s of c # r \<Rightarrow> if c = CHR '','' \<and> takeWhile is_digit r \<noteq> [] then dropWhile is_digit r else s | [] \<Rightarrow> s)"

definition hunk_header :: "string \<Rightarrow> (nat \<times> nat) option" where
  "hunk_header raw = (if \<not> prefix ''@@ -'' raw then None
     else (case take_number (drop 4 raw) of
       None \<Rightarrow> None
     | Some (old_start, r1) \<Rightarrow> (let r2 = skip_count r1 in
         if \<not> prefix '' +'' r2 then None
         else (case take_number (drop 2 r2) of
           None \<Rightarrow> None
         | Some (new_start, r3) \<Rightarrow> if prefix '' @@'' (skip_count r3) then Some (old_start, new_start) else None))))"

definition starts :: "char \<Rightarrow> string \<Rightarrow> bool" where
  "starts c s \<longleftrightarrow> s \<noteq> [] \<and> hd s = c"

definition backslash :: char where "backslash = char_of (92 :: nat)"

definition body_start :: "string \<Rightarrow> bool" where
  "body_start raw \<longleftrightarrow> starts CHR ''+'' raw \<or> starts CHR ''-'' raw \<or> starts CHR '' '' raw \<or> starts backslash raw"

section \<open>The walk\<close>

record walk_state =
  in_target :: bool
  position :: nat
  new_line :: int
  old_line :: int

definition file_line :: "string \<Rightarrow> side \<Rightarrow> string \<Rightarrow> walk_state \<Rightarrow> walk_state option" where
  "file_line path side raw st = (case file_header_new raw of
     Some p \<Rightarrow> Some (st\<lparr>in_target := (p = path), position := 0\<rparr>)
   | None \<Rightarrow> if file_header_null raw then Some (st\<lparr>position := 0\<rparr>)
     else (case file_header_old raw of
       Some p \<Rightarrow> Some (st\<lparr>in_target := (side = LEFT \<and> p = path), position := 0\<rparr>)
     | None \<Rightarrow> if prefix ''diff --git '' raw then Some (st\<lparr>in_target := False, position := 0\<rparr>) else None))"

text \<open>A line of a hunk: the answer, or the counters after it.\<close>

definition body_line :: "int \<Rightarrow> side \<Rightarrow> string \<Rightarrow> walk_state \<Rightarrow> nat + walk_state" where
  "body_line line side raw st = (let st1 = st\<lparr>position := position st + 1\<rparr> in
     if starts backslash raw then Inr st1
     else if starts CHR ''+'' raw then
       (if side = RIGHT \<and> new_line st1 = line then Inl (position st1) else Inr (st1\<lparr>new_line := new_line st1 + 1\<rparr>))
     else if starts CHR ''-'' raw then
       (if side = LEFT \<and> old_line st1 = line then Inl (position st1) else Inr (st1\<lparr>old_line := old_line st1 + 1\<rparr>))
     else if side = RIGHT \<and> new_line st1 = line then Inl (position st1)
     else if side = LEFT \<and> old_line st1 = line then Inl (position st1)
     else Inr (st1\<lparr>new_line := new_line st1 + 1, old_line := old_line st1 + 1\<rparr>))"

fun walk :: "string \<Rightarrow> int \<Rightarrow> side \<Rightarrow> walk_state \<Rightarrow> string list \<Rightarrow> nat option" where
  "walk path line side st [] = None"
| "walk path line side st (raw # rest) = (case file_line path side raw st of
     Some st1 \<Rightarrow> walk path line side st1 rest
   | None \<Rightarrow>
       if \<not> in_target st then walk path line side st rest
       else (case hunk_header raw of
         Some (o1, n1) \<Rightarrow> walk path line side (st\<lparr>old_line := int o1, new_line := int n1,
             position := (if 0 < position st then position st + 1 else position st)\<rparr>) rest
       | None \<Rightarrow>
           if position st = 0 \<and> \<not> body_start raw then walk path line side st rest
           else (case body_line line side raw st of
             Inl p \<Rightarrow> Some p
           | Inr st1 \<Rightarrow> walk path line side st1 rest)))"

definition walk_start :: walk_state where
  "walk_start = \<lparr>in_target = False, position = 0, new_line = 0, old_line = 0\<rparr>"

definition translate_line_to_position :: "string \<Rightarrow> string \<Rightarrow> int \<Rightarrow> string \<Rightarrow> exn + nat option" where
  "translate_line_to_position diff_text file_path line side = bind_sum (parse_side side)
     (\<lambda>s. Inr (walk file_path line s walk_start (split_lines diff_text)))"

section \<open>The position, declaratively\<close>
















text \<open>
  A removed line whose text starts with \<open>-- a/\<close> reads as a file header: the lines after it
  are not found, although they are in the hunk.
\<close>

lemma removed_line_read_as_header:
  "map (\<lambda>l. translate_line_to_position (join [newline] [''+++ b/q.sql'', ''@@ -1,2 +1,1 @@'', ''-'' @ ''-- a/b ratio'', '' select'']) ''q.sql'' l ''RIGHT'')
     [1] = [Inr None]"
  "translate_line_to_position (join [newline] [''+++ b/q.sql'', ''@@ -1,2 +1,1 @@'', ''-'' @ ''-- a ratio'', '' select'']) ''q.sql'' 1 ''RIGHT''
     = Inr (Some 2)"
  by code_simp+

end
