(* ===== verification/ReviewPoster.thy ===== *)
theory ReviewPoster
  imports DataModel Mentions DiffPosition "HOL-Library.Product_Lexorder" "HOL-Library.Option_ord"
begin

text \<open>
  Posting the accepted findings of a pull request as one review (\<open>backends/poster.py\<close>), taking
  a comment back, the confidence gate of automatic posting (\<open>review/auto_poster.py\<close>) and the
  operator's anti-patterns (\<open>review/antipattern.py\<close>).

  The forge client, the clock and the random attempt numbers are a \<open>forge\<close>, a record of
  functions on an abstract world: a call returns what the method returned or raised, and the
  world afterwards. The table of drafts is the list of its rows; a Python draft object is the
  row as it was read.
\<close>

section \<open>Rows, comments and the forge\<close>

record post_draft = draft_row +
  pd_file_path :: string
  pd_line_end :: "int option"
  pd_comment_body :: string
  pd_suggestion :: string
  pd_edited_body :: string
  pd_confidence :: rat
  pd_tone_guard_applied :: bool
  pd_forge_comment_id :: json
  pd_posted_at :: "int option"
  pd_created_at :: int
  pd_sources :: "string list"
  pd_rejection_reason :: string

record review_comment =
  rc_path :: string
  rc_body :: string
  rc_correlation_key :: string
  rc_line :: "int option"
  rc_line_end :: "int option"
  rc_side :: string

record review_body =
  rb_event :: string
  rb_body :: string
  rb_comments :: "review_comment list"

record 'w forge =
  get_pull_request :: "string \<Rightarrow> string \<Rightarrow> int \<Rightarrow> 'w \<Rightarrow> (exn + json) \<times> 'w"
  get_pull_request_diff :: "string \<Rightarrow> string \<Rightarrow> int \<Rightarrow> 'w \<Rightarrow> (exn + json) \<times> 'w"
  create_review :: "string \<Rightarrow> string \<Rightarrow> int \<Rightarrow> review_body \<Rightarrow> 'w \<Rightarrow> (exn + jdict) \<times> 'w"
  list_reviews :: "string \<Rightarrow> string \<Rightarrow> int \<Rightarrow> 'w \<Rightarrow> (exn + jdict list) \<times> 'w"
  get_review_comments :: "string \<Rightarrow> string \<Rightarrow> int \<Rightarrow> json \<Rightarrow> 'w \<Rightarrow> (exn + json list) \<times> 'w"
  delete_review_comment :: "string \<Rightarrow> string \<Rightarrow> int \<Rightarrow> json \<Rightarrow> 'w \<Rightarrow> (exn + unit) \<times> 'w"
  time_now :: "'w \<Rightarrow> int"
  uuid_hex :: "'w \<Rightarrow> string \<times> 'w"
  from_iso :: "string \<Rightarrow> int option"

text \<open>
  \<open>ReviewComment(...)\<close>: its \<open>__post_init__\<close> refuses a range that ends before it starts.
\<close>

definition new_comment :: "string \<Rightarrow> string \<Rightarrow> string \<Rightarrow> int option \<Rightarrow> int option \<Rightarrow> string \<Rightarrow> exn + review_comment" where
  "new_comment path body key line line_end side =
     (case (line, line_end) of
        (Some l, Some e) \<Rightarrow> (if e < l
          then Inl (Exn ''ValueError'' (''ReviewComment.line_end ('' @ int_str e @ '') must be >= line ('' @ int_str l @ '')''))
          else Inr \<lparr>rc_path = path, rc_body = body, rc_correlation_key = key, rc_line = line, rc_line_end = line_end, rc_side = side\<rparr>)
      | _ \<Rightarrow> Inr \<lparr>rc_path = path, rc_body = body, rc_correlation_key = key, rc_line = line, rc_line_end = line_end, rc_side = side\<rparr>)"

section \<open>Markers\<close>

definition MANAGED_MARKER :: string where "MANAGED_MARKER = ''<!-- franktheunicorn-managed -->''"
definition DEFAULT_ATTRIBUTION :: string where
  "DEFAULT_ATTRIBUTION = ''Generated with assistance of franktheunicorn''"
definition RECALL_WINDOW_HOURS :: int where "RECALL_WINDOW_HOURS = 24"

abbreviation marker_open :: string where "marker_open \<equiv> ''<!-- franktheunicorn-attempt:''"
abbreviation marker_close :: string where "marker_close \<equiv> '' -->''"

definition attempt_marker :: "string \<Rightarrow> string \<Rightarrow> string" where
  "attempt_marker attempt key = marker_open @ attempt @ '':'' @ key @ marker_close"

definition hex_digit :: "char \<Rightarrow> bool" where
  "hex_digit c \<longleftrightarrow> (let n = (of_char c :: nat) in (48 \<le> n \<and> n \<le> 57) \<or> (97 \<le> n \<and> n \<le> 102))"

definition after_literal :: "string \<Rightarrow> string \<Rightarrow> string option" where
  "after_literal p s = (if prefix p s then Some (drop (length p) s) else None)"

lemma after_literal_Some: "after_literal p s = Some r \<longleftrightarrow> s = p @ r"
  by (auto simp: after_literal_def prefix_def)

text \<open>
  A match of \<open>_ATTEMPT_MARKER_RE\<close> at the start of the text: the two groups and what is left.
  The two repetitions are maximal, since neither can match the character that follows it.
\<close>

definition marker_at :: "string \<Rightarrow> (string \<times> string \<times> string) option" where
  "marker_at s = (case after_literal marker_open s of
      None \<Rightarrow> None
    | Some r \<Rightarrow> (let attempt = takeWhile hex_digit r in
        if attempt = [] then None
        else (case after_literal '':'' (dropWhile hex_digit r) of
            None \<Rightarrow> None
          | Some r2 \<Rightarrow> map_option (\<lambda>rest. (attempt, takeWhile (\<lambda>c. c \<noteq> CHR '' '') r2, rest))
              (after_literal marker_close (dropWhile (\<lambda>c. c \<noteq> CHR '' '') r2)))))"

lemma marker_at_shorter: "marker_at s = Some (a, k, rest) \<Longrightarrow> length rest < length s"
proof -
  assume m: "marker_at s = Some (a, k, rest)"
  then obtain r where r: "after_literal marker_open s = Some r" by (auto simp: marker_at_def split: option.splits)
  obtain r2 where r2: "after_literal '':'' (dropWhile hex_digit r) = Some r2"
    using m r by (auto simp: marker_at_def Let_def split: option.splits if_splits)
  have r3: "after_literal marker_close (dropWhile (\<lambda>c. c \<noteq> CHR '' '') r2) = Some rest"
    using m r r2 by (auto simp: marker_at_def Let_def split: if_splits)
  show ?thesis
    using r r2 r3 length_dropWhile_le [of hex_digit r] length_dropWhile_le [of "\<lambda>c. c \<noteq> CHR '' ''" r2]
    by (simp add: after_literal_Some)
qed

function markers :: "string \<Rightarrow> (string \<times> string) list" where
  "markers s = (case marker_at s of
      Some (a, k, rest) \<Rightarrow> (a, k) # markers rest
    | None \<Rightarrow> (case s of [] \<Rightarrow> [] | _ # s1 \<Rightarrow> markers s1))"
  by pat_completeness auto
termination by (relation "measure length") (auto dest: marker_at_shorter)

declare markers.simps [simp del]

definition STALE_HEAD_MODES :: "string list" where
  "STALE_HEAD_MODES = [''refuse'', ''post'', ''body-only'']"

section \<open>Comment bodies\<close>

abbreviation fence :: string where "fence \<equiv> replicate 3 backtick"

definition format_suggestion_block :: "string \<Rightarrow> string" where
  "format_suggestion_block suggestion =
     [newline] @ fence @ ''suggestion'' @ [newline] @ suggestion @ [newline] @ fence @ [newline]"

definition raw_body :: "post_draft \<Rightarrow> string" where
  "raw_body d = (if pd_edited_body d \<noteq> [] then pd_edited_body d else pd_comment_body d)"

definition footer :: "string \<Rightarrow> string" where
  "footer attribution = [newline, newline] @ ''---'' @ [newline] @ ''<sub>'' @ attribution @ ''</sub>'' @ [newline] @ MANAGED_MARKER"

definition format_comment_body :: "post_draft \<Rightarrow> string \<Rightarrow> string list \<Rightarrow> string" where
  "format_comment_body d attribution allowed =
     escape_handles allowed (raw_body d)
       @ (if pd_suggestion d \<noteq> [] then format_suggestion_block (pd_suggestion d) else [])
       @ footer attribution"

definition some_nonzero :: "int option \<Rightarrow> int option" where
  "some_nonzero n = (if n = Some 0 then None else n)"

definition build_review_comment :: "post_draft \<Rightarrow> string \<Rightarrow> string list \<Rightarrow> exn + review_comment" where
  "build_review_comment d attribution allowed =
     new_comment (pd_file_path d) (format_comment_body d attribution allowed) (nat_str (rd_pk d))
       (some_nonzero (rd_line_number d)) (some_nonzero (pd_line_end d)) ''RIGHT''"

text \<open>
  The side of every comment built here is \<open>RIGHT\<close>, so the \<open>ValueError\<close> of a bad side does not
  occur.
\<close>

definition shown_in_diff :: "string \<Rightarrow> review_comment \<Rightarrow> int \<Rightarrow> bool" where
  "shown_in_diff diff_text c line =
     (case translate_line_to_position diff_text (rc_path c) line (rc_side c) of Inr (Some _) \<Rightarrow> True | _ \<Rightarrow> False)"

definition is_anchored :: "review_comment \<Rightarrow> string \<Rightarrow> bool" where
  "is_anchored c diff_text = (case rc_line c of
      None \<Rightarrow> True
    | Some line \<Rightarrow> shown_in_diff diff_text c line
        \<and> (case rc_line_end c of None \<Rightarrow> True | Some e \<Rightarrow> shown_in_diff diff_text c e))"

definition folded_place :: "review_comment \<Rightarrow> string" where
  "folded_place c = (if rc_path c \<noteq> [] then [backtick] @ rc_path c @ [backtick] else ''this PR'')
     @ (case rc_line c of None \<Rightarrow> []
        | Some l \<Rightarrow> '' line '' @ int_str l
            @ (case rc_line_end c of None \<Rightarrow> [] | Some e \<Rightarrow> if e > l then ''-'' @ int_str e else []))"

definition folded :: "string \<Rightarrow> review_comment \<Rightarrow> review_comment" where
  "folded reason c = c\<lparr>rc_body := ''_(on '' @ folded_place c @ '', '' @ reason @ '')_'' @ [newline, newline] @ rc_body c,
     rc_line := None, rc_line_end := None\<rparr>"

definition stamped :: "string \<Rightarrow> review_comment \<Rightarrow> review_comment" where
  "stamped attempt c = c\<lparr>rc_body := rc_body c @ [newline] @ attempt_marker attempt (rc_correlation_key c)\<rparr>"

abbreviation BODY_ONLY_REASON :: string where
  "BODY_ONLY_REASON \<equiv> ''posted body-only because the PR has new commits''"
abbreviation NOT_SHOWN_REASON :: string where
  "NOT_SHOWN_REASON \<equiv> ''which the current diff does not show''"

definition parse_timestamp :: "'w forge \<Rightarrow> json \<Rightarrow> int option" where
  "parse_timestamp f v = (case v of
      JStr s \<Rightarrow> (if s = [] then None
        else from_iso f (concat (map (\<lambda>c. if c = CHR ''Z'' then ''+00:00'' else [c]) s)))
    | _ \<Rightarrow> None)"

definition same_sha :: "string \<Rightarrow> string \<Rightarrow> bool" where
  "same_sha a b \<longleftrightarrow> a \<noteq> [] \<and> b \<noteq> [] \<and> (prefix b a \<or> prefix a b)"

section \<open>Reading the forge\<close>

definition live_head_sha :: "'w forge \<Rightarrow> project_ref \<Rightarrow> 'a pr_row_scheme \<Rightarrow> 'w \<Rightarrow> string \<times> 'w" where
  "live_head_sha f pj pr w = (case get_pull_request f (pj_owner pj) (pj_repo pj) (pr_number pr) w of
      (Inr (JObj data), w1) \<Rightarrow>
        (case jget data ''head'' of
           JObj head \<Rightarrow> (case jget head ''sha'' of JStr sha \<Rightarrow> (sha, w1) | _ \<Rightarrow> ([], w1))
         | _ \<Rightarrow> ([], w1))
    | (_, w1) \<Rightarrow> ([], w1))"

definition current_diff :: "'w forge \<Rightarrow> project_ref \<Rightarrow> 'a pr_row_scheme \<Rightarrow> 'w \<Rightarrow> string \<times> 'w" where
  "current_diff f pj pr w = (case get_pull_request_diff f (pj_owner pj) (pj_repo pj) (pr_number pr) w of
      (Inr (JStr diff), w1) \<Rightarrow> (diff, w1)
    | (_, w1) \<Rightarrow> ([], w1))"

text \<open>\<open>isinstance(v, int)\<close>, which holds of the booleans too.\<close>

definition is_py_int :: "json \<Rightarrow> bool" where
  "is_py_int v = (case v of JInt _ \<Rightarrow> True | JBool _ \<Rightarrow> True | _ \<Rightarrow> False)"

definition comment_ids :: "string \<Rightarrow> json \<Rightarrow> jdict \<Rightarrow> jdict" where
  "comment_ids attempt comment ids = (case comment of
      JObj d \<Rightarrow> (if is_py_int (jget d ''id'')
        then fold (\<lambda>(found, key) ids. if found = attempt then AList.update key (jget d ''id'') ids else ids)
          (markers (str_or d ''body'' [])) ids
        else ids)
    | _ \<Rightarrow> ids)"

datatype landed = Landed jdict jdict | Absent | Unknown

fun landed_among :: "'w forge \<Rightarrow> project_ref \<Rightarrow> 'a pr_row_scheme \<Rightarrow> int \<Rightarrow> string \<Rightarrow> jdict list \<Rightarrow> 'w \<Rightarrow> landed \<times> 'w" where
  "landed_among f pj pr cutoff attempt [] w = (Absent, w)"
| "landed_among f pj pr cutoff attempt (review # reviews) w =
     (if (case parse_timestamp f (jget review ''submitted_at'') of Some t \<Rightarrow> t < cutoff | None \<Rightarrow> False)
      then landed_among f pj pr cutoff attempt reviews w
      else (let ours_in_body = list_ex (\<lambda>(found, _). found = attempt) (markers (str_or review ''body'' []));
                rid = jget review ''id''
        in if is_py_int rid
           then (case get_review_comments f (pj_owner pj) (pj_repo pj) (pr_number pr) rid w of
               (Inl _, w1) \<Rightarrow> (Unknown, w1)
             | (Inr comments, w1) \<Rightarrow>
                 (let ids = fold (comment_ids attempt) comments [] in
                  if ours_in_body \<or> ids \<noteq> [] then (Landed review ids, w1)
                  else landed_among f pj pr cutoff attempt reviews w1))
           else if ours_in_body then (Landed review [], w)
           else landed_among f pj pr cutoff attempt reviews w))"

definition find_landed_review :: "'w forge \<Rightarrow> project_ref \<Rightarrow> 'a pr_row_scheme \<Rightarrow> int \<Rightarrow> string \<Rightarrow> 'w \<Rightarrow> landed \<times> 'w" where
  "find_landed_review f pj pr since attempt w =
     (case list_reviews f (pj_owner pj) (pj_repo pj) (pr_number pr) w of
        (Inl _, w1) \<Rightarrow> (Unknown, w1)
      | (Inr reviews, w1) \<Rightarrow> landed_among f pj pr (since - 600) attempt (rev reviews) w1)"

section \<open>Posting\<close>

definition postable_drafts :: "nat \<Rightarrow> post_draft list \<Rightarrow> post_draft list" where
  "postable_drafts pk table = sort_key (\<lambda>d. (pd_file_path d, rd_line_number d))
     (filter (\<lambda>d. rd_pull_request d = pk \<and> (rd_status d = ''accepted'' \<or> rd_status d = ''edited'')) table)"

definition chosen_drafts :: "nat \<Rightarrow> post_draft list option \<Rightarrow> post_draft list \<Rightarrow> post_draft list" where
  "chosen_drafts pk given table = (case given of Some ds \<Rightarrow> ds | None \<Rightarrow> postable_drafts pk table)"

definition head_moved :: "'a pr_row_scheme \<Rightarrow> string \<Rightarrow> bool" where
  "head_moved pr live \<longleftrightarrow> live \<noteq> [] \<and> pr_head_sha pr \<noteq> [] \<and> \<not> same_sha live (pr_head_sha pr)"

definition stale_head_error :: "string \<Rightarrow> string \<Rightarrow> exn" where
  "stale_head_error stored live = Exn ''StaleHeadError''
     (''PR head moved '' @ take 8 stored @ '' -> '' @ take 8 live @ '' since the drafts were made'')"

definition post_unverified_error :: "int \<Rightarrow> exn" where
  "post_unverified_error number = Exn ''PostUnverifiedError'' (''posting to PR #'' @ int_str number
     @ '' failed and frank could not read the PR's reviews back to see whether it landed anyway'')"

definition mentions_escaped :: "string list \<Rightarrow> post_draft list \<Rightarrow> string list" where
  "mentions_escaped allowed ds = concat (map (\<lambda>d. map mh_handle (mention_scan allowed (raw_body d))) ds)"

fun build_all :: "string \<Rightarrow> string list \<Rightarrow> post_draft list \<Rightarrow> exn + review_comment list" where
  "build_all attribution allowed [] = Inr []"
| "build_all attribution allowed (d # ds) = bind_sum (build_review_comment d attribution allowed)
     (\<lambda>c. bind_sum (build_all attribution allowed ds) (\<lambda>cs. Inr (c # cs)))"

text \<open>The comments that go out, with the number of those that were folded.\<close>

definition placed :: "string \<Rightarrow> string \<Rightarrow> post_draft list \<Rightarrow> review_comment list \<Rightarrow> review_comment list \<times> nat" where
  "placed mode diff_text ds comments =
     (if mode = ''body-only''
      then (map (folded BODY_ONLY_REASON) comments,
            length (filter (\<lambda>d. some_nonzero (rd_line_number d) \<noteq> None) ds))
      else if diff_text \<noteq> []
      then (map (\<lambda>c. if is_anchored c diff_text then c else folded NOT_SHOWN_REASON c) comments,
            length (filter (\<lambda>c. \<not> is_anchored c diff_text) comments))
      else (comments, 0))"

definition mark_posted :: "int \<Rightarrow> jdict \<Rightarrow> post_draft \<Rightarrow> post_draft" where
  "mark_posted now ids d = (let d1 = d\<lparr>rd_status := ''posted'', pd_posted_at := Some now\<rparr>;
     cid = jget ids (nat_str (rd_pk d))
     in if cid = JNull then d1 else d1\<lparr>pd_forge_comment_id := cid\<rparr>)"

text \<open>\<open>save(update_fields=["status", "posted_at", "forge_comment_id", ...])\<close> of each draft.\<close>

definition saved_row :: "post_draft list \<Rightarrow> post_draft \<Rightarrow> post_draft" where
  "saved_row ds r = (case find (\<lambda>d. rd_pk d = rd_pk r) ds of
      None \<Rightarrow> r
    | Some d \<Rightarrow> r\<lparr>rd_status := rd_status d, pd_posted_at := pd_posted_at d, pd_forge_comment_id := pd_forge_comment_id d\<rparr>)"

definition record_posted :: "int \<Rightarrow> jdict \<Rightarrow> post_draft list \<Rightarrow> post_draft list \<Rightarrow> post_draft list" where
  "record_posted now ids ds table = map (saved_row (map (mark_posted now ids) ds)) table"

definition ids_of_result :: "jdict \<Rightarrow> jdict" where
  "ids_of_result result = (case jget result ''comment_ids_by_key'' of JObj ids \<Rightarrow> ids | _ \<Rightarrow> [])"

text \<open>The end of \<open>post_review\<close>, when the review is known to be on the forge.\<close>

definition finish_post :: "int \<Rightarrow> string list \<Rightarrow> nat \<Rightarrow> jdict \<Rightarrow> post_draft list \<Rightarrow> post_draft list
    \<Rightarrow> (exn + jdict option) \<times> post_draft list" where
  "finish_post now escaped n_folded result ds table =
     (Inr (Some (AList.update ''folded_into_body'' (JInt (int n_folded))
        (AList.update ''mentions_escaped'' (JList (map JStr (sorted_set escaped))) result))),
      record_posted now (ids_of_result result) ds table)"

definition landed_result :: "jdict \<Rightarrow> jdict \<Rightarrow> jdict" where
  "landed_result review ids = [(''id'', jget review ''id''), (''verified_after_error'', JBool True),
     (''comment_ids_by_key'', JObj ids)]"

text \<open>The request itself: sending the review, and settling whether it landed when that failed.\<close>

definition send_review :: "'w forge \<Rightarrow> project_ref \<Rightarrow> 'a pr_row_scheme \<Rightarrow> string \<Rightarrow> string list \<Rightarrow> string
    \<Rightarrow> review_comment list \<times> nat \<Rightarrow> post_draft list \<Rightarrow> post_draft list \<Rightarrow> 'w
    \<Rightarrow> (exn + jdict option) \<times> post_draft list \<times> 'w" where
  "send_review f pj pr attempt escaped event cs_n ds table w =
     (let review = \<lparr>rb_event = event, rb_body = [], rb_comments = map (stamped attempt) (fst cs_n)\<rparr> in
      case create_review f (pj_owner pj) (pj_repo pj) (pr_number pr) review w of
        (Inr result, w1) \<Rightarrow> (let (r, table1) = finish_post (time_now f w1) escaped (snd cs_n) result ds table in (r, table1, w1))
      | (Inl _, w1) \<Rightarrow>
          (case find_landed_review f pj pr (time_now f w) attempt w1 of
             (Absent, w2) \<Rightarrow> (Inr None, table, w2)
           | (Unknown, w2) \<Rightarrow> (Inl (post_unverified_error (pr_number pr)), table, w2)
           | (Landed found ids, w2) \<Rightarrow>
               (let (r, table1) = finish_post (time_now f w2) escaped (snd cs_n) (landed_result found ids) ds table
                in (r, table1, w2))))"

text \<open>
  \<open>post_review\<close>. The drafts are those given, or the postable rows of the pull request.
\<close>

definition post_review :: "'w forge \<Rightarrow> string \<Rightarrow> string list \<Rightarrow> project_ref \<Rightarrow> 'a pr_row_scheme
    \<Rightarrow> post_draft list option \<Rightarrow> string \<Rightarrow> string \<Rightarrow> post_draft list \<Rightarrow> 'w
    \<Rightarrow> (exn + jdict option) \<times> post_draft list \<times> 'w" where
  "post_review f attribution allowlist pj pr given event mode table w =
     (if mode \<notin> set STALE_HEAD_MODES
      then (Inl (Exn ''ValueError'' (''on_stale_head must be one of ('' @ join '', '' (map str_repr STALE_HEAD_MODES) @ ''), got '' @ str_repr mode)), table, w)
      else let ds = chosen_drafts (pr_pk pr) given table in
      if ds = [] then (Inr None, table, w)
      else let (live, w1) = live_head_sha f pj pr w in
      if head_moved pr live \<and> mode = ''refuse'' then (Inl (stale_head_error (pr_head_sha pr) live), table, w1)
      else let allowed = normalize_allowlist allowlist; escaped = mentions_escaped allowed ds in
      case build_all attribution allowed ds of
        Inl e \<Rightarrow> (Inl e, table, w1)
      | Inr comments \<Rightarrow>
          (let (diff_text, w2) = (if mode = ''body-only'' then ([], w1) else current_diff f pj pr w1);
               (attempt, w3) = uuid_hex f w2
           in send_review f pj pr attempt escaped event (placed mode diff_text ds comments) ds table w3))"

section \<open>Taking a comment back\<close>

definition within_window :: "int \<Rightarrow> int \<Rightarrow> bool" where
  "within_window now posted \<longleftrightarrow> now - posted \<le> RECALL_WINDOW_HOURS * 3600"

definition recall_comment :: "'w forge \<Rightarrow> project_ref \<Rightarrow> 'a pr_row_scheme \<Rightarrow> post_draft \<Rightarrow> post_draft list \<Rightarrow> 'w
    \<Rightarrow> bool \<times> post_draft list \<times> 'w" where
  "recall_comment f pj pr d table w =
     (if \<not> truthy (pd_forge_comment_id d) then (False, table, w)
      else case pd_posted_at d of
        None \<Rightarrow> (False, table, w)
      | Some posted \<Rightarrow>
          (if \<not> within_window (time_now f w) posted then (False, table, w)
           else case delete_review_comment f (pj_owner pj) (pj_repo pj) (pr_number pr) (pd_forge_comment_id d) w of
               (Inl _, w1) \<Rightarrow> (False, table, w1)
             | (Inr _, w1) \<Rightarrow>
                 (True, map (\<lambda>r. if rd_pk r = rd_pk d then r\<lparr>rd_status := ''recalled''\<rparr> else r) table, w1)))"

section \<open>Anti-patterns\<close>

record anti_pattern =
  ap_pk :: nat
  ap_pattern_text :: string
  ap_description :: string
  ap_weight :: rat
  ap_times_triggered :: int
  ap_is_active :: bool
  ap_project :: "nat option"
  ap_last_matched_at :: "int option"

definition check_against_anti_patterns :: "anti_pattern list \<Rightarrow> string \<Rightarrow> nat option \<Rightarrow> anti_pattern list" where
  "check_against_anti_patterns table comment_body project =
     filter (\<lambda>ap. sublist (lower (ap_pattern_text ap)) (lower comment_body))
       (sort_key (\<lambda>ap. (- ap_weight ap, - ap_times_triggered ap))
         (filter (\<lambda>ap. ap_is_active ap \<and> (project = None \<or> ap_project ap = project \<or> ap_project ap = None)) table))"

definition record_anti_pattern_matches :: "int \<Rightarrow> anti_pattern list \<Rightarrow> anti_pattern list \<Rightarrow> anti_pattern list" where
  "record_anti_pattern_matches now matches table = map (\<lambda>r. case find (\<lambda>m. ap_pk m = ap_pk r) matches of
      None \<Rightarrow> r
    | Some m \<Rightarrow> r\<lparr>ap_times_triggered := ap_times_triggered m + 1, ap_last_matched_at := Some now\<rparr>) table"

text \<open>
  \<open>record_anti_pattern\<close>. Nothing makes the pair of text and project unique, so \<open>get_or_create\<close>
  raises when it finds several rows. The new row has the next key.
\<close>

definition record_anti_pattern :: "nat \<Rightarrow> string \<Rightarrow> string \<Rightarrow> nat option \<Rightarrow> anti_pattern list
    \<Rightarrow> (exn + anti_pattern) \<times> anti_pattern list" where
  "record_anti_pattern next_pk pattern_text description project table =
     (case filter (\<lambda>ap. ap_pattern_text ap = pattern_text \<and> ap_project ap = project) table of
        [] \<Rightarrow> (let ap = \<lparr>ap_pk = next_pk, ap_pattern_text = pattern_text, ap_description = description, ap_weight = 1,
                 ap_times_triggered = 0, ap_is_active = True, ap_project = project, ap_last_matched_at = None\<rparr>
               in (Inr ap, table @ [ap]))
      | [ap] \<Rightarrow> (let ap1 = ap\<lparr>ap_times_triggered := ap_times_triggered ap + 1\<rparr>
                in (Inr ap1, map (\<lambda>r. if ap_pk r = ap_pk ap then r\<lparr>ap_times_triggered := ap_times_triggered ap1\<rparr> else r) table))
      | _ \<Rightarrow> (Inl (Exn ''MultipleObjectsReturned'' ''get() returned more than one AntiPattern''), table))"

section \<open>Automatic posting\<close>

record posting_config =
  pc_mode :: string
  pc_confidence_threshold :: rat
  pc_bot_token_env :: string

definition posting_mode_must_be_valid :: "string \<Rightarrow> exn + string" where
  "posting_mode_must_be_valid v = (let m = lower (strip v) in
     if m = ''draft-only'' \<or> m = ''confidence-gated'' then Inr m
     else Inl (Exn ''ValueError'' (''posting mode must be '' @ str_repr ''draft-only'' @ '' or '' @ str_repr ''confidence-gated'')))"

definition threshold_in_range :: "rat \<Rightarrow> exn + rat" where
  "threshold_in_range v = (if 0 \<le> v \<and> v \<le> 1 then Inr v
     else Inl (Exn ''ValueError'' ''confidence_threshold must be between 0.0 and 1.0''))"

definition should_auto_post :: "posting_config \<Rightarrow> anti_pattern list \<Rightarrow> nat \<Rightarrow> post_draft \<Rightarrow> bool" where
  "should_auto_post cfg patterns project d =
     (if pc_mode cfg \<noteq> ''confidence-gated'' then False
      else if pd_confidence d < pc_confidence_threshold cfg then False
      else if check_against_anti_patterns patterns (pd_comment_body d) (Some project) \<noteq> [] then False
      else pd_tone_guard_applied d)"

abbreviation AUTO_ATTRIBUTION :: string where
  "AUTO_ATTRIBUTION \<equiv> ''Auto-posted by franktheunicorn (confidence-gated)''"

definition pending_drafts :: "nat \<Rightarrow> post_draft list \<Rightarrow> post_draft list" where
  "pending_drafts pk table = sort_key (\<lambda>d. - pd_created_at d)
     (filter (\<lambda>d. rd_pull_request d = pk \<and> rd_status d = ''pending'') table)"

text \<open>
  \<open>auto_post_findings\<close>. The environment is a function from names to values; \<open>client_for\<close> gives the
  client made with a token. The result is the list of drafts, as they were read.
\<close>

definition auto_post_findings :: "(string \<Rightarrow> string) \<Rightarrow> (string \<Rightarrow> 'w forge) \<Rightarrow> posting_config \<Rightarrow> anti_pattern list
    \<Rightarrow> project_ref \<Rightarrow> 'a pr_row_scheme \<Rightarrow> post_draft list \<Rightarrow> 'w \<Rightarrow> post_draft list \<times> post_draft list \<times> 'w" where
  "auto_post_findings environ client_for cfg patterns pj pr table w =
     (if pc_mode cfg \<noteq> ''confidence-gated'' then ([], table, w)
      else let eligible = filter (should_auto_post cfg patterns (pj_pk pj)) (pending_drafts (pr_pk pr) table) in
      if eligible = [] then ([], table, w)
      else let bot_token = environ (pc_bot_token_env cfg) in
      if bot_token = [] then ([], table, w)
      else case post_review (client_for bot_token) AUTO_ATTRIBUTION [] pj pr (Some eligible) ''COMMENT'' ''refuse'' table w of
          (Inl _, table1, w1) \<Rightarrow> ([], table1, w1)
        | (Inr _, table1, w1) \<Rightarrow> (eligible, table1, w1))"

end
