(* ===== verification/HonestForge.thy ===== *)
theory HonestForge
  imports ReviewPoster
begin

text \<open>
  What posting relies on: the marker of an attempt is found again, what an honest forge
  promises, the read-back after a failed request, and how a call of \<open>post_review\<close> is settled.
  A simulated forge, whose requests fail by a script, keeps these promises.
\<close>

section \<open>Finding a marker again\<close>

lemma marker_at_Some:
  "marker_at s = Some (a, k, rest) \<longleftrightarrow> s = attempt_marker a k @ rest \<and> a \<noteq> [] \<and> list_all hex_digit a
     \<and> CHR '' '' \<notin> set k"
proof
  assume m: "marker_at s = Some (a, k, rest)"
  then obtain r where r: "s = marker_open @ r" by (auto simp: marker_at_def after_literal_Some split: option.splits)
  have ar: "after_literal marker_open s = Some r" using r by (simp add: after_literal_Some)
  have a: "a = takeWhile hex_digit r" "a \<noteq> []"
    using m ar by (auto simp: marker_at_def Let_def split: option.splits if_splits)
  obtain r2 where r2: "dropWhile hex_digit r = '':'' @ r2"
    using m ar by (auto simp: marker_at_def Let_def after_literal_Some split: option.splits if_splits)
  have ar2: "after_literal '':'' (dropWhile hex_digit r) = Some r2" using r2 by (simp only: after_literal_Some)
  have m2: "map_option (\<lambda>rest. (takeWhile hex_digit r, takeWhile (\<lambda>c. c \<noteq> CHR '' '') r2, rest))
      (after_literal marker_close (dropWhile (\<lambda>c. c \<noteq> CHR '' '') r2)) = Some (a, k, rest)"
    using m a(2) unfolding marker_at_def ar by (simp add: Let_def ar2 a(1))
  have k: "k = takeWhile (\<lambda>c. c \<noteq> CHR '' '') r2"
    and rest: "dropWhile (\<lambda>c. c \<noteq> CHR '' '') r2 = marker_close @ rest"
    using m2 by (auto simp: after_literal_Some)
  have "r = a @ '':'' @ k @ marker_close @ rest"
    using takeWhile_dropWhile_id [of hex_digit r] takeWhile_dropWhile_id [of "\<lambda>c. c \<noteq> CHR '' ''" r2] a r2 k rest
    by simp
  moreover have "list_all hex_digit a" unfolding list_all_iff a(1) using set_takeWhileD by fast
  moreover have "CHR '' '' \<notin> set k" unfolding k using set_takeWhileD by fast
  ultimately show "s = attempt_marker a k @ rest \<and> a \<noteq> [] \<and> list_all hex_digit a \<and> CHR '' '' \<notin> set k"
    using r a by (simp add: attempt_marker_def)
next
  assume s: "s = attempt_marker a k @ rest \<and> a \<noteq> [] \<and> list_all hex_digit a \<and> CHR '' '' \<notin> set k"
  have hex: "takeWhile hex_digit (a @ '':'' @ t) = a" "dropWhile hex_digit (a @ '':'' @ t) = '':'' @ t" for t
    using s by (simp_all add: takeWhile_append dropWhile_append list_all_iff hex_digit_def)
  have key: "takeWhile (\<lambda>c. c \<noteq> CHR '' '') (k @ marker_close @ t) = k"
    "dropWhile (\<lambda>c. c \<noteq> CHR '' '') (k @ marker_close @ t) = marker_close @ t" for t
    using s by (auto simp: takeWhile_append dropWhile_append)
  have "after_literal marker_open s = Some (a @ '':'' @ k @ marker_close @ rest)"
    using s by (simp add: after_literal_Some attempt_marker_def)
  then show "marker_at s = Some (a, k, rest)"
    using s hex [of "k @ marker_close @ rest"] key [of rest]
    by (simp add: marker_at_def Let_def after_literal_Some after_literal_def)
qed

text \<open>A newline that is not in \<open>p\<close> is in what follows \<open>p\<close>.\<close>

lemma split_after:
  assumes "s @ newline # m = p @ q" and "newline \<notin> set p"
  shows "\<exists>s1. s = p @ s1 \<and> s1 @ newline # m = q"
proof -
  from assms(1) consider us where "s = p @ us" "us @ newline # m = q" | us where "s @ us = p" "newline # m = us @ q"
    by (auto simp: append_eq_append_conv2)
  then show ?thesis using assms(2) by cases (auto simp: append_eq_Cons_conv Cons_eq_append_conv)
qed

lemma marker_no_overlap:
  assumes "s @ newline # attempt_marker a k = attempt_marker a1 k1 @ rest" and "list_all hex_digit a1" and "CHR '' '' \<notin> set k1"
  shows "\<exists>s1. rest = s1 @ newline # attempt_marker a k"
proof -
  have "newline \<notin> set a1" using assms(2) by (auto simp: list_all_iff hex_digit_def)
  then have p: "newline \<notin> set (marker_open @ a1 @ '':'')" by simp
  have "s @ newline # attempt_marker a k = (marker_open @ a1 @ '':'') @ k1 @ marker_close @ rest"
    using assms(1) by (simp add: attempt_marker_def)
  from split_after [OF this p] obtain s1 where s1: "s1 @ newline # attempt_marker a k = k1 @ marker_close @ rest"
    by blast
  consider s2 where "s2 @ newline # attempt_marker a k = marker_close @ rest"
    | k2 where "k1 = s1 @ newline # k2" "attempt_marker a k = k2 @ marker_close @ rest"
    using s1 by (auto simp: append_eq_append_conv2 Cons_eq_append_conv)
  then show ?thesis
  proof cases
    case 1
    from split_after [OF this] show ?thesis by auto
  next
    case 2
    then have "CHR '' '' \<notin> set k2" using assms(3) by simp
    then have "dropWhile (\<lambda>c. c \<noteq> CHR '' '') (attempt_marker a k) = marker_close @ rest"
      using 2(2) by (simp add: dropWhile_append)
    then show ?thesis by (simp add: attempt_marker_def)
  qed
qed

lemma marker_of_attempt:
  assumes "attempt \<noteq> []" and "list_all hex_digit attempt" and "CHR '' '' \<notin> set (rc_correlation_key c)"
  shows "(attempt, rc_correlation_key c) \<in> set (markers (rc_body (stamped attempt c)))"
proof -
  let ?k = "rc_correlation_key c"
  have "(attempt, ?k) \<in> set (markers (s @ newline # attempt_marker attempt ?k))" for s
  proof (induction s rule: length_induct)
    case (1 s)
    let ?t = "newline # attempt_marker attempt ?k"
    show ?case
    proof (cases "marker_at (s @ ?t)")
      case None
      then have tail: "markers (s @ ?t) = markers (tl (s @ ?t))" by (simp add: markers.simps [of "s @ ?t"] split: list.split)
      show ?thesis
      proof (cases s)
        case Nil
        have "marker_at (attempt_marker attempt ?k) = Some (attempt, ?k, [])" using assms by (simp add: marker_at_Some)
        then show ?thesis using tail Nil by (simp add: markers.simps [of "attempt_marker attempt ?k"])
      next
        case (Cons x s1)
        then show ?thesis using tail 1 by simp
      qed
    next
      case (Some r)
      obtain a1 k1 rest where r: "r = (a1, k1, rest)" by (metis prod_cases3)
      have m: "marker_at (s @ ?t) = Some (a1, k1, rest)" using Some r by simp
      then obtain s1 where s1: "rest = s1 @ ?t" using marker_no_overlap unfolding marker_at_Some by blast
      have "length s1 < length s" using marker_at_shorter [OF m] s1 by simp
      then show ?thesis using 1 s1 m by (simp add: markers.simps [of "s @ ?t"])
    qed
  qed
  then show ?thesis by (simp add: stamped_def)
qed

section \<open>What an honest forge promises\<close>

text \<open>
  The ledger of a world: the reviews of the pull request that are on the forge, with the time
  of the request that put them there.
\<close>

type_synonym ledger = "(int \<times> review_body) list"

definition carries :: "string \<Rightarrow> review_body \<Rightarrow> bool" where
  "carries attempt review = list_ex (\<lambda>c. list_ex (\<lambda>(found, _). found = attempt) (markers (rc_body c))) (rb_comments review)"

definition shown_in_body :: "string \<Rightarrow> jdict \<Rightarrow> bool" where
  "shown_in_body attempt review = list_ex (\<lambda>(found, _). found = attempt) (markers (str_or review ''body'' []))"

definition shown_in_comment :: "string \<Rightarrow> json \<Rightarrow> bool" where
  "shown_in_comment attempt comment = (case comment of
     JObj d \<Rightarrow> is_py_int (jget d ''id'') \<and> list_ex (\<lambda>(found, _). found = attempt) (markers (str_or d ''body'' []))
   | _ \<Rightarrow> False)"

definition too_old :: "'w forge \<Rightarrow> int \<Rightarrow> jdict \<Rightarrow> bool" where
  "too_old f cutoff review = (case parse_timestamp f (jget review ''submitted_at'') of Some t \<Rightarrow> t < cutoff | None \<Rightarrow> False)"

definition keeps :: "('w \<Rightarrow> ledger) \<Rightarrow> ('w \<Rightarrow> 'r \<times> 'w) \<Rightarrow> bool" where
  "keeps landed call \<longleftrightarrow> (\<forall>w. landed (snd (call w)) = landed w)"

text \<open>
  Reading changes nothing. An attempt number is a nonempty string of hexadecimal digits that
  no landed review carries. A request that returns has put exactly this review on the forge; one
  that fails has done so or has done nothing. A listing that returns shows every landed review
  that carries a marker, in its body or in a comment, not dated before its request (up to ten
  minutes), and what it shows has landed.
\<close>

definition reads_quietly :: "'w forge \<Rightarrow> project_ref \<Rightarrow> int \<Rightarrow> ('w \<Rightarrow> ledger) \<Rightarrow> bool" where
  "reads_quietly f pj n landed \<longleftrightarrow>
     keeps landed (get_pull_request f (pj_owner pj) (pj_repo pj) n)
   \<and> keeps landed (get_pull_request_diff f (pj_owner pj) (pj_repo pj) n)
   \<and> keeps landed (list_reviews f (pj_owner pj) (pj_repo pj) n)
   \<and> (\<forall>rid. keeps landed (get_review_comments f (pj_owner pj) (pj_repo pj) n rid))
   \<and> (\<forall>cid. keeps landed (delete_review_comment f (pj_owner pj) (pj_repo pj) n cid))
   \<and> keeps landed (uuid_hex f)"

definition fresh_attempts :: "'w forge \<Rightarrow> ('w \<Rightarrow> ledger) \<Rightarrow> bool" where
  "fresh_attempts f landed \<longleftrightarrow> (\<forall>w. let a = fst (uuid_hex f w) in
     a \<noteq> [] \<and> list_all hex_digit a \<and> (\<forall>x \<in> set (landed w). \<not> carries a (snd x)))"

definition creates_honestly :: "'w forge \<Rightarrow> project_ref \<Rightarrow> int \<Rightarrow> ('w \<Rightarrow> ledger) \<Rightarrow> bool" where
  "creates_honestly f pj n landed \<longleftrightarrow> (\<forall>review w.
     let (r, w1) = create_review f (pj_owner pj) (pj_repo pj) n review w in
       landed w1 = landed w @ [(time_now f w, review)] \<or> (isl r \<and> landed w1 = landed w))"

definition lists_completely :: "'w forge \<Rightarrow> project_ref \<Rightarrow> int \<Rightarrow> ('w \<Rightarrow> ledger) \<Rightarrow> bool" where
  "lists_completely f pj n landed \<longleftrightarrow> (\<forall>w reviews w1 t review a.
     list_reviews f (pj_owner pj) (pj_repo pj) n w = (Inr reviews, w1) \<longrightarrow> (t, review) \<in> set (landed w) \<longrightarrow> carries a review \<longrightarrow>
     (\<exists>r \<in> set reviews. \<not> too_old f (t - 600) r \<and> (shown_in_body a r \<or> is_py_int (jget r ''id'') \<and>
        (\<forall>w2 cs w3. landed w2 = landed w \<longrightarrow>
           get_review_comments f (pj_owner pj) (pj_repo pj) n (jget r ''id'') w2 = (Inr cs, w3) \<longrightarrow> list_ex (shown_in_comment a) cs))))"

definition lists_soundly :: "'w forge \<Rightarrow> project_ref \<Rightarrow> int \<Rightarrow> ('w \<Rightarrow> ledger) \<Rightarrow> bool" where
  "lists_soundly f pj n landed \<longleftrightarrow> (\<forall>w reviews w1 r a.
     list_reviews f (pj_owner pj) (pj_repo pj) n w = (Inr reviews, w1) \<longrightarrow> r \<in> set reviews \<longrightarrow>
     shown_in_body a r \<or> (\<exists>w2 cs w3. landed w2 = landed w \<and>
        get_review_comments f (pj_owner pj) (pj_repo pj) n (jget r ''id'') w2 = (Inr cs, w3) \<and> list_ex (shown_in_comment a) cs) \<longrightarrow>
     (\<exists>x \<in> set (landed w). carries a (snd x)))"

definition honest_forge :: "'w forge \<Rightarrow> project_ref \<Rightarrow> int \<Rightarrow> ('w \<Rightarrow> ledger) \<Rightarrow> bool" where
  "honest_forge f pj n landed \<longleftrightarrow> reads_quietly f pj n landed \<and> fresh_attempts f landed
     \<and> creates_honestly f pj n landed \<and> lists_completely f pj n landed \<and> lists_soundly f pj n landed"

lemma keepsD: "keeps landed call \<Longrightarrow> call w = (r, w1) \<Longrightarrow> landed w1 = landed w"
  unfolding keeps_def by (metis snd_conv)

lemma honest_reads:
  assumes "honest_forge f pj n landed"
  shows "get_pull_request f (pj_owner pj) (pj_repo pj) n w = (r, w1) \<Longrightarrow> landed w1 = landed w"
    and "get_pull_request_diff f (pj_owner pj) (pj_repo pj) n w = (r, w1) \<Longrightarrow> landed w1 = landed w"
    and "list_reviews f (pj_owner pj) (pj_repo pj) n w = (rs, w1) \<Longrightarrow> landed w1 = landed w"
    and "get_review_comments f (pj_owner pj) (pj_repo pj) n rid w = (cs, w1) \<Longrightarrow> landed w1 = landed w"
    and "delete_review_comment f (pj_owner pj) (pj_repo pj) n cid w = (u, w1) \<Longrightarrow> landed w1 = landed w"
    and "uuid_hex f w = (a, w1) \<Longrightarrow> landed w1 = landed w"
  using assms unfolding honest_forge_def reads_quietly_def by (blast dest: keepsD)+

section \<open>The read-back\<close>

lemma comment_ids_nonempty: "comment_ids a c ids = [] \<longleftrightarrow> ids = [] \<and> \<not> shown_in_comment a c"
proof -
  have ms: "fold (\<lambda>(found, key) ids. if found = a then AList.update key v ids else ids) ms ids = []
      \<longleftrightarrow> ids = [] \<and> \<not> list_ex (\<lambda>(found, _). found = a) ms" for ms :: "(string \<times> string) list" and v :: json and ids
  proof (induction ms arbitrary: ids)
    case (Cons m ms)
    have "AList.update k v ids \<noteq> []" for k using dom_update [of k v ids] by (metis empty_iff image_is_empty insert_not_empty list.set(1))
    then show ?case using Cons by (cases m) simp
  qed simp
  show ?thesis
  proof (cases c)
    case (JObj d)
    then show ?thesis unfolding comment_ids_def shown_in_comment_def by (simp only: json.case ms split: if_split) blast
  qed (simp_all add: comment_ids_def shown_in_comment_def)
qed

lemma comments_ids_nonempty: "fold (comment_ids a) cs ids = [] \<longleftrightarrow> ids = [] \<and> \<not> list_ex (shown_in_comment a) cs"
proof (induction cs arbitrary: ids)
  case (Cons c cs)
  show ?case using Cons [of "comment_ids a c ids"] comment_ids_nonempty [of a c ids] by auto
qed simp

text \<open>One round of the search, with its three ways out.\<close>

lemma landed_among_Cons:
  "landed_among f pj pr cutoff a (review # reviews) w =
     (if too_old f cutoff review then landed_among f pj pr cutoff a reviews w
      else if is_py_int (jget review ''id'')
      then (case get_review_comments f (pj_owner pj) (pj_repo pj) (pr_number pr) (jget review ''id'') w of
          (Inl _, w1) \<Rightarrow> (Unknown, w1)
        | (Inr cs, w1) \<Rightarrow> (if shown_in_body a review \<or> list_ex (shown_in_comment a) cs
            then (Landed review (fold (comment_ids a) cs []), w1)
            else landed_among f pj pr cutoff a reviews w1))
      else if shown_in_body a review then (Landed review [], w)
      else landed_among f pj pr cutoff a reviews w)"
  by (simp only: landed_among.simps too_old_def [symmetric] shown_in_body_def [symmetric] Let_def comments_ids_nonempty
      simp_thms)

lemma landed_among_spec:
  assumes "honest_forge f pj (pr_number pr) landed" and "landed_among f pj pr cutoff a reviews w = (outcome, w1)"
  shows "landed w1 = landed w \<and>
    (case outcome of
       Landed review ids \<Rightarrow> review \<in> set reviews \<and> (shown_in_body a review \<or> (\<exists>w2 cs w3. landed w2 = landed w \<and>
          get_review_comments f (pj_owner pj) (pj_repo pj) (pr_number pr) (jget review ''id'') w2 = (Inr cs, w3)
          \<and> list_ex (shown_in_comment a) cs))
     | Absent \<Rightarrow> (\<forall>r \<in> set reviews. too_old f cutoff r \<or> (\<not> shown_in_body a r \<and> (is_py_int (jget r ''id'') \<longrightarrow>
          (\<exists>w2 cs w3. landed w2 = landed w \<and>
            get_review_comments f (pj_owner pj) (pj_repo pj) (pr_number pr) (jget r ''id'') w2 = (Inr cs, w3)
            \<and> \<not> list_ex (shown_in_comment a) cs))))
     | Unknown \<Rightarrow> True)"
  using assms(2)
proof (induction reviews arbitrary: w)
  case Nil
  then show ?case by auto
next
  case (Cons review reviews)
  let ?comments = "get_review_comments f (pj_owner pj) (pj_repo pj) (pr_number pr) (jget review ''id'')"
  obtain r2 w2 where c: "?comments w = (r2, w2)" by fastforce
  have q: "landed w2 = landed w" using honest_reads(4) [OF assms(1) c] .
  define old int_id body where b: "old = too_old f cutoff review" "int_id = is_py_int (jget review ''id'')"
    "body = shown_in_body a review"
  note run = Cons.prems [unfolded landed_among_Cons c b [symmetric]]
  consider "old" | e where "\<not> old" "int_id" "r2 = Inl e" | cs where "\<not> old" "int_id" "r2 = Inr cs" "body \<or> list_ex (shown_in_comment a) cs"
    | cs where "\<not> old" "int_id" "r2 = Inr cs" "\<not> body" "\<not> list_ex (shown_in_comment a) cs"
    | "\<not> old" "\<not> int_id" "body" | "\<not> old" "\<not> int_id" "\<not> body"
    by (cases r2; cases old; cases int_id) blast+
  then show ?case
  proof cases
    case 1
    with run have "landed_among f pj pr cutoff a reviews w = (outcome, w1)" by simp
    from Cons.IH [OF this] 1 show ?thesis by (cases outcome) (simp_all add: b; blast)+
  next
    case 2
    with run q show ?thesis by auto
  next
    case 3
    with run have "outcome = Landed review (fold (comment_ids a) cs [])" "w1 = w2" by auto
    with 3 q c show ?thesis unfolding b by auto
  next
    case 4
    with run have "landed_among f pj pr cutoff a reviews w2 = (outcome, w1)" by simp
    from Cons.IH [OF this] 4 q c show ?thesis by (cases outcome) (simp_all add: b; blast)+
  next
    case 5
    with run show ?thesis by (auto simp: b)
  next
    case 6
    with run have "landed_among f pj pr cutoff a reviews w = (outcome, w1)" by simp
    from Cons.IH [OF this] 6 show ?thesis by (cases outcome) (simp_all add: b; blast)+
  qed
qed

lemma find_landed_keeps:
  assumes "honest_forge f pj (pr_number pr) landed" and "find_landed_review f pj pr since a w = (outcome, w1)"
  shows "landed w1 = landed w"
proof -
  obtain r w2 where l: "list_reviews f (pj_owner pj) (pj_repo pj) (pr_number pr) w = (r, w2)" by fastforce
  have q: "landed w2 = landed w" using honest_reads(3) [OF assms(1) l] .
  show ?thesis
  proof (cases r)
    case (Inr reviews)
    then have "landed_among f pj pr (since - 600) a (rev reviews) w2 = (outcome, w1)"
      using assms(2) l by (simp add: find_landed_review_def)
    with landed_among_spec [OF assms(1)] q show ?thesis by metis
  qed (use assms(2) l q in \<open>simp add: find_landed_review_def\<close>)
qed

text \<open>The read-back is right: an attempt that landed is not reported absent, nor the other way round.\<close>

lemma find_landed_absent:
  assumes h: "honest_forge f pj (pr_number pr) landed" and "find_landed_review f pj pr since a w = (Absent, w1)"
    and "(since, review) \<in> set (landed w)"
  shows "\<not> carries a review"
proof
  assume carried: "carries a review"
  obtain r w2 where l: "list_reviews f (pj_owner pj) (pj_repo pj) (pr_number pr) w = (r, w2)" by fastforce
  obtain reviews where r: "r = Inr reviews" using assms(2) l by (cases r) (simp_all add: find_landed_review_def)
  have run: "landed_among f pj pr (since - 600) a (rev reviews) w2 = (Absent, w1)"
    using assms(2) l r by (simp add: find_landed_review_def)
  have lw: "landed w2 = landed w" using honest_reads(3) [OF h l] .
  obtain s where s: "s \<in> set reviews" "\<not> too_old f (since - 600) s" "shown_in_body a s \<or> is_py_int (jget s ''id'') \<and>
      (\<forall>w2 cs w3. landed w2 = landed w \<longrightarrow>
         get_review_comments f (pj_owner pj) (pj_repo pj) (pr_number pr) (jget s ''id'') w2 = (Inr cs, w3) \<longrightarrow> list_ex (shown_in_comment a) cs)"
    using h l r assms(3) carried unfolding honest_forge_def lists_completely_def by metis
  have "too_old f (since - 600) s \<or> (\<not> shown_in_body a s \<and> (is_py_int (jget s ''id'') \<longrightarrow>
      (\<exists>w3 cs w4. landed w3 = landed w2 \<and>
        get_review_comments f (pj_owner pj) (pj_repo pj) (pr_number pr) (jget s ''id'') w3 = (Inr cs, w4)
        \<and> \<not> list_ex (shown_in_comment a) cs)))"
    using landed_among_spec [OF h run] s(1) by simp
  with s(2,3) lw show False by metis
qed

lemma find_landed_found:
  assumes h: "honest_forge f pj (pr_number pr) landed" and "find_landed_review f pj pr since a w = (Landed r ids, w1)"
  shows "\<exists>x \<in> set (landed w). carries a (snd x)"
proof -
  obtain rs w2 where l: "list_reviews f (pj_owner pj) (pj_repo pj) (pr_number pr) w = (rs, w2)" by fastforce
  obtain reviews where rs: "rs = Inr reviews" using assms(2) l by (cases rs) (simp_all add: find_landed_review_def)
  have run: "landed_among f pj pr (since - 600) a (rev reviews) w2 = (Landed r ids, w1)"
    using assms(2) l rs by (simp add: find_landed_review_def)
  have lw: "landed w2 = landed w" using honest_reads(3) [OF h l] .
  have "r \<in> set reviews" "shown_in_body a r \<or> (\<exists>w2 cs w3. landed w2 = landed w \<and>
      get_review_comments f (pj_owner pj) (pj_repo pj) (pr_number pr) (jget r ''id'') w2 = (Inr cs, w3)
      \<and> list_ex (shown_in_comment a) cs)"
    using landed_among_spec [OF h run] lw by auto
  then show ?thesis using h l rs unfolding honest_forge_def lists_soundly_def by metis
qed

section \<open>The comments of a review\<close>

lemma build_review_comment_Inr:
  "build_review_comment d attribution allowed = Inr c \<Longrightarrow>
     c = \<lparr>rc_path = pd_file_path d, rc_body = format_comment_body d attribution allowed, rc_correlation_key = nat_str (rd_pk d),
          rc_line = some_nonzero (rd_line_number d), rc_line_end = some_nonzero (pd_line_end d), rc_side = ''RIGHT''\<rparr>"
  by (auto simp: build_review_comment_def new_comment_def split: option.splits if_splits)

lemma build_all_map:
  "build_all attribution allowed ds = Inr cs \<Longrightarrow> map Inr cs = map (\<lambda>d. build_review_comment d attribution allowed) ds"
  by (induction ds arbitrary: cs) (auto simp: bind_sum_eq_Inr)

lemma build_all_keys: "build_all attribution allowed ds = Inr cs \<Longrightarrow> map rc_correlation_key cs = map (\<lambda>d. nat_str (rd_pk d)) ds"
proof (induction ds arbitrary: cs)
  case (Cons d ds)
  then obtain c cs1 where "cs = c # cs1" "build_review_comment d attribution allowed = Inr c" "build_all attribution allowed ds = Inr cs1"
    by (auto simp: bind_sum_eq_Inr)
  with Cons.IH build_review_comment_Inr show ?case by fastforce
qed simp

lemma key_kept [simp]: "rc_correlation_key (folded reason c) = rc_correlation_key c" "rc_correlation_key (stamped a c) = rc_correlation_key c"
  by (simp_all add: folded_def stamped_def)

lemma placed_keys: "map rc_correlation_key (fst (placed mode diff_text ds cs)) = map rc_correlation_key cs"
  by (simp add: placed_def comp_def if_distrib [of rc_correlation_key] cong: if_cong)

lemma nat_str_no_space: "CHR '' '' \<notin> set (nat_str n)"
  using nat_str_digits [of n] by (auto simp: list_all_iff is_digit_def)

definition review_of :: "string \<Rightarrow> string \<Rightarrow> review_comment list \<Rightarrow> review_body" where
  "review_of event attempt cs = \<lparr>rb_event = event, rb_body = [], rb_comments = map (stamped attempt) cs\<rparr>"

lemma review_of_carries:
  assumes "a \<noteq> []" and "list_all hex_digit a" and "cs \<noteq> []" and "\<forall>c \<in> set cs. CHR '' '' \<notin> set (rc_correlation_key c)"
  shows "carries a (review_of event a cs)"
proof -
  from assms(3,4) obtain c where c: "c \<in> set cs" "CHR '' '' \<notin> set (rc_correlation_key c)" by (cases cs) auto
  have "(a, rc_correlation_key c) \<in> set (markers (rc_body (stamped a c)))" using marker_of_attempt [OF assms(1,2) c(2)] .
  then have "list_ex (\<lambda>(found, _). found = a) (markers (rc_body (stamped a c)))" by (auto simp: list_ex_iff)
  with c(1) show ?thesis unfolding carries_def review_of_def list_ex_iff by auto
qed

section \<open>A post is settled\<close>

text \<open>
  What a call leaves behind: a result with one more review on the forge and the drafts recorded,
  nothing at all, or an exception without a change of the table; the forge is changed by an
  exception only when it is the one that says so.
\<close>

definition settled :: "int \<Rightarrow> (int \<Rightarrow> jdict \<Rightarrow> post_draft list \<Rightarrow> post_draft list) \<Rightarrow> (review_body \<Rightarrow> bool)
    \<Rightarrow> ledger \<Rightarrow> post_draft list \<Rightarrow> (exn + jdict option) \<times> post_draft list \<times> ledger \<Rightarrow> bool" where
  "settled n recorded ours before_post table after =
     (case after of (r, table1, after_post) \<Rightarrow>
       (case r of
          Inr None \<Rightarrow> after_post = before_post \<and> table1 = table
        | Inr (Some _) \<Rightarrow> (\<exists>t review now ids. after_post = before_post @ [(t, review)] \<and> ours review \<and> table1 = recorded now ids table)
        | Inl e \<Rightarrow> table1 = table \<and> (after_post = before_post
            \<or> e = post_unverified_error n \<and> (\<exists>t review. after_post = before_post @ [(t, review)] \<and> ours review))))"

lemma send_review_settled:
  assumes h: "honest_forge f pj (pr_number pr) landed" and fresh: "a \<noteq> []" "list_all hex_digit a" "\<forall>x \<in> set (landed w). \<not> carries a (snd x)"
    and cs: "fst cs_n \<noteq> []" "\<forall>c \<in> set (fst cs_n). CHR '' '' \<notin> set (rc_correlation_key c)"
    and run: "send_review f pj pr a escaped event cs_n ds table w = (r, table1, w1)"
  shows "settled (pr_number pr) (\<lambda>now ids. record_posted now ids ds) (\<lambda>review. review = review_of event a (fst cs_n))
    (landed w) table (r, table1, landed w1)"
proof -
  let ?review = "review_of event a (fst cs_n)"
  obtain r1 w2 where c: "create_review f (pj_owner pj) (pj_repo pj) (pr_number pr) ?review w = (r1, w2)" by fastforce
  have l: "landed w2 = landed w @ [(time_now f w, ?review)] \<or> (isl r1 \<and> landed w2 = landed w)"
    using h c unfolding honest_forge_def creates_honestly_def by (metis (mono_tags, lifting) case_prod_conv)
  note run = run [unfolded send_review_def Let_def review_of_def [symmetric] c prod.case]
  show ?thesis
  proof (cases r1)
    case (Inr result)
    with run l show ?thesis by (auto simp: settled_def finish_post_def; blast)
  next
    case (Inl e)
    obtain outcome w3 where fl: "find_landed_review f pj pr (time_now f w) a w2 = (outcome, w3)" by fastforce
    have kept: "landed w3 = landed w2" using find_landed_keeps [OF h fl] .
    note run = run [unfolded Inl sum.case fl prod.case]
    show ?thesis
    proof (cases outcome)
      case Absent
      have "landed w2 = landed w"
        using l find_landed_absent [OF h fl [unfolded Absent], of ?review] review_of_carries [OF fresh(1,2) cs] by auto
      with run Absent kept show ?thesis by (auto simp: settled_def)
    next
      case Unknown
      with run kept l show ?thesis by (auto simp: settled_def)
    next
      case (Landed found ids)
      have "landed w2 = landed w @ [(time_now f w, ?review)]"
        using l find_landed_found [OF h fl [unfolded Landed]] fresh(3) by metis
      with run Landed kept show ?thesis by (auto simp: settled_def finish_post_def; blast)
    qed
  qed
qed

lemma live_head_keeps: "honest_forge f pj (pr_number pr) landed \<Longrightarrow> live_head_sha f pj pr w = (live, w1) \<Longrightarrow> landed w1 = landed w"
  unfolding live_head_sha_def
  by (cases "get_pull_request f (pj_owner pj) (pj_repo pj) (pr_number pr) w")
     (auto dest: honest_reads(1) split: sum.splits json.splits)

lemma current_diff_keeps: "honest_forge f pj (pr_number pr) landed \<Longrightarrow> current_diff f pj pr w = (diff_text, w1) \<Longrightarrow> landed w1 = landed w"
  unfolding current_diff_def
  by (cases "get_pull_request_diff f (pj_owner pj) (pj_repo pj) (pr_number pr) w")
     (auto dest: honest_reads(2) split: sum.splits json.splits)

text \<open>
  The ways out of \<open>post_review\<close>: before anything is sent, with nothing changed but the world's
  reads, or through \<open>send_review\<close> with the comments placed against what was read.
\<close>

lemma post_review_cases:
  assumes "honest_forge f pj (pr_number pr) landed"
    and "post_review f attribution allowlist pj pr given event mode table w = (r, table1, w1)"
    and "chosen_drafts (pr_pk pr) given table = ds"
  obtains (early) "table1 = table" "landed w1 = landed w" "r = Inr None \<or> isl r"
  | (sent) live diff_text comments a w2 escaped where
      "\<not> (mode = ''refuse'' \<and> head_moved pr live)" "ds \<noteq> []" "live = fst (live_head_sha f pj pr w)"
      "build_all attribution (normalize_allowlist allowlist) ds = Inr comments"
      "mode = ''body-only'' \<or> diff_text = fst (current_diff f pj pr (snd (live_head_sha f pj pr w)))"
      "a \<noteq> []" "list_all hex_digit a" "\<forall>x \<in> set (landed w). \<not> carries a (snd x)" "landed w2 = landed w"
      "send_review f pj pr a escaped event (placed mode diff_text ds comments) ds table w2 = (r, table1, w1)"
proof -
  obtain live w2 where live: "live_head_sha f pj pr w = (live, w2)" by fastforce
  have l2: "landed w2 = landed w" using live_head_keeps [OF assms(1) live] .
  obtain diff_text w3 where diff: "(if mode = ''body-only'' then ([], w2) else current_diff f pj pr w2) = (diff_text, w3)" by fastforce
  have l3: "landed w3 = landed w" using diff l2 current_diff_keeps [OF assms(1)] by (metis prod.inject)
  obtain a w4 where u: "uuid_hex f w3 = (a, w4)" by fastforce
  have l4: "landed w4 = landed w" using honest_reads(6) [OF assms(1) u] l3 by simp
  have fresh: "a \<noteq> []" "list_all hex_digit a" "\<forall>x \<in> set (landed w). \<not> carries a (snd x)"
    using assms(1) u l3 unfolding honest_forge_def fresh_attempts_def Let_def by (metis fst_conv)+
  define refused unknown where "refused \<longleftrightarrow> head_moved pr live \<and> mode = ''refuse''" and "unknown \<longleftrightarrow> mode \<notin> set STALE_HEAD_MODES"
  note run = assms(2) [unfolded post_review_def assms(3) Let_def live prod.case refused_def [symmetric] unknown_def [symmetric] diff u]
  consider "unknown" | "\<not> unknown" "ds = []" | "\<not> unknown" "ds \<noteq> []" "refused"
    | e where "\<not> unknown" "ds \<noteq> []" "\<not> refused" "build_all attribution (normalize_allowlist allowlist) ds = Inl e"
    | comments where "\<not> unknown" "ds \<noteq> []" "\<not> refused" "build_all attribution (normalize_allowlist allowlist) ds = Inr comments"
    by (cases "build_all attribution (normalize_allowlist allowlist) ds") blast+
  then show thesis
  proof cases
    case 5
    have "mode = ''body-only'' \<or> diff_text = fst (current_diff f pj pr (snd (live_head_sha f pj pr w)))"
      using diff live by (metis fst_conv snd_conv)
    moreover have "\<not> (mode = ''refuse'' \<and> head_moved pr live)" using 5 unfolding refused_def by blast
    moreover have "live = fst (live_head_sha f pj pr w)" using live by simp
    ultimately show ?thesis using sent 5 fresh l4 run by simp
  qed (use run l2 early in auto)
qed

lemma placed_nonempty: "fst (placed mode diff_text ds cs) = [] \<longleftrightarrow> cs = []"
  by (simp add: placed_def)

lemma placed_keys_ok:
  assumes "build_all attribution allowed ds = Inr comments"
  shows "map rc_correlation_key (fst (placed mode diff_text ds comments)) = map (\<lambda>d. nat_str (rd_pk d)) ds"
    and "\<forall>c \<in> set (fst (placed mode diff_text ds comments)). CHR '' '' \<notin> set (rc_correlation_key c)"
proof -
  show k: "map rc_correlation_key (fst (placed mode diff_text ds comments)) = map (\<lambda>d. nat_str (rd_pk d)) ds"
    using placed_keys build_all_keys [OF assms] by metis
  have "rc_correlation_key ` set (fst (placed mode diff_text ds comments)) = (\<lambda>d. nat_str (rd_pk d)) ` set ds"
    using k by (metis set_map)
  then show "\<forall>c \<in> set (fst (placed mode diff_text ds comments)). CHR '' '' \<notin> set (rc_correlation_key c)"
    using nat_str_no_space by (metis image_iff)
qed

definition keys_of :: "review_body \<Rightarrow> string list" where
  "keys_of review = map rc_correlation_key (rb_comments review)"

lemma keys_of_review [simp]: "keys_of (review_of event a cs) = map rc_correlation_key cs"
  by (simp add: keys_of_def review_of_def comp_def)

lemma settled_mono: "settled n recorded P b t x \<Longrightarrow> (\<And>review. P review \<Longrightarrow> Q review) \<Longrightarrow> settled n recorded Q b t x"
  unfolding settled_def by (cases x) (auto split: sum.splits option.splits; metis)

lemma post_is_settled:
  assumes "honest_forge f pj (pr_number pr) landed"
    and "post_review f attribution allowlist pj pr given event mode table w = (r, table1, w1)"
    and "chosen_drafts (pr_pk pr) given table = ds"
  shows "settled (pr_number pr) (\<lambda>now ids. record_posted now ids ds) (\<lambda>review. keys_of review = map (\<lambda>d. nat_str (rd_pk d)) ds)
    (landed w) table (r, table1, landed w1)"
  using assms
proof (cases rule: post_review_cases)
  case early
  then show ?thesis by (cases r) (auto simp: settled_def)
next
  case (sent live diff_text comments a w2 escaped)
  note keys = placed_keys_ok [OF sent(4), of mode diff_text]
  have ne: "fst (placed mode diff_text ds comments) \<noteq> []" using keys(1) sent(2) by (metis map_is_Nil_conv)
  have "\<forall>x \<in> set (landed w2). \<not> carries a (snd x)" using sent(8,9) by simp
  from send_review_settled [OF assms(1) sent(6,7) this ne keys(2) sent(10)] sent(9) keys(1)
  show ?thesis by (auto elim!: settled_mono)
qed

section \<open>A simulated forge\<close>

text \<open>
  The ledger itself, a clock and a script of what happens to the next requests: 0 is a request
  that works, 1 one that fails after the review has landed, anything else one that fails
  before. Attempt numbers are longer than everything that was ever posted.
\<close>

record sim =
  sm_ledger :: ledger
  sm_time :: int
  sm_script :: "nat list"

definition sim_create :: "review_body \<Rightarrow> sim \<Rightarrow> (exn + jdict) \<times> sim" where
  "sim_create review w = (let w1 = w\<lparr>sm_script := tl (sm_script w)\<rparr>; w2 = w1\<lparr>sm_ledger := sm_ledger w @ [(sm_time w, review)]\<rparr>;
     ids = JObj (map (\<lambda>c. (rc_correlation_key c, JInt 7)) (rb_comments review));
     step = (case sm_script w of [] \<Rightarrow> 0 | s # _ \<Rightarrow> s)
     in if step = 0 then (Inr [(''id'', JInt 1), (''comment_ids_by_key'', ids)], w2)
        else if step = 1 then (Inl (Exn ''Timeout'' []), w2) else (Inl (Exn ''HTTPError'' []), w1))"

definition sim_comments :: "json \<Rightarrow> sim \<Rightarrow> (exn + json list) \<times> sim" where
  "sim_comments rid w = (case rid of
      JInt i \<Rightarrow> (if 0 \<le> i \<and> nat i < length (sm_ledger w)
        then (Inr (map (\<lambda>c. JObj [(''id'', JInt i), (''body'', JStr (rc_body c))]) (rb_comments (snd (sm_ledger w ! nat i)))), w)
        else (Inl (Exn ''HTTPError'' []), w))
    | _ \<Rightarrow> (Inl (Exn ''HTTPError'' []), w))"

definition posted_length :: "ledger \<Rightarrow> nat" where
  "posted_length l = sum_list (map (\<lambda>x. sum_list (map (\<lambda>c. length (rc_body c)) (rb_comments (snd x)))) l)"

definition sim_forge :: "string \<Rightarrow> string \<Rightarrow> sim forge" where
  "sim_forge head diff = \<lparr>get_pull_request = (\<lambda>_ _ _ w. (Inr (JObj [(''head'', JObj [(''sha'', JStr head)])]), w)),
     get_pull_request_diff = (\<lambda>_ _ _ w. (Inr (JStr diff), w)),
     create_review = (\<lambda>_ _ _. sim_create),
     list_reviews = (\<lambda>_ _ _ w. (Inr (map (\<lambda>i. [(''id'', JInt (int i))]) [0..<length (sm_ledger w)]), w)),
     get_review_comments = (\<lambda>_ _ _. sim_comments),
     delete_review_comment = (\<lambda>_ _ _ _ w. (Inr (), w)),
     time_now = sm_time,
     uuid_hex = (\<lambda>w. (replicate (Suc (posted_length (sm_ledger w))) CHR ''0'', w)),
     from_iso = (\<lambda>_. None)\<rparr>"

lemma markers_length: "(a, k) \<in> set (markers s) \<Longrightarrow> length a \<le> length s"
proof (induction s rule: markers.induct)
  case (1 s)
  show ?case
  proof (cases "marker_at s")
    case None
    then have m: "markers s = (case s of [] \<Rightarrow> [] | _ # s1 \<Rightarrow> markers s1)" by (simp add: markers.simps [of s])
    show ?thesis using 1(1) [OF None] 1(3) m by (cases s) fastforce+
  next
    case (Some r)
    obtain a1 k1 rest where r: "r = (a1, k1, rest)" by (metis prod_cases3)
    have "length a1 \<le> length s" "length rest \<le> length s"
      using Some [unfolded r marker_at_Some] by (auto simp: attempt_marker_def)
    moreover have "(a, k) = (a1, k1) \<or> (a, k) \<in> set (markers rest)" using 1(3) Some r by (simp add: markers.simps [of s])
    ultimately show ?thesis using 1(2) [OF Some] r by fastforce
  qed
qed

lemma carried_length: "carries a review \<Longrightarrow> x \<in> set l \<Longrightarrow> snd x = review \<Longrightarrow> length a \<le> posted_length l"
proof -
  assume c: "carries a review" and x: "x \<in> set l" "snd x = review"
  then obtain c k where k: "c \<in> set (rb_comments review)" "(a, k) \<in> set (markers (rc_body c))"
    unfolding carries_def list_ex_iff by fastforce
  have "length a \<le> length (rc_body c)" using markers_length [OF k(2)] .
  also have "\<dots> \<le> sum_list (map (\<lambda>c. length (rc_body c)) (rb_comments review))"
    using k(1) by (intro member_le_sum_list) auto
  also have "\<dots> \<le> posted_length l" unfolding posted_length_def using x by (intro member_le_sum_list) auto
  finally show ?thesis .
qed

lemma shown_sim_comment: "shown_in_comment a (JObj [(''id'', JInt i), (''body'', JStr b)]) \<longleftrightarrow> list_ex (\<lambda>(found, _). found = a) (markers b)"
proof -
  have "str_or [(''id'', JInt i), (''body'', JStr b)] ''body'' [] = b" by (simp add: str_or_JStr)
  then show ?thesis by (simp add: shown_in_comment_def is_py_int_def jget_def dict_get_def)
qed

lemma shown_sim_comments:
  "list_ex (shown_in_comment a) (map (\<lambda>c. JObj [(''id'', JInt i), (''body'', JStr (rc_body c))]) cs)
     \<longleftrightarrow> list_ex (\<lambda>c. list_ex (\<lambda>(found, _). found = a) (markers (rc_body c))) cs"
  by (induction cs) (simp_all add: shown_sim_comment)

lemma not_shown_in_sim_body: "\<not> shown_in_body a [(''id'', JInt i)]"
  by (simp add: shown_in_body_def str_or_None markers.simps marker_at_def after_literal_def)

lemma sim_honest: "honest_forge (sim_forge head diff) pj n sm_ledger"
proof -
  have "reads_quietly (sim_forge head diff) pj n sm_ledger"
    by (simp add: reads_quietly_def keeps_def sim_forge_def sim_comments_def split: json.split)
  moreover have "fresh_attempts (sim_forge head diff) sm_ledger"
    unfolding fresh_attempts_def by (auto simp: sim_forge_def hex_digit_def list_all_iff Let_def dest: carried_length)
  moreover have "creates_honestly (sim_forge head diff) pj n sm_ledger"
    by (simp add: creates_honestly_def sim_forge_def sim_create_def Let_def)
  moreover have "lists_completely (sim_forge head diff) pj n sm_ledger"
    unfolding lists_completely_def
  proof (intro allI impI)
    fix w reviews w1 t review a
    assume l: "list_reviews (sim_forge head diff) (pj_owner pj) (pj_repo pj) n w = (Inr reviews, w1)"
      and x: "(t, review) \<in> set (sm_ledger w)" "carries a review"
    from x obtain i where i: "i < length (sm_ledger w)" "sm_ledger w ! i = (t, review)" by (metis in_set_conv_nth)
    let ?r = "[(''id'', JInt (int i))]"
    have "?r \<in> set reviews" using l i(1) by (auto simp: sim_forge_def)
    moreover have "\<not> too_old (sim_forge head diff) (t - 600) ?r"
      by (simp add: too_old_def parse_timestamp_def jget_def dict_get_def)
    moreover have "is_py_int (jget ?r ''id'')" by (simp add: is_py_int_def jget_def dict_get_def)
    moreover have "list_ex (shown_in_comment a) cs"
      if "sm_ledger w2 = sm_ledger w" "get_review_comments (sim_forge head diff) (pj_owner pj) (pj_repo pj) n (jget ?r ''id'') w2 = (Inr cs, w3)"
      for w2 cs w3
      using that i x(2) by (auto simp: sim_forge_def sim_comments_def jget_def dict_get_def shown_sim_comments carries_def)
    ultimately show "\<exists>r \<in> set reviews. \<not> too_old (sim_forge head diff) (t - 600) r \<and> (shown_in_body a r \<or> is_py_int (jget r ''id'') \<and>
        (\<forall>w2 cs w3. sm_ledger w2 = sm_ledger w \<longrightarrow>
           get_review_comments (sim_forge head diff) (pj_owner pj) (pj_repo pj) n (jget r ''id'') w2 = (Inr cs, w3) \<longrightarrow> list_ex (shown_in_comment a) cs))"
      by metis
  qed
  moreover have "lists_soundly (sim_forge head diff) pj n sm_ledger"
    unfolding lists_soundly_def
  proof (intro allI impI)
    fix w reviews w1 r a
    assume l: "list_reviews (sim_forge head diff) (pj_owner pj) (pj_repo pj) n w = (Inr reviews, w1)" and r: "r \<in> set reviews"
      and s: "shown_in_body a r \<or> (\<exists>w2 cs w3. sm_ledger w2 = sm_ledger w \<and>
        get_review_comments (sim_forge head diff) (pj_owner pj) (pj_repo pj) n (jget r ''id'') w2 = (Inr cs, w3) \<and> list_ex (shown_in_comment a) cs)"
    obtain i where i: "i < length (sm_ledger w)" "r = [(''id'', JInt (int i))]" using l r by (auto simp: sim_forge_def)
    then have "list_ex (\<lambda>c. list_ex (\<lambda>(found, _). found = a) (markers (rc_body c))) (rb_comments (snd (sm_ledger w ! i)))"
      using s not_shown_in_sim_body by (auto simp: sim_forge_def sim_comments_def jget_def dict_get_def shown_sim_comments)
    then show "\<exists>x \<in> set (sm_ledger w). carries a (snd x)" using i(1) nth_mem unfolding carries_def by blast
  qed
  ultimately show ?thesis unfolding honest_forge_def by blast
qed

definition sample_post_draft :: "nat \<Rightarrow> post_draft" where
  "sample_post_draft pk = \<lparr>rd_pk = pk, rd_pull_request = 1, rd_severity = ''nit'', rd_line_number = Some (int pk),
     rd_auto_suppressed = False, rd_status = ''pending'', pd_file_path = ''x.py'', pd_line_end = None,
     pd_comment_body = ''ok'', pd_suggestion = [], pd_edited_body = [], pd_confidence = 9/10,
     pd_tone_guard_applied = True, pd_forge_comment_id = JNull, pd_posted_at = None, pd_created_at = int pk,
     pd_sources = [], pd_rejection_reason = []\<rparr>"

definition sample_project :: project_ref where
  "sample_project = \<lparr>pj_pk = 1, pj_owner = ''o'', pj_repo = ''r''\<rparr>"

definition sample_world :: "nat list \<Rightarrow> sim" where
  "sample_world script = \<lparr>sm_ledger = [], sm_time = 1000, sm_script = script\<rparr>"

end
