(* ===== verification/DraftDesk.thy ===== *)
theory DraftDesk
  imports ReviewPoster
begin

text \<open>
  The buttons on a draft finding and on a pull request's approved findings
  (\<open>dashboard/views.py\<close>: \<open>approve_draft\<close>, \<open>reject_draft\<close>, \<open>edit_draft\<close>, \<open>recall_draft\<close>,
  \<open>post_review\<close>). A view answers and changes the \<open>desk\<close>: the tables of drafts, anti-patterns
  and logged actions.

  What a template renders is left out; an answer says which branch was taken. The forge client
  a view gets for a pull request (\<open>_make_posting_client\<close>) and the allow-list are parameters.
\<close>

record draft_action =
  da_action_type :: string
  da_review_draft :: nat
  da_pull_request :: nat
  da_notes :: string

record desk =
  dk_drafts :: "post_draft list"
  dk_patterns :: "anti_pattern list"
  dk_next_pattern :: nat
  dk_actions :: "draft_action list"

datatype answer = NotFound | DraftItem | DraftItemError string | NothingApproved | NoClient
  | StaleHead string | Crash exn | Unverified | NotLanded | PostedNote jdict nat | FailedToPost

text \<open>
  The surroundings of the views: the project and row of a pull request, the client made for it,
  and the operator's allow-list.
\<close>

record 'w surroundings =
  pull_of :: "nat \<Rightarrow> (project_ref \<times> pr_row) option"
  posting_client :: "pr_row \<Rightarrow> 'w forge option"
  mention_allowlist :: "string list"

definition draft_with_pk :: "nat \<Rightarrow> desk \<Rightarrow> post_draft option" where
  "draft_with_pk pk dk = find (\<lambda>d. rd_pk d = pk) (dk_drafts dk)"

definition change_draft :: "nat \<Rightarrow> (post_draft \<Rightarrow> post_draft) \<Rightarrow> desk \<Rightarrow> desk" where
  "change_draft pk g dk = dk\<lparr>dk_drafts := map (\<lambda>r. if rd_pk r = pk then g r else r) (dk_drafts dk)\<rparr>"

definition action_type_for_draft :: "post_draft \<Rightarrow> string \<Rightarrow> string" where
  "action_type_for_draft d action =
     (if ''shepherding'' \<in> set (pd_sources d) then action @ ''_shepherd'' else action @ ''_draft'')"

definition log_action :: "string \<Rightarrow> post_draft \<Rightarrow> string \<Rightarrow> desk \<Rightarrow> desk" where
  "log_action action d notes dk = dk\<lparr>dk_actions := dk_actions dk @ [\<lparr>da_action_type = action_type_for_draft d action,
     da_review_draft = rd_pk d, da_pull_request = rd_pull_request d, da_notes = notes\<rparr>]\<rparr>"

definition approve_draft :: "nat \<Rightarrow> desk \<Rightarrow> answer \<times> desk" where
  "approve_draft pk dk = (case draft_with_pk pk dk of
      None \<Rightarrow> (NotFound, dk)
    | Some d \<Rightarrow> (DraftItem, log_action ''accept'' d []
        (change_draft pk (\<lambda>r. r\<lparr>rd_status := ''accepted'', rd_auto_suppressed := False\<rparr>) dk)))"

text \<open>
  \<open>reject_draft\<close>; a reason becomes an anti-pattern of the draft's project. When
  \<open>record_anti_pattern\<close> raises, the rejection is already saved.
\<close>

definition reject_draft :: "'w surroundings \<Rightarrow> nat \<Rightarrow> string \<Rightarrow> desk \<Rightarrow> answer \<times> desk" where
  "reject_draft env pk reason dk = (case draft_with_pk pk dk of
      None \<Rightarrow> (NotFound, dk)
    | Some d \<Rightarrow>
        (let dk1 = log_action ''reject'' d reason
               (change_draft pk (\<lambda>r. r\<lparr>rd_status := ''rejected'', pd_rejection_reason := reason\<rparr>) dk)
         in if reason = [] then (DraftItem, dk1)
         else (case record_anti_pattern (dk_next_pattern dk1) reason
                 (''Auto-suggested from rejected draft #'' @ nat_str (rd_pk d))
                 (map_option (\<lambda>(pj, _). pj_pk pj) (pull_of env (rd_pull_request d))) (dk_patterns dk1) of
             (Inl e, _) \<Rightarrow> (Crash e, dk1)
           | (Inr ap, patterns) \<Rightarrow> (DraftItem, dk1\<lparr>dk_patterns := patterns,
               dk_next_pattern := max (dk_next_pattern dk1) (Suc (ap_pk ap))\<rparr>))))"

definition edit_draft :: "nat \<Rightarrow> string \<Rightarrow> desk \<Rightarrow> answer \<times> desk" where
  "edit_draft pk new_body dk = (case draft_with_pk pk dk of
      None \<Rightarrow> (NotFound, dk)
    | Some d \<Rightarrow>
        (if new_body \<noteq> [] \<and> new_body \<noteq> pd_comment_body d
         then (DraftItem, log_action ''edit'' d []
           (change_draft pk (\<lambda>r. r\<lparr>rd_status := ''edited'', pd_edited_body := new_body\<rparr>) dk))
         else (DraftItem, dk)))"

section \<open>The views that talk to the forge\<close>

text \<open>
  \<open>recall_draft\<close>. The pull request of a draft exists, by the foreign key. The poster saves the
  draft it was given, so the desk's table is the one it returns.
\<close>

definition recall_draft :: "'w surroundings \<Rightarrow> nat \<Rightarrow> desk \<Rightarrow> 'w \<Rightarrow> answer \<times> desk \<times> 'w" where
  "recall_draft env pk dk w = (case draft_with_pk pk dk of
      None \<Rightarrow> (NotFound, dk, w)
    | Some d \<Rightarrow> (case pull_of env (rd_pull_request d) of
        None \<Rightarrow> (NotFound, dk, w)
      | Some (pj, pr) \<Rightarrow>
          (if rd_status d \<noteq> ''posted'' \<or> \<not> truthy (pd_forge_comment_id d)
           then (DraftItemError ''Cannot recall: not posted.'', dk, w)
           else case posting_client env pr of
               None \<Rightarrow> (DraftItemError ''Cannot recall: no forge client/token configured.'', dk, w)
             | Some f \<Rightarrow> (let (success, table, w1) = recall_comment f pj pr d (dk_drafts dk) w in
                 (if success then DraftItem else DraftItemError ''Recall failed (outside 24h window or API error).'',
                  dk\<lparr>dk_drafts := table\<rparr>, w1)))))"

text \<open>
  The view \<open>post_review\<close>: the classes of the poster's exceptions decide the answer. The refusal
  shows both heads, which the message of the exception holds.
\<close>

definition post_failure :: "exn \<Rightarrow> answer" where
  "post_failure e = (case e of Exn cls message \<Rightarrow>
     if cls = ''StaleHeadError'' then StaleHead message
     else if cls = ''PostUnverifiedError'' then Unverified
     else FailedToPost)"

definition post_review_view :: "'w surroundings \<Rightarrow> nat \<Rightarrow> string \<Rightarrow> desk \<Rightarrow> 'w \<Rightarrow> answer \<times> desk \<times> 'w" where
  "post_review_view env pr_id stale_head dk w = (case pull_of env pr_id of
      None \<Rightarrow> (NotFound, dk, w)
    | Some (pj, pr) \<Rightarrow>
        (let approved = postable_drafts pr_id (dk_drafts dk);
             mode = (if stale_head \<in> set STALE_HEAD_MODES then stale_head else ''refuse'')
         in if approved = [] then (NothingApproved, dk, w)
         else case posting_client env pr of
             None \<Rightarrow> (NoClient, dk, w)
           | Some f \<Rightarrow>
               (let (r, table, w1) = post_review f DEFAULT_ATTRIBUTION (mention_allowlist env) pj pr
                      (Some approved) ''COMMENT'' mode (dk_drafts dk) w
                in (case r of
                      Inl e \<Rightarrow> post_failure e
                    | Inr None \<Rightarrow> NotLanded
                    | Inr (Some result) \<Rightarrow> PostedNote result (length approved),
                    dk\<lparr>dk_drafts := table\<rparr>, w1))))"

section \<open>A run of clicks\<close>

datatype click = Approve nat | Reject nat string | Edit nat string | Recall nat | Post nat string

text \<open>One click: the answer, and the desk and the world after it.\<close>

fun handle :: "'w surroundings \<Rightarrow> click \<Rightarrow> desk \<times> 'w \<Rightarrow> answer \<times> desk \<times> 'w" where
  "handle env (Approve pk) (dk, w) = (let (a, dk1) = approve_draft pk dk in (a, dk1, w))"
| "handle env (Reject pk reason) (dk, w) = (let (a, dk1) = reject_draft env pk reason dk in (a, dk1, w))"
| "handle env (Edit pk body) (dk, w) = (let (a, dk1) = edit_draft pk body dk in (a, dk1, w))"
| "handle env (Recall pk) (dk, w) = recall_draft env pk dk w"
| "handle env (Post pk mode) (dk, w) = post_review_view env pk mode dk w"

end
