(* ===== verification/Alerts.thy ===== *)
theory Alerts
  imports DataModel Signals "HOL-Library.Product_Lexorder"
begin

text \<open>
  Alert mode (\<open>alerts/service.py\<close>, the table \<open>Alert\<close> of \<open>core/models.py\<close>): the sweeps that
  record an alert for a pull request that overlaps the operator's work and for a security
  report that waits, and the batched mail.

  The ledger of alerts is the list of rows. Sending a mail is a parameter on an abstract
  world, since it may fail. Nothing in the overlap check of well-typed rows raises, so the
  handler around it has no branch here.
\<close>

section \<open>Rows and configuration\<close>

record watched_pr = pr_row +
  wp_url :: string
  wp_body :: string
  wp_is_operator_pr :: bool
  wp_interest_score_raw :: rat

record security_report =
  sr_pk :: nat
  sr_project :: "nat option"
  sr_status :: string
  sr_source :: string
  sr_title :: string
  sr_raw_text :: string
  sr_assessed_severity :: string
  sr_created_at :: int

record alert =
  al_alert_type :: string
  al_dedup_key :: string
  al_project :: "nat option"
  al_pull_request :: "nat option"
  al_security_report :: "nat option"
  al_title :: string
  al_reasons :: "string list"
  al_email_sent :: bool
  al_emailed_at :: "int option"
  al_created_at :: int

record project_alerts_config =
  pa_enabled :: bool
  pa_working_overlap :: bool
  pa_security_reports :: bool
  pa_working_paths :: "string list"
  pa_working_keywords :: "string list"

record project_config =
  pg_owner :: string
  pg_repo :: string
  pg_enabled :: bool
  pg_alerts :: project_alerts_config

record alerts_operator =
  ac_enabled :: bool
  ac_email :: string
  ac_security_reports :: bool
  ac_digest_email :: string

record alert_db =
  ad_projects :: "project_ref list"
  ad_pulls :: "watched_pr list"
  ad_reports :: "security_report list"
  ad_alerts :: "alert list"

definition full_name :: "project_ref \<Rightarrow> string" where
  "full_name pj = pj_owner pj @ ''/'' @ pj_repo pj"

definition config_full_name :: "project_config \<Rightarrow> string" where
  "config_full_name pc = pg_owner pc @ ''/'' @ pg_repo pc"

section \<open>Texts\<close>

definition dquote :: char where "dquote = char_of (34 :: nat)"

definition ALERTABLE_REPORT_STATUSES :: "string list" where
  "ALERTABLE_REPORT_STATUSES = [''new'', ''triaging'']"

definition MAX_REASON_FILES :: nat where "MAX_REASON_FILES = 5"

definition format_file_list :: "string list \<Rightarrow> string" where
  "format_file_list files = (let shown = join '', '' (take MAX_REASON_FILES files) in
     if MAX_REASON_FILES < length files then shown @ '' (+'' @ nat_str (length files - MAX_REASON_FILES) @ '' more)'' else shown)"

definition single_line :: "string \<Rightarrow> string" where
  "single_line s = join '' '' (words_acc [] s)"

section \<open>Working overlap\<close>

definition newest_last :: "int option \<Rightarrow> nat \<times> int" where
  "newest_last t = (case t of Some u \<Rightarrow> (0, - u) | None \<Rightarrow> (1, 0))"

definition operator_pulls :: "watched_pr \<Rightarrow> watched_pr list \<Rightarrow> watched_pr list" where
  "operator_pulls pr pulls = sort_key (\<lambda>q. (- pr_interest_score q, - wp_interest_score_raw q, newest_last (pr_github_updated_at q)))
     (filter (\<lambda>q. pr_project q = pr_project pr \<and> pr_state q = ''open'' \<and> wp_is_operator_pr q \<and> pr_pk q \<noteq> pr_pk pr) pulls)"

definition overlap_with :: "string list \<Rightarrow> watched_pr \<Rightarrow> string list" where
  "overlap_with changed q = sorted_set (filter (\<lambda>f. f \<in> set (filter (\<lambda>g. g \<noteq> []) (pr_changed_files q))) changed)"

definition own_pr_reasons :: "string list \<Rightarrow> watched_pr list \<Rightarrow> string list" where
  "own_pr_reasons changed qs = concat (map (\<lambda>q. let overlap = overlap_with changed q in
     if overlap = [] then []
     else [''touches files also changed by your open PR #'' @ int_str (pr_number q) @ '' ('' @ [dquote] @ pr_title q @ [dquote]
       @ ''): '' @ format_file_list overlap]) qs)"

definition path_reasons :: "string list \<Rightarrow> string list \<Rightarrow> string list" where
  "path_reasons changed paths = (let matched = sort (filter (\<lambda>f. list_ex (path_matches f) paths) changed) in
     if matched = [] then [] else [''touches your working paths: '' @ format_file_list matched])"

definition keyword_reasons :: "watched_pr \<Rightarrow> string list \<Rightarrow> string list" where
  "keyword_reasons pr keywords = (let body = lower (pr_title pr @ [newline] @ wp_body pr);
     matched = filter (\<lambda>kw. sublist (lower kw) body) keywords in
     if matched = [] then [] else [''mentions your working keywords: '' @ join '', '' matched])"

definition find_working_overlap_reasons :: "watched_pr list \<Rightarrow> watched_pr \<Rightarrow> project_config \<Rightarrow> string list" where
  "find_working_overlap_reasons pulls pr pc =
     (let changed = filter (\<lambda>f. f \<noteq> []) (pr_changed_files pr); cfg = pg_alerts pc in
      (if changed \<noteq> []
       then own_pr_reasons changed (operator_pulls pr pulls)
         @ (if pa_working_paths cfg \<noteq> [] then path_reasons changed (pa_working_paths cfg) else [])
       else [])
      @ (if pa_working_keywords cfg \<noteq> [] then keyword_reasons pr (pa_working_keywords cfg) else []))"

section \<open>Recording\<close>

text \<open>\<open>get_or_create\<close> on the unique key: the new row, if there was none.\<close>

definition record_alert :: "alert \<Rightarrow> alert list \<Rightarrow> alert option \<times> alert list" where
  "record_alert al rows = (if list_ex (\<lambda>r. al_dedup_key r = al_dedup_key al) rows then (None, rows) else (Some al, rows @ [al]))"

definition pr_alert_key :: "nat \<Rightarrow> string" where "pr_alert_key pk = ''working-overlap:pr:'' @ nat_str pk"
definition report_alert_key :: "nat \<Rightarrow> string" where "report_alert_key pk = ''security-report:report:'' @ nat_str pk"

definition pr_alert :: "int \<Rightarrow> project_ref \<Rightarrow> watched_pr \<Rightarrow> string list \<Rightarrow> alert" where
  "pr_alert now pj pr reasons = \<lparr>al_alert_type = ''working-overlap'', al_dedup_key = pr_alert_key (pr_pk pr),
     al_project = Some (pj_pk pj), al_pull_request = Some (pr_pk pr), al_security_report = None,
     al_title = full_name pj @ ''#'' @ int_str (pr_number pr) @ '' by '' @ pr_author pr @ '': '' @ [dquote] @ pr_title pr @ [dquote],
     al_reasons = reasons, al_email_sent = False, al_emailed_at = None, al_created_at = now\<rparr>"

text \<open>The open pull requests of others without an alert of the type, by number.\<close>

definition pr_candidates :: "nat \<Rightarrow> alert_db \<Rightarrow> watched_pr list" where
  "pr_candidates project d = sort_key pr_number (filter (\<lambda>pr. pr_project pr = project \<and> pr_state pr = ''open'' \<and> \<not> wp_is_operator_pr pr
     \<and> \<not> list_ex (\<lambda>al. al_alert_type al = ''working-overlap'' \<and> al_pull_request al = Some (pr_pk pr)) (ad_alerts d)) (ad_pulls d))"

fun alert_prs :: "int \<Rightarrow> project_ref \<Rightarrow> project_config \<Rightarrow> watched_pr list \<Rightarrow> watched_pr list \<Rightarrow> alert list \<Rightarrow> alert list \<times> alert list" where
  "alert_prs now pj pc pulls [] rows = ([], rows)"
| "alert_prs now pj pc pulls (pr # prs) rows =
     (let reasons = find_working_overlap_reasons pulls pr pc in
      if reasons = [] then alert_prs now pj pc pulls prs rows
      else let (new, rows1) = record_alert (pr_alert now pj pr reasons) rows;
               (created, rows2) = alert_prs now pj pc pulls prs rows1
           in ((case new of Some al \<Rightarrow> al # created | None \<Rightarrow> created), rows2))"

definition project_named :: "string \<Rightarrow> string \<Rightarrow> alert_db \<Rightarrow> project_ref option" where
  "project_named owner repo d = find (\<lambda>pj. pj_owner pj = owner \<and> pj_repo pj = repo) (ad_projects d)"

definition sweep_project :: "int \<Rightarrow> project_config \<Rightarrow> alert_db \<Rightarrow> alert list \<times> alert_db" where
  "sweep_project now pc d =
     (if \<not> pg_enabled pc \<or> \<not> (pa_enabled (pg_alerts pc) \<and> pa_working_overlap (pg_alerts pc)) then ([], d)
      else case project_named (pg_owner pc) (pg_repo pc) d of
        None \<Rightarrow> ([], d)
      | Some pj \<Rightarrow> (let (created, rows) = alert_prs now pj pc (ad_pulls d) (pr_candidates (pj_pk pj) d) (ad_alerts d)
          in (created, d\<lparr>ad_alerts := rows\<rparr>)))"

fun sweep_projects :: "int \<Rightarrow> project_config list \<Rightarrow> alert_db \<Rightarrow> alert list \<times> alert_db" where
  "sweep_projects now [] d = ([], d)"
| "sweep_projects now (pc # pcs) d = (let (created, d1) = sweep_project now pc d; (more, d2) = sweep_projects now pcs d1
     in (created @ more, d2))"

definition sweep_pr_alerts :: "int \<Rightarrow> project_config list \<Rightarrow> alerts_operator \<Rightarrow> alert_db \<Rightarrow> alert list \<times> alert_db" where
  "sweep_pr_alerts now pcs oc d = (if \<not> ac_enabled oc then ([], d) else sweep_projects now pcs d)"

definition project_with_pk :: "nat \<Rightarrow> alert_db \<Rightarrow> project_ref option" where
  "project_with_pk pk d = find (\<lambda>pj. pj_pk pj = pk) (ad_projects d)"

text \<open>
  Whether the report's project is silenced. A later configuration of the same project replaces an
  earlier one, as in the dictionary of the source.
\<close>

definition report_silenced :: "project_config list \<Rightarrow> alert_db \<Rightarrow> security_report \<Rightarrow> bool" where
  "report_silenced pcs d r = (case Option.bind (sr_project r) (\<lambda>pk. project_with_pk pk d) of
      None \<Rightarrow> False
    | Some pj \<Rightarrow> (case find (\<lambda>pc. config_full_name pc = full_name pj) (rev pcs) of
        None \<Rightarrow> False
      | Some pc \<Rightarrow> \<not> (pg_enabled pc \<and> pa_enabled (pg_alerts pc) \<and> pa_security_reports (pg_alerts pc))))"

definition where_waiting :: "security_report \<Rightarrow> string" where
  "where_waiting r = (if sr_status r = ''new'' then ''in the queue'' else ''in triage'')"

definition report_alert :: "int \<Rightarrow> alert_db \<Rightarrow> security_report \<Rightarrow> alert" where
  "report_alert now d r =
     (let project = Option.bind (sr_project r) (\<lambda>pk. project_with_pk pk d);
          title_text = (if single_line (sr_title r) \<noteq> [] then single_line (sr_title r) else take 80 (single_line (sr_raw_text r)));
          reasons = [''status: '' @ sr_status r @ '' ('' @ where_waiting r @ '')'', ''source: '' @ sr_source r]
            @ (if sr_assessed_severity r \<noteq> [] \<and> sr_assessed_severity r \<noteq> ''unknown''
               then [''assessed severity: '' @ sr_assessed_severity r] else [])
            @ (case project of None \<Rightarrow> [] | Some pj \<Rightarrow> [''project: '' @ full_name pj])
      in \<lparr>al_alert_type = ''security-report'', al_dedup_key = report_alert_key (sr_pk r), al_project = sr_project r,
          al_pull_request = None, al_security_report = Some (sr_pk r),
          al_title = ''Security report '' @ where_waiting r @ '': '' @ title_text, al_reasons = reasons,
          al_email_sent = False, al_emailed_at = None, al_created_at = now\<rparr>)"

definition report_candidates :: "alert_db \<Rightarrow> security_report list" where
  "report_candidates d = sort_key sr_created_at (filter (\<lambda>r. sr_status r \<in> set ALERTABLE_REPORT_STATUSES
     \<and> \<not> list_ex (\<lambda>al. al_alert_type al = ''security-report'' \<and> al_security_report al = Some (sr_pk r)) (ad_alerts d)) (ad_reports d))"

fun alert_reports :: "int \<Rightarrow> project_config list \<Rightarrow> alert_db \<Rightarrow> security_report list \<Rightarrow> alert list \<Rightarrow> alert list \<times> alert list" where
  "alert_reports now pcs d [] rows = ([], rows)"
| "alert_reports now pcs d (r # rs) rows =
     (if report_silenced pcs d r then alert_reports now pcs d rs rows
      else let (new, rows1) = record_alert (report_alert now d r) rows;
               (created, rows2) = alert_reports now pcs d rs rows1
           in ((case new of Some al \<Rightarrow> al # created | None \<Rightarrow> created), rows2))"

definition sweep_security_report_alerts :: "int \<Rightarrow> project_config list \<Rightarrow> alerts_operator \<Rightarrow> alert_db \<Rightarrow> alert list \<times> alert_db" where
  "sweep_security_report_alerts now pcs oc d =
     (if \<not> (ac_enabled oc \<and> ac_security_reports oc) then ([], d)
      else let (created, rows) = alert_reports now pcs d (report_candidates d) (ad_alerts d)
        in (created, d\<lparr>ad_alerts := rows\<rparr>))"

section \<open>Mail\<close>

definition alert_email_recipient :: "alerts_operator \<Rightarrow> string" where
  "alert_email_recipient oc = (if strip (ac_email oc) \<noteq> [] then strip (ac_email oc) else strip (ac_digest_email oc))"

definition type_label :: "string \<Rightarrow> string" where
  "type_label t = (if t = ''working-overlap'' then ''Working Overlap''
     else if t = ''security-report'' then ''Security Report'' else t)"

definition alert_lines :: "watched_pr list \<Rightarrow> alert \<Rightarrow> string list" where
  "alert_lines pulls al = [''['' @ type_label (al_alert_type al) @ ''] '' @ al_title al]
     @ map (\<lambda>reason. ''  - '' @ reason) (al_reasons al)
     @ (case Option.bind (al_pull_request al) (\<lambda>pk. find (\<lambda>pr. pr_pk pr = pk) pulls) of
          None \<Rightarrow> [] | Some pr \<Rightarrow> if wp_url pr \<noteq> [] then [''  '' @ wp_url pr] else [])
     @ [[]]"

definition render_alert_email_text :: "watched_pr list \<Rightarrow> alert list \<Rightarrow> string" where
  "render_alert_email_text pulls als = join [newline]
     ([''frank the unicorn spotted '' @ nat_str (length als) @ '' thing(s) that need your attention:'', []]
      @ concat (map (alert_lines pulls) als))"

record mail =
  ml_subject :: string
  ml_message :: string
  ml_recipient :: string

definition alert_subject :: "alert list \<Rightarrow> string" where
  "alert_subject pending = (case pending of
      [al] \<Rightarrow> ''[frank alert] '' @ single_line (al_title al)
    | _ \<Rightarrow> ''[frank alert] '' @ nat_str (length pending) @ '' new alerts'')"

definition pending_alerts :: "alert list \<Rightarrow> alert list" where
  "pending_alerts rows = sort_key al_created_at (filter (\<lambda>al. \<not> al_email_sent al) rows)"

text \<open>
  \<open>send_mail\<close> is \<open>send\<close>: whether the mail was accepted, and the world after it. \<open>bulk_update\<close>
  writes the two columns of the rows with the keys of the batch.
\<close>

definition mark_emailed :: "int \<Rightarrow> alert list \<Rightarrow> alert list \<Rightarrow> alert list" where
  "mark_emailed now batch rows = map (\<lambda>r. if al_dedup_key r \<in> set (map al_dedup_key batch)
     then r\<lparr>al_email_sent := True, al_emailed_at := Some now\<rparr> else r) rows"

definition send_pending_alert_emails :: "(mail \<Rightarrow> 'w \<Rightarrow> bool \<times> 'w) \<Rightarrow> int \<Rightarrow> alerts_operator \<Rightarrow> alert_db \<Rightarrow> 'w \<Rightarrow> nat \<times> alert_db \<times> 'w" where
  "send_pending_alert_emails send now oc d w =
     (if \<not> ac_enabled oc then (0, d, w)
      else let pending = pending_alerts (ad_alerts d) in
      if pending = [] then (0, d, w)
      else let recipient = alert_email_recipient oc in
      if recipient = [] then (0, d, w)
      else let (accepted, w1) = send \<lparr>ml_subject = alert_subject pending,
              ml_message = render_alert_email_text (ad_pulls d) pending, ml_recipient = recipient\<rparr> w in
      if \<not> accepted then (0, d, w1)
      else (length pending, d\<lparr>ad_alerts := mark_emailed now pending (ad_alerts d)\<rparr>, w1))"

definition run_alert_sweep :: "(mail \<Rightarrow> 'w \<Rightarrow> bool \<times> 'w) \<Rightarrow> int \<Rightarrow> project_config list \<Rightarrow> alerts_operator option \<Rightarrow> alert_db \<Rightarrow> 'w \<Rightarrow> alert_db \<times> 'w" where
  "run_alert_sweep send now pcs operator_config d w = (case operator_config of
      None \<Rightarrow> (d, w)
    | Some oc \<Rightarrow> (if \<not> ac_enabled oc then (d, w)
        else let (_, d1) = sweep_pr_alerts now pcs oc d;
                 (_, d2) = sweep_security_report_alerts now pcs oc d1;
                 (_, d3, w1) = send_pending_alert_emails send now oc d2 w
             in (d3, w1)))"

end
