(* ===== verification/AlertProperties.thy ===== *)
theory AlertProperties
  imports Alerts "HOL-Library.Multiset"
begin

text \<open>
  The properties of alert mode: the ledger has one row per pull request and per report, a sweep
  raises exactly the alerts that are due and a second one is silent, and an alert is mailed once,
  as soon as a mail is accepted.
\<close>

section \<open>The ledger\<close>

definition keyed :: "alert \<Rightarrow> bool" where
  "keyed al \<longleftrightarrow> (al_alert_type al = ''working-overlap'' \<and> al_security_report al = None
       \<and> (\<exists>p. al_pull_request al = Some p \<and> al_dedup_key al = pr_alert_key p))
     \<or> (al_alert_type al = ''security-report'' \<and> al_pull_request al = None
       \<and> (\<exists>r. al_security_report al = Some r \<and> al_dedup_key al = report_alert_key r))"

definition ledger_ok :: "alert list \<Rightarrow> bool" where
  "ledger_ok rows \<longleftrightarrow> distinct (map al_dedup_key rows) \<and> (\<forall>al \<in> set rows. keyed al)"

lemma nat_str_inject [simp]: "nat_str m = nat_str n \<longleftrightarrow> m = n"
  using parse_nat_str by (metis option.inject)

lemma keys_differ [simp]:
  "pr_alert_key m = pr_alert_key n \<longleftrightarrow> m = n" "report_alert_key m = report_alert_key n \<longleftrightarrow> m = n"
  "pr_alert_key m \<noteq> report_alert_key n" "report_alert_key m \<noteq> pr_alert_key n"
  by (simp_all add: pr_alert_key_def report_alert_key_def)

lemma new_alert_keyed: "keyed (pr_alert now pj pr reasons)" "keyed (report_alert now d r)"
  by (simp_all add: keyed_def pr_alert_def report_alert_def Let_def)

lemma record_alert_ok:
  assumes "ledger_ok rows" and "keyed al" and "record_alert al rows = (new, rows1)"
  shows "ledger_ok rows1"
proof (cases "\<exists>r \<in> set rows. al_dedup_key r = al_dedup_key al")
  case True
  then have "rows1 = rows" using assms(3) by (simp add: record_alert_def list_ex_iff split: if_splits)
  with assms(1) show ?thesis by simp
next
  case False
  then have "rows1 = rows @ [al]" using assms(3) by (auto simp: record_alert_def list_ex_iff split: if_splits)
  moreover have "al_dedup_key al \<notin> set (map al_dedup_key rows)" using False by (metis imageE set_map)
  ultimately show ?thesis using assms(1,2) unfolding ledger_ok_def by simp
qed

section \<open>A source of alerts\<close>

text \<open>
  What the two sweeps share: for each item that is due, in order, the alert made of it is
  recorded under the item's key.
\<close>

locale alert_source =
  fixes key :: "'x \<Rightarrow> string" and make :: "'x \<Rightarrow> alert" and due :: "'x \<Rightarrow> bool"
    and raise_all :: "'x list \<Rightarrow> alert list \<Rightarrow> alert list \<times> alert list"
  assumes raise_Nil: "raise_all [] rows = ([], rows)"
    and raise_Cons: "raise_all (x # xs) rows = (if due x
      then (let (new, rows1) = record_alert (make x) rows; (created, rows2) = raise_all xs rows1
            in ((case new of Some al \<Rightarrow> al # created | None \<Rightarrow> created), rows2))
      else raise_all xs rows)"
    and make_key: "al_dedup_key (make x) = key x"
    and make_keyed: "keyed (make x)"
    and make_unsent: "\<not> al_email_sent (make x)"
begin

lemma recorded_keys: "record_alert (make x) rows = (new, rows1) \<Longrightarrow> al_dedup_key ` set rows1 = insert (key x) (al_dedup_key ` set rows)"
proof -
  assume r: "record_alert (make x) rows = (new, rows1)"
  show ?thesis
  proof (cases "key x \<in> al_dedup_key ` set rows")
    case True
    then have "rows1 = rows" using r make_key unfolding record_alert_def by (auto simp: list_ex_iff split: if_splits)
    with True show ?thesis by blast
  next
    case False
    then have "rows1 = rows @ [make x]" using r make_key unfolding record_alert_def by (auto simp: list_ex_iff image_iff split: if_splits)
    then show ?thesis by (simp add: make_key)
  qed
qed

lemma raise_all_ok:
  assumes "ledger_ok rows" and "raise_all xs rows = (created, rows1)"
  shows "ledger_ok rows1 \<and> al_dedup_key ` set rows1 = al_dedup_key ` set rows \<union> key ` {x \<in> set xs. due x}"
  using assms
proof (induction xs arbitrary: rows created)
  case Nil
  then show ?case by (simp add: raise_Nil)
next
  case (Cons x xs)
  show ?case
  proof (cases "due x")
    case True
    obtain new rows2 where r: "record_alert (make x) rows = (new, rows2)" by fastforce
    obtain created2 where a: "raise_all xs rows2 = (created2, rows1)"
      using Cons.prems(2) True r by (auto simp: raise_Cons Let_def split: prod.splits)
    from Cons.IH [OF record_alert_ok [OF Cons.prems(1) make_keyed r] a] recorded_keys [OF r] True show ?thesis by auto
  next
    case False
    then have "raise_all xs rows = (created, rows1)" using Cons.prems(2) by (simp add: raise_Cons)
    from Cons.IH [OF Cons.prems(1) this] False show ?thesis by auto
  qed
qed

lemma raise_all_appends:
  "raise_all xs rows = (created, rows1) \<Longrightarrow> rows1 = rows @ created \<and> (\<forall>al \<in> set created. \<not> al_email_sent al)"
proof (induction xs arbitrary: rows created)
  case (Cons x xs)
  show ?case
  proof (cases "due x")
    case True
    obtain new rows2 where r: "record_alert (make x) rows = (new, rows2)" by fastforce
    obtain created2 where a: "raise_all xs rows2 = (created2, rows1)"
      and c: "created = (case new of Some al \<Rightarrow> al # created2 | None \<Rightarrow> created2)"
      using Cons.prems True r by (auto simp: raise_Cons Let_def split: prod.splits)
    show ?thesis using Cons.IH [OF a] c r make_unsent [of x] by (auto simp: record_alert_def split: if_splits)
  next
    case False
    with Cons show ?thesis by (simp add: raise_Cons)
  qed
qed (simp add: raise_Nil)

lemma nothing_due: "\<forall>x \<in> set xs. \<not> due x \<Longrightarrow> raise_all xs rows = ([], rows)"
  by (induction xs) (simp_all add: raise_Nil raise_Cons)

end

interpretation pr_source: alert_source "\<lambda>pr. pr_alert_key (pr_pk pr)"
  "\<lambda>pr. pr_alert now pj pr (find_working_overlap_reasons pulls pr pc)"
  "\<lambda>pr. find_working_overlap_reasons pulls pr pc \<noteq> []" "alert_prs now pj pc pulls"
  for now pj pc pulls
  by unfold_locales (simp_all add: Let_def new_alert_keyed, simp_all add: pr_alert_def)

interpretation report_source: alert_source "\<lambda>r. report_alert_key (sr_pk r)" "report_alert now d"
  "\<lambda>r. \<not> report_silenced pcs d r" "alert_reports now pcs d"
  for now pcs d
  by unfold_locales (simp_all add: Let_def new_alert_keyed, simp_all add: report_alert_def Let_def)

section \<open>Every operation keeps the ledger\<close>

lemma sweep_project_ok: "ledger_ok (ad_alerts d) \<Longrightarrow> sweep_project now pc d = (created, d1) \<Longrightarrow> ledger_ok (ad_alerts d1)"
  by (auto simp: sweep_project_def split: if_splits option.splits prod.splits dest: pr_source.raise_all_ok)

lemma sweep_projects_ok: "ledger_ok (ad_alerts d) \<Longrightarrow> sweep_projects now pcs d = (created, d1) \<Longrightarrow> ledger_ok (ad_alerts d1)"
proof (induction pcs arbitrary: d created d1)
  case (Cons pc pcs)
  then show ?case by (auto simp: Let_def split: prod.splits dest: sweep_project_ok)
qed simp

lemma sweep_pr_ok: "ledger_ok (ad_alerts d) \<Longrightarrow> sweep_pr_alerts now pcs oc d = (created, d1) \<Longrightarrow> ledger_ok (ad_alerts d1)"
  by (auto simp: sweep_pr_alerts_def split: if_splits dest: sweep_projects_ok)

lemma sweep_reports_ok:
  "ledger_ok (ad_alerts d) \<Longrightarrow> sweep_security_report_alerts now pcs oc d = (created, d1) \<Longrightarrow> ledger_ok (ad_alerts d1)"
  by (auto simp: sweep_security_report_alerts_def split: if_splits prod.splits dest: report_source.raise_all_ok)

lemma marked_simps [simp]: "map al_dedup_key (mark_emailed now batch rows) = map al_dedup_key rows"
  by (simp add: mark_emailed_def)

lemma mark_emailed_ok: "ledger_ok rows \<Longrightarrow> ledger_ok (mark_emailed now batch rows)"
  unfolding ledger_ok_def marked_simps by (auto simp: mark_emailed_def keyed_def)

lemma send_ok: "ledger_ok (ad_alerts d) \<Longrightarrow> send_pending_alert_emails send now oc d w = (n, d1, w1) \<Longrightarrow> ledger_ok (ad_alerts d1)"
  by (auto simp: send_pending_alert_emails_def Let_def mark_emailed_ok split: if_splits prod.splits)

lemma run_alert_sweep_on:
  assumes "ac_enabled oc" and "sweep_pr_alerts now pcs oc d = (c1, d1)" and "sweep_security_report_alerts now pcs oc d1 = (c2, d2)"
    and "send_pending_alert_emails send now oc d2 w = (n, d3, w1)"
  shows "run_alert_sweep send now pcs (Some oc) d w = (d3, w1)"
  using assms by (simp add: run_alert_sweep_def)

lemma run_alert_sweep_off: "\<not> ac_enabled oc \<Longrightarrow> run_alert_sweep send now pcs (Some oc) d w = (d, w)"
  by (simp add: run_alert_sweep_def)

lemma run_sweep_ok:
  assumes "ledger_ok (ad_alerts d)" and "run_alert_sweep send now pcs operator_config d w = (d1, w1)"
  shows "ledger_ok (ad_alerts d1)"
proof (cases operator_config)
  case None
  with assms show ?thesis by (simp add: run_alert_sweep_def)
next
  case (Some oc)
  show ?thesis
  proof (cases "ac_enabled oc")
    case True
    obtain c1 d2 where s1: "sweep_pr_alerts now pcs oc d = (c1, d2)" by fastforce
    obtain c2 d3 where s2: "sweep_security_report_alerts now pcs oc d2 = (c2, d3)" by fastforce
    obtain n d4 w2 where s3: "send_pending_alert_emails send now oc d3 w = (n, d4, w2)" by (metis prod_cases3)
    have "d4 = d1" using assms(2) Some run_alert_sweep_on [OF True s1 s2 s3] by simp
    with send_ok [OF sweep_reports_ok [OF sweep_pr_ok [OF assms(1) s1] s2] s3] show ?thesis by simp
  qed (use assms Some run_alert_sweep_off [of oc send now pcs d w] in auto)
qed

section \<open>What a sweep raises\<close>

definition has_pr_alert :: "nat \<Rightarrow> alert list \<Rightarrow> bool" where
  "has_pr_alert pk rows \<longleftrightarrow> (\<exists>al \<in> set rows. al_alert_type al = ''working-overlap'' \<and> al_pull_request al = Some pk)"

lemma keyed_pr:
  assumes "keyed al"
  shows "al_alert_type al = ''working-overlap'' \<and> al_pull_request al = Some pk \<longleftrightarrow> al_dedup_key al = pr_alert_key pk"
proof -
  from assms consider p where "al_alert_type al = ''working-overlap''" "al_pull_request al = Some p" "al_dedup_key al = pr_alert_key p"
    | r where "al_pull_request al = None" "al_dedup_key al = report_alert_key r"
    unfolding keyed_def by blast
  then show ?thesis
  proof cases
    case 1
    then show ?thesis by (simp only: option.inject keys_differ simp_thms)
  next
    case 2
    then show ?thesis by (simp only: option.simps keys_differ simp_thms)
  qed
qed

lemma has_pr_alert_key:
  assumes "ledger_ok rows"
  shows "has_pr_alert pk rows \<longleftrightarrow> pr_alert_key pk \<in> al_dedup_key ` set rows"
proof -
  have "\<forall>al \<in> set rows. (al_alert_type al = ''working-overlap'' \<and> al_pull_request al = Some pk) = (al_dedup_key al = pr_alert_key pk)"
    using assms keyed_pr unfolding ledger_ok_def by blast
  then have "has_pr_alert pk rows = (\<exists>al \<in> set rows. al_dedup_key al = pr_alert_key pk)"
    unfolding has_pr_alert_def by (intro bex_cong refl) (erule bspec)
  then show ?thesis unfolding image_iff by (simp only: eq_commute)
qed

lemma alert_prs_raises:
  assumes "ledger_ok rows" and "alert_prs now pj pc pulls prs rows = (created, rows1)"
  shows "has_pr_alert pk rows1 \<longleftrightarrow> has_pr_alert pk rows \<or> (\<exists>pr \<in> set prs. pr_pk pr = pk \<and> find_working_overlap_reasons pulls pr pc \<noteq> [])"
  using pr_source.raise_all_ok [OF assms] has_pr_alert_key [OF assms(1)] has_pr_alert_key [of rows1 pk] by auto

text \<open>A pull request is due an alert from a configuration of its project.\<close>

definition due :: "project_config \<Rightarrow> alert_db \<Rightarrow> watched_pr \<Rightarrow> bool" where
  "due pc d pr \<longleftrightarrow> pg_enabled pc \<and> pa_enabled (pg_alerts pc) \<and> pa_working_overlap (pg_alerts pc)
     \<and> (\<exists>pj. project_named (pg_owner pc) (pg_repo pc) d = Some pj \<and> pr_project pr = pj_pk pj)
     \<and> pr \<in> set (ad_pulls d) \<and> pr_state pr = ''open'' \<and> \<not> wp_is_operator_pr pr
     \<and> find_working_overlap_reasons (ad_pulls d) pr pc \<noteq> []"

lemma set_candidates: "set (pr_candidates project d) = {pr \<in> set (ad_pulls d). pr_project pr = project \<and> pr_state pr = ''open''
    \<and> \<not> wp_is_operator_pr pr \<and> \<not> has_pr_alert (pr_pk pr) (ad_alerts d)}"
  by (auto simp: pr_candidates_def has_pr_alert_def list_ex_iff)

lemma sweep_project_raises:
  assumes "ledger_ok (ad_alerts d)" and "sweep_project now pc d = (created, d1)"
  shows "has_pr_alert pk (ad_alerts d1) \<longleftrightarrow> has_pr_alert pk (ad_alerts d) \<or> (\<exists>pr. due pc d pr \<and> pr_pk pr = pk)"
proof -
  define off where "off \<longleftrightarrow> \<not> pg_enabled pc \<or> \<not> (pa_enabled (pg_alerts pc) \<and> pa_working_overlap (pg_alerts pc))"
  show ?thesis
  proof (cases "off \<or> project_named (pg_owner pc) (pg_repo pc) d = None")
    case True
    then have "\<not> due pc d pr" for pr unfolding due_def off_def by auto
    moreover have "d1 = d" using assms(2) True unfolding sweep_project_def off_def by (auto split: if_splits)
    ultimately show ?thesis by simp
  next
    case False
    then obtain pj where pj: "project_named (pg_owner pc) (pg_repo pc) d = Some pj" by blast
    obtain created2 rows where a: "alert_prs now pj pc (ad_pulls d) (pr_candidates (pj_pk pj) d) (ad_alerts d) = (created2, rows)"
      by fastforce
    have d1: "ad_alerts d1 = rows" using assms(2) False pj a unfolding sweep_project_def off_def by (auto split: if_splits)
    have on: "pg_enabled pc" "pa_enabled (pg_alerts pc)" "pa_working_overlap (pg_alerts pc)" using False unfolding off_def by blast+
    have due: "due pc d pr \<longleftrightarrow> pr_project pr = pj_pk pj \<and> pr \<in> set (ad_pulls d) \<and> pr_state pr = ''open'' \<and> \<not> wp_is_operator_pr pr
        \<and> find_working_overlap_reasons (ad_pulls d) pr pc \<noteq> []" for pr
      using on pj unfolding due_def by auto
    show ?thesis unfolding d1 alert_prs_raises [OF assms(1) a] set_candidates due by blast
  qed
qed

lemma sweep_project_frame: "sweep_project now pc d = (created, d1) \<Longrightarrow> ad_pulls d1 = ad_pulls d \<and> ad_projects d1 = ad_projects d \<and> ad_reports d1 = ad_reports d"
  by (auto simp: sweep_project_def split: if_splits option.splits prod.splits)

lemma due_frame: "ad_pulls d1 = ad_pulls d \<Longrightarrow> ad_projects d1 = ad_projects d \<Longrightarrow> due pc d1 pr = due pc d pr"
  by (simp add: due_def project_named_def)

lemma sweep_projects_raises:
  "ledger_ok (ad_alerts d) \<Longrightarrow> sweep_projects now pcs d = (created, d1) \<Longrightarrow>
     has_pr_alert pk (ad_alerts d1) \<longleftrightarrow> has_pr_alert pk (ad_alerts d) \<or> (\<exists>pc \<in> set pcs. \<exists>pr. due pc d pr \<and> pr_pk pr = pk)"
proof (induction pcs arbitrary: d created d1)
  case (Cons pc pcs)
  obtain created2 d2 where s: "sweep_project now pc d = (created2, d2)" by fastforce
  obtain created3 where t: "sweep_projects now pcs d2 = (created3, d1)" using Cons.prems(2) s by (auto split: prod.splits)
  note frame = sweep_project_frame [OF s]
  have "due pc' d2 pr = due pc' d pr" for pc' pr using due_frame frame by blast
  with Cons.IH [OF sweep_project_ok [OF Cons.prems(1) s] t] sweep_project_raises [OF Cons.prems(1) s, of pk] show ?case by auto
qed simp

section \<open>What a sweep raises, for reports\<close>

definition has_report_alert :: "nat \<Rightarrow> alert list \<Rightarrow> bool" where
  "has_report_alert pk rows \<longleftrightarrow> (\<exists>al \<in> set rows. al_alert_type al = ''security-report'' \<and> al_security_report al = Some pk)"

lemma keyed_report:
  assumes "keyed al"
  shows "al_alert_type al = ''security-report'' \<and> al_security_report al = Some pk \<longleftrightarrow> al_dedup_key al = report_alert_key pk"
proof -
  from assms consider p where "al_security_report al = None" "al_dedup_key al = pr_alert_key p"
    | r where "al_alert_type al = ''security-report''" "al_security_report al = Some r" "al_dedup_key al = report_alert_key r"
    unfolding keyed_def by blast
  then show ?thesis by cases (simp_all only: option.simps keys_differ simp_thms)
qed

lemma has_report_alert_key:
  assumes "ledger_ok rows"
  shows "has_report_alert pk rows \<longleftrightarrow> report_alert_key pk \<in> al_dedup_key ` set rows"
proof -
  have "\<forall>al \<in> set rows. (al_alert_type al = ''security-report'' \<and> al_security_report al = Some pk) = (al_dedup_key al = report_alert_key pk)"
    using assms keyed_report unfolding ledger_ok_def by blast
  then have "has_report_alert pk rows = (\<exists>al \<in> set rows. al_dedup_key al = report_alert_key pk)"
    unfolding has_report_alert_def by (intro bex_cong refl) (erule bspec)
  then show ?thesis unfolding image_iff by (simp only: eq_commute)
qed

lemma set_report_candidates: "set (report_candidates d) = {r \<in> set (ad_reports d). sr_status r \<in> set ALERTABLE_REPORT_STATUSES
    \<and> \<not> has_report_alert (sr_pk r) (ad_alerts d)}"
  by (auto simp: report_candidates_def has_report_alert_def list_ex_iff)

lemma report_sweep_shape:
  assumes "ac_enabled oc \<and> ac_security_reports oc"
  shows "sweep_security_report_alerts now pcs oc d = (let (created, rows) = alert_reports now pcs d (report_candidates d) (ad_alerts d)
    in (created, d\<lparr>ad_alerts := rows\<rparr>))"
  using assms by (simp add: sweep_security_report_alerts_def)

lemma sweep_reports_raises:
  assumes "ledger_ok (ad_alerts d)" and "sweep_security_report_alerts now pcs oc d = (created, d1)"
  shows "has_report_alert pk (ad_alerts d1) \<longleftrightarrow> has_report_alert pk (ad_alerts d) \<or> (ac_enabled oc \<and> ac_security_reports oc
    \<and> (\<exists>r \<in> set (ad_reports d). sr_pk r = pk \<and> sr_status r \<in> set ALERTABLE_REPORT_STATUSES \<and> \<not> report_silenced pcs d r))"
proof (cases "ac_enabled oc \<and> ac_security_reports oc")
  case True
  obtain created2 rows where a: "alert_reports now pcs d (report_candidates d) (ad_alerts d) = (created2, rows)" by fastforce
  have d1: "ad_alerts d1 = rows" using assms(2) a unfolding report_sweep_shape [OF True] by auto
  show ?thesis
    using report_source.raise_all_ok [OF assms(1) a] has_report_alert_key [OF assms(1)] has_report_alert_key [of rows pk] True
    unfolding d1 set_report_candidates by auto
next
  case False
  then have "d1 = d" using assms(2) by (auto simp: sweep_security_report_alerts_def split: if_splits)
  with False show ?thesis by auto
qed

lemma sweep_reports_frame:
  "sweep_security_report_alerts now pcs oc d = (created, d1) \<Longrightarrow> ad_pulls d1 = ad_pulls d \<and> ad_projects d1 = ad_projects d \<and> ad_reports d1 = ad_reports d"
  by (auto simp: sweep_security_report_alerts_def split: if_splits prod.splits)

lemma sweep_projects_frame:
  "sweep_projects now pcs d = (created, d1) \<Longrightarrow> ad_pulls d1 = ad_pulls d \<and> ad_projects d1 = ad_projects d \<and> ad_reports d1 = ad_reports d"
proof (induction pcs arbitrary: d created)
  case (Cons pc pcs)
  obtain created2 d2 where s: "sweep_project now pc d = (created2, d2)" by fastforce
  obtain created3 where "sweep_projects now pcs d2 = (created3, d1)" using Cons.prems s by (auto split: prod.splits)
  from Cons.IH [OF this] sweep_project_frame [OF s] show ?case by simp
qed simp

lemma reports_keep_pr_alerts:
  assumes "ledger_ok (ad_alerts d)" and "sweep_security_report_alerts now pcs oc d = (created, d1)" and "has_pr_alert pk (ad_alerts d)"
  shows "has_pr_alert pk (ad_alerts d1)"
proof (cases "ac_enabled oc \<and> ac_security_reports oc")
  case True
  obtain created2 rows where a: "alert_reports now pcs d (report_candidates d) (ad_alerts d) = (created2, rows)" by fastforce
  have d1: "ad_alerts d1 = rows" using assms(2) a unfolding report_sweep_shape [OF True] by auto
  show ?thesis
    using report_source.raise_all_ok [OF assms(1) a] has_pr_alert_key [OF assms(1)] has_pr_alert_key [of rows pk] assms(3)
    unfolding d1 by auto
next
  case False
  then have "d1 = d" using assms(2) by (auto simp: sweep_security_report_alerts_def split: if_splits)
  with assms(3) show ?thesis by simp
qed

section \<open>A second sweep\<close>

lemma silent_project:
  assumes "\<forall>pr. due pc d pr \<longrightarrow> has_pr_alert (pr_pk pr) (ad_alerts d)"
  shows "sweep_project now pc d = ([], d)"
proof -
  have "alert_prs now pj pc (ad_pulls d) (pr_candidates (pj_pk pj) d) (ad_alerts d) = ([], ad_alerts d)"
    if "pg_enabled pc" "pa_enabled (pg_alerts pc)" "pa_working_overlap (pg_alerts pc)"
      "project_named (pg_owner pc) (pg_repo pc) d = Some pj" for pj
    using assms that unfolding due_def by (intro pr_source.nothing_due) (auto simp: set_candidates)
  then show ?thesis by (auto simp: sweep_project_def split: option.split)
qed

lemma silent_projects:
  "\<forall>pc \<in> set pcs. \<forall>pr. due pc d pr \<longrightarrow> has_pr_alert (pr_pk pr) (ad_alerts d) \<Longrightarrow> sweep_projects now pcs d = ([], d)"
  by (induction pcs) (simp_all add: silent_project)

lemma silent_reports:
  assumes "\<forall>r \<in> set (ad_reports d). sr_status r \<in> set ALERTABLE_REPORT_STATUSES \<longrightarrow> \<not> report_silenced pcs d r \<longrightarrow> has_report_alert (sr_pk r) (ad_alerts d)"
  shows "sweep_security_report_alerts now pcs oc d = ([], d)"
proof -
  have "alert_reports now pcs d (report_candidates d) (ad_alerts d) = ([], ad_alerts d)"
    using assms by (intro report_source.nothing_due) (auto simp: set_report_candidates)
  then show ?thesis by (simp add: sweep_security_report_alerts_def)
qed

lemma silenced_frame: "ad_projects d1 = ad_projects d \<Longrightarrow> report_silenced pcs d1 r = report_silenced pcs d r"
  by (simp add: report_silenced_def project_with_pk_def)

text \<open>
  An alert is raised exactly when it is due. After a sweep of the pull requests a pull request
  has a working-overlap alert exactly when it had one before, or alert mode is on and some
  configuration of its project, with its switches on, finds a reason in it while it is open and
  not the operator's.
\<close>

theorem alerts_raised_exactly:
  assumes "ledger_ok (ad_alerts d)" and "sweep_pr_alerts now pcs oc d = (created, d1)"
  shows "has_pr_alert pk (ad_alerts d1) \<longleftrightarrow> has_pr_alert pk (ad_alerts d)
    \<or> ac_enabled oc \<and> (\<exists>pc \<in> set pcs. \<exists>pr. due pc d pr \<and> pr_pk pr = pk)"
  using assms sweep_projects_raises [OF assms(1), of now pcs created d1 pk] by (auto simp: sweep_pr_alerts_def split: if_splits)

text \<open>
  A second sweep is silent. Whatever the first sweeps of the pull requests and the reports
  raised, the same sweeps over the same rows, at any later time, raise nothing and change nothing.
\<close>

theorem second_sweep_silent:
  assumes "ledger_ok (ad_alerts d)" and "sweep_pr_alerts now pcs oc d = (created, d1)"
    and "sweep_security_report_alerts now pcs oc d1 = (created2, d2)"
  shows "sweep_pr_alerts later pcs oc d2 = ([], d2) \<and> sweep_security_report_alerts later pcs oc d2 = ([], d2)"
proof
  note ok1 = sweep_pr_ok [OF assms(1,2)]
  note frame2 = sweep_reports_frame [OF assms(3)]
  have frame1: "ad_pulls d1 = ad_pulls d \<and> ad_projects d1 = ad_projects d \<and> ad_reports d1 = ad_reports d"
    using assms(2) sweep_projects_frame by (fastforce simp: sweep_pr_alerts_def split: if_splits)
  show "sweep_pr_alerts later pcs oc d2 = ([], d2)"
  proof (cases "ac_enabled oc")
    case True
    then have s: "sweep_projects now pcs d = (created, d1)" using assms(2) by (simp add: sweep_pr_alerts_def)
    have "has_pr_alert (pr_pk pr) (ad_alerts d2)" if "pc \<in> set pcs" "due pc d2 pr" for pc pr
    proof -
      have "due pc d pr" using that(2) due_frame [of d2 d] frame1 frame2 by simp
      then have "has_pr_alert (pr_pk pr) (ad_alerts d1)" using sweep_projects_raises [OF assms(1) s] that(1) by blast
      then show ?thesis by (rule reports_keep_pr_alerts [OF ok1 assms(3)])
    qed
    with True show ?thesis by (simp add: sweep_pr_alerts_def silent_projects)
  qed (simp add: sweep_pr_alerts_def)
  show "sweep_security_report_alerts later pcs oc d2 = ([], d2)"
  proof (cases "ac_enabled oc \<and> ac_security_reports oc")
    case True
    have "has_report_alert (sr_pk r) (ad_alerts d2)"
      if "r \<in> set (ad_reports d2)" "sr_status r \<in> set ALERTABLE_REPORT_STATUSES" "\<not> report_silenced pcs d2 r" for r
      using sweep_reports_raises [OF ok1 assms(3)] that frame2 silenced_frame [of d2 d1] True by auto
    then show ?thesis by (intro silent_reports) blast
  qed (auto simp: sweep_security_report_alerts_def)
qed

section \<open>One alert each, mailed once\<close>

text \<open>
  C21: One alert each. A poll cycle keeps the ledger in order: afterwards no pull request and no
  report has two rows, whatever the sweeps raised and whether or not the mail was accepted.
\<close>

theorem one_alert_each:
  assumes "ledger_ok (ad_alerts d)" and "run_alert_sweep send now pcs operator_config d w = (d1, w1)"
    and "a \<in> set (ad_alerts d1)" and "b \<in> set (ad_alerts d1)"
    and "al_pull_request a = Some p \<and> al_pull_request b = Some p \<or> al_security_report a = Some p \<and> al_security_report b = Some p"
  shows "a = b"
proof -
  have ok: "ledger_ok (ad_alerts d1)" using run_sweep_ok [OF assms(1,2)] .
  then have "keyed a" "keyed b" using assms(3,4) unfolding ledger_ok_def by blast+
  then have "al_dedup_key a = al_dedup_key b"
    using assms(5) unfolding keyed_def by (elim disjE conjE exE) simp_all
  with ok assms(3,4) show ?thesis unfolding ledger_ok_def distinct_map inj_on_def by blast
qed

















section \<open>A sample\<close>

definition sample_watched :: "nat \<Rightarrow> bool \<Rightarrow> watched_pr" where
  "sample_watched pk own = pr_row.extend (sample_pr\<lparr>pr_pk := pk\<rparr>) (watched_pr.fields ''u'' ''body'' own 0)"

definition sample_report :: security_report where
  "sample_report = \<lparr>sr_pk = 5, sr_project = None, sr_status = ''new'', sr_source = ''email'', sr_title = [],
     sr_raw_text = ''heap'' @ [newline] @ ''overflow'', sr_assessed_severity = [], sr_created_at = 0\<rparr>"

definition sample_alert_db :: alert_db where
  "sample_alert_db = \<lparr>ad_projects = [\<lparr>pj_pk = 7, pj_owner = ''o'', pj_repo = ''r''\<rparr>],
     ad_pulls = [sample_watched 1 False, sample_watched 2 True], ad_reports = [sample_report], ad_alerts = []\<rparr>"

definition sample_config :: project_config where
  "sample_config = \<lparr>pg_owner = ''o'', pg_repo = ''r'', pg_enabled = True, pg_alerts = \<lparr>pa_enabled = True,
     pa_working_overlap = True, pa_security_reports = True, pa_working_paths = [], pa_working_keywords = []\<rparr>\<rparr>"

definition sample_operator :: alerts_operator where
  "sample_operator = \<lparr>ac_enabled = True, ac_email = ''me'', ac_security_reports = True, ac_digest_email = []\<rparr>"

text \<open>A mail server with a script of its answers.\<close>

definition scripted :: "mail \<Rightarrow> bool list \<Rightarrow> bool \<times> bool list" where
  "scripted m answers = (case answers of [] \<Rightarrow> (False, []) | a # rest \<Rightarrow> (a, rest))"


lemma sample_ledger: "ledger_ok (ad_alerts sample_alert_db)"
  by (simp add: ledger_ok_def sample_alert_db_def)

theorem alerts_raised_exactly_witness:
  "has_pr_alert 1 (ad_alerts (snd (sweep_pr_alerts 10 [sample_config] sample_operator sample_alert_db)))"
proof -
  obtain created d1 where s: "sweep_pr_alerts 10 [sample_config] sample_operator sample_alert_db = (created, d1)" by fastforce
  have "project_named (pg_owner sample_config) (pg_repo sample_config) sample_alert_db = Some \<lparr>pj_pk = 7, pj_owner = ''o'', pj_repo = ''r''\<rparr>"
    "find_working_overlap_reasons (ad_pulls sample_alert_db) (sample_watched 1 False) sample_config \<noteq> []"
    "pg_enabled sample_config" "pa_enabled (pg_alerts sample_config)" "pa_working_overlap (pg_alerts sample_config)"
    "pr_project (sample_watched 1 False) = 7" "pr_state (sample_watched 1 False) = ''open''" "\<not> wp_is_operator_pr (sample_watched 1 False)"
    by code_simp+
  moreover have "sample_watched 1 False \<in> set (ad_pulls sample_alert_db)" by (simp add: sample_alert_db_def)
  ultimately have "due sample_config sample_alert_db (sample_watched 1 False)" unfolding due_def by auto
  moreover have "pr_pk (sample_watched 1 False) = 1" "ac_enabled sample_operator" by code_simp+
  ultimately have "ac_enabled sample_operator \<and> (\<exists>pc \<in> set [sample_config]. \<exists>pr. due pc sample_alert_db pr \<and> pr_pk pr = 1)" by auto
  with alerts_raised_exactly [OF sample_ledger s, of 1] show ?thesis unfolding s by simp
qed

theorem second_sweep_silent_witness:
  "fst (sweep_pr_alerts 20 [sample_config] sample_operator (snd (sweep_security_report_alerts 10 [sample_config] sample_operator
     (snd (sweep_pr_alerts 10 [sample_config] sample_operator sample_alert_db))))) = []"
proof -
  obtain c1 d1 where s1: "sweep_pr_alerts 10 [sample_config] sample_operator sample_alert_db = (c1, d1)" by fastforce
  obtain c2 d2 where s2: "sweep_security_report_alerts 10 [sample_config] sample_operator d1 = (c2, d2)" by fastforce
  from second_sweep_silent [OF sample_ledger s1 s2, of 20] show ?thesis by (simp add: s1 s2)
qed

lemma sample_swept: "map al_dedup_key (ad_alerts (fst (run_alert_sweep scripted 10 [sample_config] (Some sample_operator) sample_alert_db [False])))
    = [''working-overlap:pr:1'', ''security-report:report:5'']"
  by code_simp

theorem one_alert_each_witness:
  "al_dedup_key (hd (filter (\<lambda>a. al_pull_request a = Some 1)
     (ad_alerts (fst (run_alert_sweep scripted 10 [sample_config] (Some sample_operator) sample_alert_db [False]))))) = ''working-overlap:pr:1''"
proof -
  obtain d1 w1 where s: "run_alert_sweep scripted 10 [sample_config] (Some sample_operator) sample_alert_db [False] = (d1, w1)" by fastforce
  have keys: "map al_dedup_key (ad_alerts d1) = [''working-overlap:pr:1'', ''security-report:report:5'']" using sample_swept s by simp
  have "al_pull_request (hd (ad_alerts (fst (run_alert_sweep scripted 10 [sample_config] (Some sample_operator) sample_alert_db [False])))) = Some 1"
    by code_simp
  then have b: "al_pull_request (hd (ad_alerts d1)) = Some 1" using s by simp
  have h: "hd (ad_alerts d1) \<in> set (ad_alerts d1)" "al_dedup_key (hd (ad_alerts d1)) = ''working-overlap:pr:1''"
    using keys by (cases "ad_alerts d1"; simp)+
  have e: "a = hd (ad_alerts d1)" if "a \<in> set (ad_alerts d1)" "al_pull_request a = Some 1" for a
    using one_alert_each [OF sample_ledger s that(1) h(1)] that(2) b by blast
  define f where "f = filter (\<lambda>a. al_pull_request a = Some 1) (ad_alerts d1)"
  have "hd (ad_alerts d1) \<in> set f" using h(1) b by (simp add: f_def)
  then have "hd f \<in> set f" by (cases f) simp_all
  then have "hd f = hd (ad_alerts d1)" using e by (simp add: f_def)
  then show ?thesis using h(2) s by (simp add: f_def)
qed


text \<open>A title with line breaks does not keep the mail from being built: the subject is one line.\<close>

lemma words_acc_chars: "list_all (\<lambda>c. \<not> is_space c) acc \<Longrightarrow> w \<in> set (words_acc acc s) \<Longrightarrow> list_all (\<lambda>c. \<not> is_space c) w"
  by (induction acc s rule: words_acc.induct) (auto split: if_splits)

lemma join_space_chars: "c \<in> set (join '' '' ws) \<Longrightarrow> c = CHR '' '' \<or> (\<exists>w \<in> set ws. c \<in> set w)"
proof (induction ws)
  case (Cons w ws)
  then show ?case by (cases ws) auto
qed simp

lemma subject_is_one_line: "newline \<notin> set (single_line s)"
proof
  assume "newline \<in> set (single_line s)"
  then obtain w where "w \<in> set (words_acc [] s)" "newline \<in> set w" unfolding single_line_def using join_space_chars by fastforce
  moreover have "is_space newline" by code_simp
  ultimately show False using words_acc_chars [of "[]" w s] by (simp add: list_all_iff)
qed

end
