(* ===== verification/VersionVerdicts.thy ===== *)
theory VersionVerdicts
  imports JsonCandidates "HOL-Library.List_Lexorder" "HOL-Library.Char_ord" "HOL-Library.Product_Lexorder"
begin

text \<open>
  What the security verifier makes of an agent's answer about one branch, and how the answers of
  all branches become one table of release lines (\<open>security/verifier.py\<close>: \<open>parse_verdict\<close>,
  \<open>parse_version_impact\<close>, \<open>version_rollup\<close>, \<open>VerificationRun\<close>).

  A row of the breakdown is a \<open>json\<close>, since the table also reads what older code left in the
  database. Confidences are finite, so the test for it has no branch.
\<close>

section \<open>Results\<close>

record branch_result =
  br_branch :: string
  br_commit :: string
  br_verdict :: string
  br_confidence :: "rat option"
  br_summary :: string
  br_evidence :: "string list"
  br_version_impact :: json
  br_raw_output :: string
  br_duration_seconds :: rat
  br_agent :: string

definition blank_result :: branch_result where
  "blank_result = \<lparr>br_branch = [], br_commit = [], br_verdict = ''unclear'', br_confidence = None, br_summary = [],
     br_evidence = [], br_version_impact = JList [], br_raw_output = [], br_duration_seconds = 0, br_agent = []\<rparr>"

record verification_run =
  vr_results :: "branch_result list"
  vr_error :: string
  vr_branches_considered :: "string list"
  vr_injection_hits :: "string list"
  vr_stale_warning :: string

definition blank_run :: verification_run where
  "blank_run = \<lparr>vr_results = [], vr_error = [], vr_branches_considered = [], vr_injection_hits = [], vr_stale_warning = []\<rparr>"

text \<open>\<open>str(d.get(k, dflt))\<close>: the default is taken only when the key is missing.\<close>

definition str_get :: "string \<Rightarrow> jdict \<Rightarrow> string \<Rightarrow> string" where
  "str_get dflt d k = (case map_of d k of None \<Rightarrow> dflt | Some v \<Rightarrow> py_str v)"

section \<open>The breakdown of one answer\<close>

definition MAX_VERSION_ENTRIES :: nat where "MAX_VERSION_ENTRIES = 12"
definition MAX_VERSION_NAME_CHARS :: nat where "MAX_VERSION_NAME_CHARS = 60"
definition MAX_VERSION_REASON_CHARS :: nat where "MAX_VERSION_REASON_CHARS = 300"

definition VERSION_STATUS_ALIASES :: "(string \<times> string) list" where
  "VERSION_STATUS_ALIASES = [(''affected'', ''affected''), (''vulnerable'', ''affected''), (''impacted'', ''affected''),
     (''not-affected'', ''not-affected''), (''not affected'', ''not-affected''), (''notaffected'', ''not-affected''),
     (''unaffected'', ''not-affected''), (''fixed'', ''not-affected''), (''patched'', ''not-affected''),
     (''unclear'', ''unclear''), (''unknown'', ''unclear''), (''undetermined'', ''unclear'')]"

definition version_row :: "string \<Rightarrow> string \<Rightarrow> string \<Rightarrow> json" where
  "version_row name status reason = JObj [(''name'', JStr name), (''status'', JStr status), (''reason'', JStr reason)]"

definition entry_name :: "jdict \<Rightarrow> string" where
  "entry_name item = take MAX_VERSION_NAME_CHARS (strip (str_get [] item ''name''))"

definition entry_row :: "jdict \<Rightarrow> json" where
  "entry_row item = version_row (entry_name item)
     (dict_get ''unclear'' VERSION_STATUS_ALIASES (lower (strip (str_get [] item ''status''))))
     (take MAX_VERSION_REASON_CHARS (join '' '' (words_acc [] (str_get [] item ''reason''))))"

text \<open>The loop; \<open>n\<close> is the number of rows so far, \<open>seen\<close> their names.\<close>

fun impact_rows :: "nat \<Rightarrow> string list \<Rightarrow> json list \<Rightarrow> json list" where
  "impact_rows n seen [] = []"
| "impact_rows n seen (JObj item # items) =
     (let name = entry_name item in
      if name = [] \<or> lower name \<in> set seen then impact_rows n seen items
      else entry_row item # (if MAX_VERSION_ENTRIES \<le> Suc n then [] else impact_rows (Suc n) (lower name # seen) items))"
| "impact_rows n seen (_ # items) = impact_rows n seen items"

definition parse_version_impact :: "json \<Rightarrow> json list" where
  "parse_version_impact raw = (case raw of JList items \<Rightarrow> impact_rows 0 [] items | _ \<Rightarrow> [])"

section \<open>The verdict of one answer\<close>

definition VERDICT_CHOICES :: "string list" where
  "VERDICT_CHOICES = [''affected'', ''not-affected'', ''unclear'', ''error'']"

text \<open>
  The object that is read: the first candidate with a verdict, else the first object.
\<close>

fun pick_verdict :: "jdict option \<Rightarrow> string list \<Rightarrow> jdict option" where
  "pick_verdict found [] = found"
| "pick_verdict found (blob # blobs) = (case json_loads blob of
     Some (JObj d) \<Rightarrow> (if ''verdict'' \<in> fst ` set d then Some d
       else pick_verdict (if found = None then Some d else found) blobs)
   | _ \<Rightarrow> pick_verdict found blobs)"

definition known_verdict :: "string \<Rightarrow> string" where
  "known_verdict v = (if v \<in> set VERDICT_CHOICES then v else ''unclear'')"

definition read_confidence :: "json \<Rightarrow> rat option" where
  "read_confidence v = (case v of
      JInt i \<Rightarrow> Some (max 0 (min 1 (of_int i)))
    | JFloat x \<Rightarrow> Some (max 0 (min 1 x))
    | _ \<Rightarrow> None)"

definition evidence_lines :: "json \<Rightarrow> string list" where
  "evidence_lines v = (case v of JList items \<Rightarrow> filter (\<lambda>s. strip s \<noteq> []) (map py_str items) | _ \<Rightarrow> [])"

definition verdict_summary :: "jdict \<Rightarrow> string" where
  "verdict_summary parsed =
     (let summary = strip (str_get [] parsed ''summary'');
          preconditions = strip (str_get [] parsed ''exploit_preconditions'');
          s1 = (if preconditions \<noteq> [] then strip (summary @ [newline, newline] @ ''Preconditions: '' @ preconditions) else summary)
      in if jget parsed ''fix_present'' = JBool True
         then strip (s1 @ [newline, newline] @ ''The agent reports this branch already mitigates it.'') else s1)"

definition read_verdict :: "jdict \<Rightarrow> branch_result" where
  "read_verdict parsed = blank_result\<lparr>br_verdict := known_verdict (lower (strip (str_get [] parsed ''verdict''))),
     br_confidence := read_confidence (jget parsed ''confidence''),
     br_summary := verdict_summary parsed,
     br_evidence := evidence_lines (jget parsed ''evidence''),
     br_version_impact := JList (parse_version_impact (jget parsed ''version_impact''))\<rparr>"

definition parse_verdict :: "string \<Rightarrow> branch_result option" where
  "parse_verdict output = map_option read_verdict (pick_verdict None (json_object_candidates output))"

section \<open>The table of release lines\<close>

record version_line =
  vl_name :: string
  vl_status :: string
  vl_branches :: "string list"
  vl_reason :: string
  vl_conflict :: bool

text \<open>What one row says: the release line, its status, the branch that said so, and why.\<close>

type_synonym claim = "string \<times> string \<times> string \<times> string"

definition claim_of :: "string \<Rightarrow> json \<Rightarrow> claim list" where
  "claim_of branch row = (case row of
      JObj d \<Rightarrow> (let name = strip (str_get [] d ''name'') in
        if name = [] then [] else [(name, str_get ''unclear'' d ''status'', branch, str_get [] d ''reason'')])
    | _ \<Rightarrow> [])"

definition claims_of :: "string \<times> json \<Rightarrow> claim list" where
  "claims_of source = (case snd source of JList rows \<Rightarrow> concat (map (claim_of (fst source)) rows) | _ \<Rightarrow> [])"

definition opened_line :: "claim \<Rightarrow> version_line" where
  "opened_line c = (case c of (name, status, branch, reason) \<Rightarrow>
     \<lparr>vl_name = name, vl_status = status, vl_branches = [branch], vl_reason = reason, vl_conflict = False\<rparr>)"

definition merge_claim :: "claim \<Rightarrow> version_line \<Rightarrow> version_line" where
  "merge_claim c line = (case c of (_, status, branch, reason) \<Rightarrow>
     (let l1 = (if branch \<in> set (vl_branches line) then line else line\<lparr>vl_branches := vl_branches line @ [branch]\<rparr>);
          l2 = (if vl_status l1 \<noteq> status
            then l1\<lparr>vl_conflict := True,
              vl_status := (if ''affected'' = vl_status l1 \<or> ''affected'' = status then ''affected'' else ''unclear'')\<rparr>
            else l1)
      in if vl_reason l2 = [] then l2\<lparr>vl_reason := reason\<rparr> else l2))"

definition add_claim :: "claim \<Rightarrow> (string \<times> version_line) list \<Rightarrow> (string \<times> version_line) list" where
  "add_claim c merged = (let key = lower (fst c) in
     case map_of merged key of
       None \<Rightarrow> AList.update key (opened_line c) merged
     | Some line \<Rightarrow> AList.update key (merge_claim c line) merged)"

text \<open>\<open>re.findall(r"\d+", name)\<close>.\<close>

function digit_runs :: "string \<Rightarrow> string list" where
  "digit_runs [] = []"
| "digit_runs (c # s) = (if is_digit c then (c # takeWhile is_digit s) # digit_runs (dropWhile is_digit s) else digit_runs s)"
  by pat_completeness auto
termination by (relation "measure length") (auto simp: less_Suc_eq_le length_dropWhile_le)

definition version_sort_key :: "string \<Rightarrow> int \<times> nat list \<times> string" where
  "version_sort_key name = (let numbers = map digits_value (take 6 (digit_runs name)) in
     (if numbers \<noteq> [] then 1 else 0, numbers, lower name))"

text \<open>
  \<open>sorted(..., reverse=True)\<close>; the keys differ, since the lowered names do. A source is a branch
  and its breakdown.
\<close>

definition version_rollup :: "(string \<times> json) list \<Rightarrow> version_line list" where
  "version_rollup sources = (let merged = fold add_claim (concat (map claims_of sources)) [] in
     rev (sort_key (\<lambda>line. version_sort_key (vl_name line)) (map snd merged)))"

section \<open>The line for the operator\<close>

definition run_sources :: "verification_run \<Rightarrow> (string \<times> json) list" where
  "run_sources run = map (\<lambda>r. (br_branch r, br_version_impact r)) (vr_results run)"

definition affected_branches :: "verification_run \<Rightarrow> string list" where
  "affected_branches run = map br_branch (filter (\<lambda>r. br_verdict r = ''affected'') (vr_results run))"

definition affected_versions :: "verification_run \<Rightarrow> string list" where
  "affected_versions run = map vl_name (filter (\<lambda>l. vl_status l = ''affected'') (version_rollup (run_sources run)))"

definition run_summary :: "verification_run \<Rightarrow> string" where
  "run_summary run =
     (if vr_error run \<noteq> [] then ''Verification did not run: '' @ vr_error run
      else if vr_results run = [] then ''Verification produced no branch results.''
      else let parts = map (\<lambda>r. br_branch r @ ''='' @ br_verdict r) (vr_results run);
               versions = affected_versions run; shown = take 12 versions
        in ''Checked '' @ nat_str (length (vr_results run)) @ '' branch(es): '' @ join '', '' parts @ ''.''
         @ (if affected_branches run \<noteq> [] then '' Reported vulnerability looks REAL on: '' @ join '', '' (affected_branches run) @ ''.'' else [])
         @ (if versions \<noteq> [] then '' Affected releases: '' @ join '', '' shown
              @ (if length shown < length versions then '' (+'' @ nat_str (length versions - length shown) @ '' more)'' else []) @ ''.'' else [])
         @ (if vr_stale_warning run \<noteq> [] then '' WARNING: the checkout could not be refreshed from upstream ('' @ vr_stale_warning run
              @ ''), so this may predate fixes that have landed.'' else [])
         @ (if vr_injection_hits run \<noteq> [] then '' NOTE: the report text trips prompt-injection patterns ('' @ join '', '' (sorted_set (vr_injection_hits run))
              @ '') '' @ em_dash @ '' it may be a report about injection, or an attempt at it. Weigh the verdict accordingly.'' else []))"

end
