(* ===== verification/VersionMap.thy ===== *)
theory VersionMap
  imports VersionVerdicts Mentions Signals DataModel
begin

text \<open>
  Which release lines a finding likely hits, asked of git alone (\<open>security/version_map.py\<close>), with
  the parts of \<open>security/verifier.py\<close> it stands on: choosing the branches, refreshing and checking
  out, and the rows of \<open>SecurityVerification\<close>.

  Git is reached through an executor, \<open>ToolExecutor\<close> of \<open>review/tool_executor.py\<close>: a record of the
  two operations used here, over a world of a type of its own. A command answers an exit status with
  its output, or nothing when it could not be run.
\<close>

section \<open>Running commands\<close>

record exec_result =
  er_returncode :: int
  er_stdout :: string
  er_stderr :: string

definition er_ok :: "exec_result \<Rightarrow> bool" where
  "er_ok r \<longleftrightarrow> er_returncode r = 0"

record 'w executor =
  ex_run :: "string list \<Rightarrow> string \<Rightarrow> int \<Rightarrow> 'w \<Rightarrow> exec_result option \<times> 'w"
  ex_prepare_repo :: "string \<Rightarrow> string \<Rightarrow> string option \<Rightarrow> string \<Rightarrow> 'w \<Rightarrow> string option \<times> 'w"

definition GIT_TIMEOUT_SECONDS :: int where "GIT_TIMEOUT_SECONDS = 120"
definition FETCH_TIMEOUT_SECONDS :: int where "FETCH_TIMEOUT_SECONDS = 900"

text \<open>\<open>result is not None and result.ok\<close>.\<close>

definition succeeded :: "exec_result option \<Rightarrow> bool" where
  "succeeded r = (case r of None \<Rightarrow> False | Some e \<Rightarrow> er_ok e)"

definition out_of :: "exec_result option \<Rightarrow> string" where
  "out_of r = (case r of None \<Rightarrow> [] | Some e \<Rightarrow> er_stdout e)"

definition removeprefix :: "string \<Rightarrow> string \<Rightarrow> string" where
  "removeprefix p s = (if prefix p s then drop (length p) s else s)"

section \<open>The branches to look at\<close>

record verifier_settings =
  vs_enabled :: bool
  vs_reviewer :: string
  vs_max_branches :: int
  vs_branch_active_within_days :: int
  vs_branch_patterns :: "string list"
  vs_workspace_subdir :: string

fun resolve_verifier_reviewer :: "(string \<times> 'r) list \<Rightarrow> string \<Rightarrow> 'r option" where
  "resolve_verifier_reviewer [] name = None"
| "resolve_verifier_reviewer ((candidate, remote) # rest) name =
     (if candidate = name then Some remote else resolve_verifier_reviewer rest name)"

definition refresh_from_upstream :: "'w executor \<Rightarrow> string \<Rightarrow> 'w \<Rightarrow> string \<times> 'w" where
  "refresh_from_upstream ex cwd w =
     (case ex_run ex [''git'', ''fetch'', ''--all'', ''--prune''] cwd FETCH_TIMEOUT_SECONDS w of (result, w1) \<Rightarrow>
       ((case result of
           None \<Rightarrow> ''git fetch produced no result within '' @ int_str FETCH_TIMEOUT_SECONDS @ ''s''
         | Some r \<Rightarrow> (if \<not> er_ok r
             then ''git fetch exited '' @ int_str (er_returncode r) @ '': '' @ take 200 (strip (er_stderr r)) else [])), w1))"

fun probe_names :: "'w executor \<Rightarrow> string \<Rightarrow> string list \<Rightarrow> 'w \<Rightarrow> string \<times> 'w" where
  "probe_names ex cwd [] w = ([], w)"
| "probe_names ex cwd (candidate # rest) w =
     (case ex_run ex [''git'', ''rev-parse'', ''--verify'', ''origin/'' @ candidate] cwd GIT_TIMEOUT_SECONDS w of (probe, w1) \<Rightarrow>
       if succeeded probe then (candidate, w1) else probe_names ex cwd rest w1)"

definition default_branch :: "'w executor \<Rightarrow> string \<Rightarrow> 'w \<Rightarrow> string \<times> 'w" where
  "default_branch ex cwd w =
     (case ex_run ex [''git'', ''symbolic-ref'', ''--short'', ''refs/remotes/origin/HEAD''] cwd GIT_TIMEOUT_SECONDS w of (result, w1) \<Rightarrow>
       if succeeded result \<and> strip (out_of result) \<noteq> [] then (removeprefix ''origin/'' (strip (out_of result)), w1)
       else probe_names ex cwd [''main'', ''master''] w1)"

text \<open>One line of \<open>git for-each-ref\<close>: a ref and a time, or nothing that can be read.\<close>

definition ref_line :: "string \<Rightarrow> (string \<times> int) option" where
  "ref_line line = (case words_acc [] line of
      [ref, stamp] \<Rightarrow> (let name = removeprefix ''origin/'' ref in
        if name = ''HEAD'' then None else map_option (\<lambda>t. (name, t)) (parse_int stamp))
    | _ \<Rightarrow> None)"

definition origin_refs_by_recency :: "'w executor \<Rightarrow> string \<Rightarrow> 'w \<Rightarrow> (string \<times> int) list option \<times> 'w" where
  "origin_refs_by_recency ex cwd w =
     (case ex_run ex [''git'', ''for-each-ref'', ''--sort=-committerdate'', ''--format=%(refname:short) %(committerdate:unix)'',
         ''refs/remotes/origin''] cwd GIT_TIMEOUT_SECONDS w of (listing, w1) \<Rightarrow>
       (if succeeded listing then Some (List.map_filter ref_line (split_lines (out_of listing))) else None, w1))"

text \<open>The loop over the refs: \<open>cap\<close> is the length at which it stops, if there is one.\<close>

fun choose_branches :: "(string \<Rightarrow> bool) \<Rightarrow> rat \<Rightarrow> int option \<Rightarrow> string list \<Rightarrow> (string \<times> int) list \<Rightarrow> string list" where
  "choose_branches named cutoff cap chosen [] = chosen"
| "choose_branches named cutoff cap chosen ((name, committed) # refs) =
     (if name \<in> set chosen \<or> of_int committed < cutoff \<or> \<not> named name then choose_branches named cutoff cap chosen refs
      else let chosen' = chosen @ [name] in
        if (case cap of None \<Rightarrow> False | Some n \<Rightarrow> n \<le> int (length chosen')) then chosen'
        else choose_branches named cutoff cap chosen' refs)"

definition select_branches ::
    "(string \<Rightarrow> string \<Rightarrow> bool) \<Rightarrow> ('w \<Rightarrow> rat) \<Rightarrow> 'w executor \<Rightarrow> string \<Rightarrow> verifier_settings \<Rightarrow> bool \<Rightarrow> 'w \<Rightarrow> string list \<times> 'w" where
  "select_branches re_match clock ex cwd vs unlimited w =
     (case default_branch ex cwd w of (dflt, w1) \<Rightarrow>
      case origin_refs_by_recency ex cwd w1 of (refs, w2) \<Rightarrow>
       (let first = (if dflt \<noteq> [] then [dflt] else []) in
         case refs of None \<Rightarrow> (first, w2)
         | Some rs \<Rightarrow> (choose_branches (\<lambda>name. list_ex (\<lambda>p. re_match p name) (vs_branch_patterns vs))
              (clock w2 - of_int (vs_branch_active_within_days vs) * 86400)
              (if unlimited then None else Some (vs_max_branches vs + (if dflt \<noteq> [] then 1 else 0))) first rs, w2)))"

definition checkout :: "'w executor \<Rightarrow> string \<Rightarrow> string \<Rightarrow> bool \<Rightarrow> 'w \<Rightarrow> string \<times> 'w" where
  "checkout ex cwd branch fresh w =
     (case ex_run ex [''git'', ''checkout'', ''--detach'', ''--force'', ''origin/'' @ branch] cwd GIT_TIMEOUT_SECONDS w of (result, w1) \<Rightarrow>
       if \<not> succeeded result then ([], w1)
       else case ex_run ex (if fresh then [''git'', ''clean'', ''-xdff''] else [''git'', ''clean'', ''-ffd'']) cwd
           (if fresh then FETCH_TIMEOUT_SECONDS else GIT_TIMEOUT_SECONDS) w1 of (cleaned, w2) \<Rightarrow>
         case ex_run ex [''git'', ''rev-parse'', ''HEAD''] cwd GIT_TIMEOUT_SECONDS w2 of (head, w3) \<Rightarrow>
           (if succeeded head then strip (out_of head) else [], w3))"

section \<open>The paths a report cites\<close>

definition SOURCE_EXTENSIONS :: "string list" where
  "SOURCE_EXTENSIONS = [''java'', ''scala'', ''kt'', ''py'', ''pyi'', ''js'', ''jsx'', ''ts'', ''tsx'', ''go'', ''rb'', ''c'', ''cc'',
     ''cpp'', ''cs'', ''h'', ''hpp'', ''rs'', ''swift'', ''php'', ''pl'', ''sh'', ''sql'', ''proto'', ''xml'', ''yaml'', ''yml'', ''json'',
     ''toml'', ''ini'', ''conf'', ''properties'', ''gradle'', ''html'', ''htm'', ''rst'', ''tf'']"

text \<open>
  \<open>_PATH_RE\<close> as a matcher. \<open>is_path_char\<close> is \<open>[\w.-]\<close>; the alternation takes the longest
  extensions first, and none that a word character follows.
\<close>

definition is_path_char :: "char \<Rightarrow> bool" where
  "is_path_char c \<longleftrightarrow> is_word_char c \<or> c = CHR ''.'' \<or> c = CHR ''-''"

definition is_path_lead :: "char \<Rightarrow> bool" where
  "is_path_lead c \<longleftrightarrow> is_space c \<or> c \<in> set [backtick, CHR 0x27, CHR 0x22, CHR ''='', CHR ''('', CHR '','', CHR '';'']"

definition extension_len :: "string \<Rightarrow> nat option" where
  "extension_len s = map_option length
     (find (\<lambda>e. prefix e s \<and> \<not> head_is_word (drop (length e) s)) (rev (sort_key length (rev SOURCE_EXTENSIONS))))"

text \<open>\<open>[\w.-]+\.(?:...)\<close>, with at most \<open>n\<close> characters before the dot, as many as can be.\<close>

fun file_len_upto :: "nat \<Rightarrow> string \<Rightarrow> nat option" where
  "file_len_upto 0 s = None"
| "file_len_upto (Suc n) s = (case drop (Suc n) s of
      [] \<Rightarrow> file_len_upto n s
    | c # rest \<Rightarrow> (if c \<noteq> CHR ''.'' then file_len_upto n s
        else (case extension_len rest of Some k \<Rightarrow> Some (Suc (Suc n) + k) | None \<Rightarrow> file_len_upto n s)))"

definition file_len :: "string \<Rightarrow> nat option" where
  "file_len s = file_len_upto (length (takeWhile is_path_char s)) s"

text \<open>\<open>(?:[\w.-]+/)+\<close> before it, again as many directories as can be.\<close>

function path_len :: "string \<Rightarrow> nat option" where
  "path_len s = (let dir = takeWhile is_path_char s; rest = dropWhile is_path_char s in
     if dir = [] \<or> rest = [] \<or> hd rest \<noteq> CHR ''/'' then None
     else (case path_len (tl rest) of
         Some k \<Rightarrow> Some (length dir + 1 + k)
       | None \<Rightarrow> map_option (\<lambda>k. length dir + 1 + k) (file_len (tl rest))))"
  by auto
termination
proof (relation "measure length", goal_cases)
  case (2 s dir rest)
  have "length (tl rest) < length rest" using 2 by (cases rest) auto
  moreover have "length rest \<le> length s" using 2 by (simp add: length_dropWhile_le)
  ultimately show ?case by simp
qed simp

declare path_len.simps [simp del]

text \<open>A match at the head of the text: the group, and how much of what follows the head it takes.\<close>

definition path_at :: "bool \<Rightarrow> char \<Rightarrow> string \<Rightarrow> (string \<times> nat) option" where
  "path_at start c s =
     (case (if start then path_len (c # s) else None) of
       Some k \<Rightarrow> Some (take k (c # s), k - 1)
     | None \<Rightarrow> (if is_path_lead c then map_option (\<lambda>k. (take k s, k)) (path_len s) else None))"

function cited_matches :: "bool \<Rightarrow> string \<Rightarrow> string list" where
  "cited_matches start [] = []"
| "cited_matches start (c # s) = (case path_at start c s of
      Some (g, n) \<Rightarrow> g # cited_matches False (drop n s)
    | None \<Rightarrow> cited_matches False s)"
  by pat_completeness auto
termination by (relation "measure (length \<circ> snd)") auto

text \<open>\<open>_PATCH_PATH_RE\<close>: the file headers of a diff.\<close>

definition patch_line :: "string \<Rightarrow> string option" where
  "patch_line line = (if list_ex (\<lambda>p. prefix p line) [''+++ a/'', ''+++ b/'', ''--- a/'', ''--- b/''] \<and> drop 6 line \<noteq> []
     then Some (drop 6 line) else None)"

definition patch_path_matches :: "string \<Rightarrow> string list" where
  "patch_path_matches s = List.map_filter patch_line (split_on newline s)"

definition MAX_PATHS :: nat where "MAX_PATHS = 30"

definition has_diff_prefix :: "string \<Rightarrow> bool" where
  "has_diff_prefix s \<longleftrightarrow> prefix ''a/'' s \<or> prefix ''b/'' s"

definition prefix_candidates :: "string \<Rightarrow> string list" where
  "prefix_candidates raw = (if has_diff_prefix raw then [raw, drop 2 raw] else [raw])"

text \<open>\<open>seen\<close> holds the lower case of every path kept, so it is read off the paths.\<close>

definition add_path :: "string \<Rightarrow> string list \<Rightarrow> string list" where
  "add_path candidate paths =
     (if candidate = [] \<or> lower candidate \<in> set (map lower paths)
         \<or> (has_diff_prefix candidate \<and> lower (drop 2 candidate) \<in> set (map lower paths)) then paths
      else paths @ [candidate])"

fun gather_paths :: "string list \<Rightarrow> string list \<Rightarrow> string list" where
  "gather_paths paths [] = paths"
| "gather_paths paths (m # ms) =
     (let paths' = fold add_path (prefix_candidates (removeprefix ''./'' (strip m))) paths in
      if MAX_PATHS \<le> length paths' then paths' else gather_paths paths' ms)"

definition unique_paths :: "string \<Rightarrow> string list" where
  "unique_paths s = take MAX_PATHS (gather_paths [] (patch_path_matches s @ cited_matches True s))"

section \<open>Reports and their verifications\<close>

definition VERSION_MAP_AGENT :: string where "VERSION_MAP_AGENT = ''version-map''"

record verification_row =
  sv_report :: nat
  sv_branch :: string
  sv_commit :: string
  sv_verdict :: string
  sv_confidence :: "rat option"
  sv_summary :: string
  sv_evidence :: string
  sv_version_impact :: json
  sv_agent :: string
  sv_branch_order :: nat
  sv_raw_output :: string
  sv_duration_seconds :: "rat option"
  sv_created_at :: int

record cited_report =
  se_pk :: nat
  se_project :: "project_ref option"
  se_title :: string
  se_raw_text :: string
  se_parsed_component :: string
  se_parsed_poc :: string
  se_proposed_patch :: string

text \<open>\<open>report.verifications.all()\<close>, in the model's own order. A report that is not saved has pk 0.\<close>

definition verifications_of :: "verification_row list \<Rightarrow> nat \<Rightarrow> verification_row list" where
  "verifications_of table pk = sort_key (\<lambda>r. (- sv_created_at r, sv_branch r)) (filter (\<lambda>r. sv_report r = pk) table)"

definition row_chunks :: "verification_row \<Rightarrow> string list" where
  "row_chunks r = (if sv_agent r = VERSION_MAP_AGENT then []
     else (if sv_evidence r \<noteq> [] then [sv_evidence r] else []) @ (if sv_summary r \<noteq> [] then [sv_summary r] else []))"

definition extract_report_paths :: "verification_row list \<Rightarrow> cited_report \<Rightarrow> string list" where
  "extract_report_paths table report = unique_paths (join [newline]
     ((if se_pk report \<noteq> 0 then concat (map row_chunks (verifications_of table (se_pk report))) else [])
      @ [se_proposed_patch report, se_parsed_component report, se_title report, take 12000 (se_raw_text report), se_parsed_poc report]))"

definition DEFAULT_BRANCH_NAMES :: "string list" where
  "DEFAULT_BRANCH_NAMES = [''master'', ''main'', ''develop'', ''trunk'', ''HEAD'']"

text \<open>\<open>re.search(r"(\d+)\.(\d+)", branch)\<close>.\<close>

function dotted_pair :: "string \<Rightarrow> (string \<times> string) option" where
  "dotted_pair [] = None"
| "dotted_pair (c # s) =
     (if is_digit c then
        (let major = c # takeWhile is_digit s; rest = dropWhile is_digit s in
         if rest \<noteq> [] \<and> hd rest = CHR ''.'' \<and> takeWhile is_digit (tl rest) \<noteq> []
         then Some (major, takeWhile is_digit (tl rest)) else dotted_pair rest)
      else dotted_pair s)"
  by pat_completeness auto
termination by (relation "measure length") (auto simp: less_Suc_eq_le length_dropWhile_le)

definition release_line_from_branch :: "string \<Rightarrow> string" where
  "release_line_from_branch branch =
     (if branch \<in> set DEFAULT_BRANCH_NAMES then ''unreleased''
      else case dotted_pair branch of Some (x, y) \<Rightarrow> x @ ''.'' @ y @ ''.x'' | None \<Rightarrow> branch)"

section \<open>Trying the proposed patch\<close>

definition MAX_PATCH_CHARS :: int where "MAX_PATCH_CHARS = 400000"

definition dq :: char where "dq = CHR 0x22"
definition sq :: char where "sq = CHR 0x27"

definition patch_delimiter :: "(string \<Rightarrow> string) \<Rightarrow> string \<Rightarrow> string" where
  "patch_delimiter sha256_hex patch = ''FRANK_PATCH_'' @ take 16 (sha256_hex patch)"

definition rstrip_newlines :: "string \<Rightarrow> string" where
  "rstrip_newlines s = rev (dropWhile (\<lambda>c. c = newline) (rev s))"

definition apply_check_script :: "(string \<Rightarrow> string) \<Rightarrow> string \<Rightarrow> bool \<Rightarrow> string option" where
  "apply_check_script sha256_hex patch reverse =
     (let delimiter = patch_delimiter sha256_hex patch in
      if MAX_PATCH_CHARS < int (length patch) then None
      else if CHR 0x00 \<in> set patch then None
      else if sublist delimiter patch then None
      else Some
        (''__frank_p='' @ [dq] @ ''${TMPDIR:-/tmp}/'' @ delimiter @ ''.diff'' @ [dq, newline]
         @ ''cat > '' @ [dq] @ ''$__frank_p'' @ [dq] @ '' <<'' @ [sq] @ delimiter @ [sq, newline]
         @ rstrip_newlines patch @ [newline]
         @ delimiter @ [newline]
         @ ''git apply --check'' @ (if reverse then '' -R'' else []) @ '' --whitespace=nowarn '' @ [dq] @ ''$__frank_p'' @ [dq, newline]
         @ ''__frank_rc=$?'' @ [newline]
         @ ''rm -f '' @ [dq] @ ''$__frank_p'' @ [dq, newline]
         @ ''exit $__frank_rc'' @ [newline]))"

definition patch_apply_check ::
    "(string \<Rightarrow> string) \<Rightarrow> 'w executor \<Rightarrow> string \<Rightarrow> string \<Rightarrow> bool \<Rightarrow> 'w \<Rightarrow> bool option \<times> 'w" where
  "patch_apply_check sha256_hex ex cwd patch reverse w =
     (if strip patch = [] then (None, w)
      else case apply_check_script sha256_hex patch reverse of None \<Rightarrow> (None, w)
      | Some script \<Rightarrow>
        (case ex_run ex [''sh'', ''-c'', script] cwd GIT_TIMEOUT_SECONDS w of (result, w1) \<Rightarrow>
          (case result of None \<Rightarrow> None
           | Some r \<Rightarrow> (if er_returncode r \<notin> {0, 1} then None else Some (er_returncode r = 0)), w1)))"

definition patch_applies ::
    "(string \<Rightarrow> string) \<Rightarrow> 'w executor \<Rightarrow> string \<Rightarrow> string \<Rightarrow> string \<Rightarrow> 'w \<Rightarrow> bool option \<times> 'w" where
  "patch_applies sha256_hex ex cwd branch patch w =
     (case checkout ex cwd branch False w of (commit, w1) \<Rightarrow>
       if commit = [] then (None, w1) else patch_apply_check sha256_hex ex cwd patch False w1)"

section \<open>One branch\<close>

text \<open>The verdict, once the files are listed and the patch tried, with what the row says for it.\<close>

definition branch_verdict :: "string list \<Rightarrow> string \<Rightarrow> bool option \<Rightarrow> string \<times> rat option" where
  "branch_verdict found patch applies =
     (if found \<noteq> [] \<or> applies = Some True then (''affected'', Some (if applies = Some True then 7/10 else 45/100))
      else if applies = None \<and> strip patch \<noteq> [] then (''error'', None)
      else (''not-affected'', Some (55/100)))"

definition verdict_parts :: "string list \<Rightarrow> string list \<Rightarrow> string \<Rightarrow> bool option \<Rightarrow> string list" where
  "verdict_parts paths found patch applies =
     (if paths = [] then [] else if found \<noteq> [] then [''Cited file(s) exist: '' @ join '', '' (take 8 found) @ ''.'']
        else [''None of the cited files exist on this branch.''])
     @ (if applies = Some True then [''Proposed patch applies cleanly.'']
        else if applies = Some False then [''Proposed patch does not apply.'']
        else if strip patch \<noteq> [] then [''Could not try the proposed patch (checkout failed).''] else [])
     @ [''File-presence / patch-check, not a code read.'']"

definition verdict_reasons :: "string list \<Rightarrow> string list \<Rightarrow> bool option \<Rightarrow> string list" where
  "verdict_reasons paths found applies =
     (if paths = [] then [] else if found \<noteq> [] then [''cited file(s) still present: '' @ join '', '' (take 8 found)]
        else [''none of the cited files exist on this branch''])
     @ (if applies = Some True then [''proposed patch applies cleanly'']
        else if applies = Some False then [''proposed patch does not apply''] else [])"

definition mapped_result :: "string \<Rightarrow> string list \<Rightarrow> string list \<Rightarrow> string \<Rightarrow> bool option \<Rightarrow> rat \<Rightarrow> branch_result" where
  "mapped_result branch paths found patch applies duration =
     (let line = release_line_from_branch branch; (verdict, confidence) = branch_verdict found patch applies in
      blank_result\<lparr>br_branch := branch, br_verdict := verdict, br_confidence := confidence,
        br_summary := branch @ '' ('' @ line @ ''): '' @ join '' '' (verdict_parts paths found patch applies),
        br_evidence := (if found \<noteq> [] then found else take 5 paths),
        br_version_impact := JList (if verdict \<noteq> ''error''
          then [version_row line verdict (join ''; '' (verdict_reasons paths found applies))] else []),
        br_agent := VERSION_MAP_AGENT, br_duration_seconds := duration\<rparr>)"

definition unlisted_result :: "string \<Rightarrow> exec_result option \<Rightarrow> rat \<Rightarrow> branch_result" where
  "unlisted_result branch listing duration =
     (let detail = (case listing of None \<Rightarrow> ''no result'' | Some r \<Rightarrow> take 200 (strip (er_stderr r))) in
      blank_result\<lparr>br_branch := branch, br_verdict := ''error'', br_agent := VERSION_MAP_AGENT,
        br_summary := ''Could not list files on origin/'' @ branch @ '': ''
          @ (if detail \<noteq> [] then detail else ''git ls-tree failed'') @ ''.'',
        br_duration_seconds := duration\<rparr>)"

text \<open>\<open>monotonic\<close> reads the clock of the world.\<close>

definition map_one_branch ::
    "(string \<Rightarrow> string) \<Rightarrow> ('w \<Rightarrow> rat) \<Rightarrow> 'w executor \<Rightarrow> string \<Rightarrow> string list \<Rightarrow> string \<Rightarrow> string \<Rightarrow> 'w \<Rightarrow> branch_result \<times> 'w" where
  "map_one_branch sha256_hex monotonic ex cwd paths patch branch w =
     (let started = monotonic w;
          (listing, w1) = (if paths = [] then (Some \<lparr>er_returncode = 0, er_stdout = [], er_stderr = []\<rparr>, w)
             else ex_run ex [''git'', ''ls-tree'', ''-r'', ''--name-only'', ''origin/'' @ branch] cwd GIT_TIMEOUT_SECONDS w)
      in if \<not> succeeded listing then (unlisted_result branch listing (monotonic w1 - started), w1)
         else let found = filter (\<lambda>path. path \<in> set (split_lines (out_of listing))) paths;
                  (applies, w2) = (if strip patch \<noteq> [] then patch_applies sha256_hex ex cwd branch patch w1 else (None, w1))
           in (mapped_result branch paths found patch applies (monotonic w2 - started), w2))"

fun map_branches ::
    "(string \<Rightarrow> string) \<Rightarrow> ('w \<Rightarrow> rat) \<Rightarrow> 'w executor \<Rightarrow> string \<Rightarrow> string list \<Rightarrow> string \<Rightarrow> string list \<Rightarrow> 'w
       \<Rightarrow> branch_result list \<times> 'w" where
  "map_branches sha256_hex monotonic ex cwd paths patch [] w = ([], w)"
| "map_branches sha256_hex monotonic ex cwd paths patch (branch # rest) w =
     (case map_one_branch sha256_hex monotonic ex cwd paths patch branch w of (r, w1) \<Rightarrow>
      case map_branches sha256_hex monotonic ex cwd paths patch rest w1 of (rs, w2) \<Rightarrow> (r # rs, w2))"

section \<open>Keeping the answers\<close>

definition is_verification :: "nat \<Rightarrow> string \<Rightarrow> verification_row \<Rightarrow> bool" where
  "is_verification report branch r \<longleftrightarrow> sv_report r = report \<and> sv_branch r = branch"

definition result_row :: "nat \<Rightarrow> int \<Rightarrow> nat \<Rightarrow> string \<Rightarrow> branch_result \<Rightarrow> verification_row" where
  "result_row report now order agent result = \<lparr>sv_report = report, sv_branch = br_branch result, sv_commit = br_commit result,
     sv_verdict = br_verdict result, sv_confidence = br_confidence result, sv_summary = br_summary result,
     sv_evidence = join [newline] (br_evidence result), sv_version_impact = br_version_impact result,
     sv_agent = agent, sv_branch_order = order, sv_raw_output = br_raw_output result,
     sv_duration_seconds = Some (br_duration_seconds result), sv_created_at = now\<rparr>"

text \<open>\<open>update_or_create\<close> on \<open>(report, branch)\<close>, which the table holds at most once; every field is set.\<close>

definition put_verification :: "verification_row \<Rightarrow> verification_row list \<Rightarrow> verification_row list" where
  "put_verification row table =
     (if list_ex (is_verification (sv_report row) (sv_branch row)) table
      then map (\<lambda>r. if is_verification (sv_report row) (sv_branch row) r then row else r) table
      else table @ [row])"

fun persist :: "nat \<Rightarrow> int \<Rightarrow> nat \<Rightarrow> branch_result list \<Rightarrow> verification_row list \<Rightarrow> verification_row list" where
  "persist report now order [] table = table"
| "persist report now order (result # rest) table =
     persist report now (Suc order) rest (put_verification (result_row report now order (br_agent result) result) table)"

text \<open>A deep look that gave an answer: its row is kept.\<close>

definition is_deep :: "verification_row \<Rightarrow> bool" where
  "is_deep r \<longleftrightarrow> sv_agent r \<noteq> VERSION_MAP_AGENT \<and> sv_verdict r \<noteq> ''error''"

definition fill_impact :: "branch_result \<Rightarrow> verification_row \<Rightarrow> verification_row" where
  "fill_impact result r =
     (if \<not> truthy (sv_version_impact r) \<and> truthy (br_version_impact result) \<and> sv_verdict r = br_verdict result
      then r\<lparr>sv_version_impact := br_version_impact result\<rparr> else r)"

definition persist_map_result :: "nat \<Rightarrow> int \<Rightarrow> nat \<Rightarrow> branch_result \<Rightarrow> verification_row list \<Rightarrow> verification_row list" where
  "persist_map_result report now order result table =
     (case find (is_verification report (br_branch result)) table of
        Some existing \<Rightarrow> (if is_deep existing
          then map (\<lambda>r. if is_verification report (br_branch result) r then fill_impact result r else r) table
          else put_verification (result_row report now order VERSION_MAP_AGENT result) table)
      | None \<Rightarrow> put_verification (result_row report now order VERSION_MAP_AGENT result) table)"

fun persist_version_map :: "nat \<Rightarrow> int \<Rightarrow> nat \<Rightarrow> branch_result list \<Rightarrow> verification_row list \<Rightarrow> verification_row list" where
  "persist_version_map report now order [] table = table"
| "persist_version_map report now order (result # rest) table =
     persist_version_map report now (Suc order) rest (persist_map_result report now order result table)"

section \<open>The whole run\<close>

text \<open>
  The things outside this code: the digest, the regular expressions of the settings, the clocks, the
  directory of clones, and what makes an executor of a reviewer's \<open>remote\<close> block.
\<close>

record ('r, 'w) map_surroundings =
  su_sha256_hex :: "string \<Rightarrow> string"
  su_re_match :: "string \<Rightarrow> string \<Rightarrow> bool"
  su_time :: "'w \<Rightarrow> rat"
  su_monotonic :: "'w \<Rightarrow> rat"
  su_timezone_now :: "'w \<Rightarrow> int"
  su_local_checkout :: "string \<Rightarrow> string \<Rightarrow> string option"
  su_make_executor :: "'r \<Rightarrow> 'w executor"

definition failed_run :: "string \<Rightarrow> verification_run" where
  "failed_run why = blank_run\<lparr>vr_error := why\<rparr>"

definition map_checkout ::
    "('r, 'w) map_surroundings \<Rightarrow> 'w executor \<Rightarrow> string \<Rightarrow> verifier_settings \<Rightarrow> cited_report \<Rightarrow> string list
       \<Rightarrow> verification_row list \<Rightarrow> 'w \<Rightarrow> verification_run \<times> verification_row list \<times> 'w" where
  "map_checkout su ex cwd vs report paths table w =
     (case refresh_from_upstream ex cwd w of (stale, w1) \<Rightarrow>
      case select_branches (su_re_match su) (su_time su) ex cwd vs True w1 of (branches, w2) \<Rightarrow>
       (let run = blank_run\<lparr>vr_stale_warning := stale, vr_branches_considered := branches\<rparr> in
        if branches = [] then (run\<lparr>vr_error := ''no branches could be resolved in the checkout''\<rparr>, table, w2)
        else case map_branches (su_sha256_hex su) (su_monotonic su) ex cwd paths (se_proposed_patch report) branches w2 of (results, w3) \<Rightarrow>
          (run\<lparr>vr_results := results\<rparr>, persist_version_map (se_pk report) (su_timezone_now su w3) 0 results table, w3)))"

definition map_report_versions ::
    "('r, 'w) map_surroundings \<Rightarrow> verifier_settings \<Rightarrow> (string \<times> 'r) list \<Rightarrow> cited_report
       \<Rightarrow> verification_row list \<Rightarrow> 'w \<Rightarrow> verification_run \<times> verification_row list \<times> 'w" where
  "map_report_versions su vs reviewers report table w =
     (if \<not> vs_enabled vs then (failed_run ''security_triage.verifier.enabled is false'', table, w)
      else case se_project report of
        None \<Rightarrow> (failed_run ''the report has no project, so there is no repo to check'', table, w)
      | Some project \<Rightarrow>
        (case resolve_verifier_reviewer reviewers (vs_reviewer vs) of
          None \<Rightarrow> (failed_run (''no agent_cli_reviewers entry named '' @ str_repr (vs_reviewer vs)), table, w)
        | Some remote \<Rightarrow>
          (let paths = extract_report_paths table report in
           if paths = [] \<and> strip (se_proposed_patch report) = []
           then (failed_run (''no source paths could be extracted from the report or its existing ''
             @ ''verification evidence, so there is nothing to look up on each branch''), table, w)
           else let ex = su_make_executor su remote in
             case ex_prepare_repo ex (pj_owner project) (pj_repo project)
                 (su_local_checkout su (pj_owner project) (pj_repo project)) (vs_workspace_subdir vs) w of (dir, w1) \<Rightarrow>
               (case (case dir of None \<Rightarrow> [] | Some d \<Rightarrow> d) of
                  [] \<Rightarrow> (failed_run (''no checkout could be prepared '' @ em_dash @ '' for remote.mode ssh check ssh_command ''
                    @ ''and remote_workspace_dir; for local mode check FRANK_REPOS_DIR''), table, w1)
                | c # s \<Rightarrow> map_checkout su ex (c # s) vs report paths table w1))))"

end
