(* ===== verification/VersionProperties.thy ===== *)
theory VersionProperties
  imports VersionMap "HOL-Library.Multiset"
begin

text \<open>
  What the table of release lines says of the answers it is made of, what one answer can put into
  it, and what the version map may and may not do to the verdicts that are already kept.
\<close>

section \<open>The table of release lines\<close>

text \<open>What several looks at one release line come to, whatever their order.\<close>

definition agreed :: "string list \<Rightarrow> string \<times> bool" where
  "agreed sts = (if list_all (\<lambda>x. x = hd sts) sts then (hd sts, False)
     else (if ''affected'' \<in> set sts then ''affected'' else ''unclear'', True))"

definition statuses_in :: "string \<Rightarrow> claim list \<Rightarrow> string list" where
  "statuses_in key cs = map (\<lambda>c. fst (snd c)) (filter (\<lambda>c. lower (fst c) = key) cs)"

definition statuses_of :: "string \<Rightarrow> (string \<times> json) list \<Rightarrow> string list" where
  "statuses_of key sources = statuses_in key (concat (map claims_of sources))"

lemma agreed_single: "agreed [s] = (s, False)"
  by (simp add: agreed_def)

lemma agreed_snoc:
  assumes "sts \<noteq> []"
  shows "agreed (sts @ [s]) = (if fst (agreed sts) \<noteq> s
     then (if ''affected'' = fst (agreed sts) \<or> ''affected'' = s then ''affected'' else ''unclear'', True) else agreed sts)"
proof -
  define A :: string where "A = ''affected''"
  define U :: string where "U = ''unclear''"
  have AU: "A \<noteq> U" by (simp add: A_def U_def)
  show ?thesis
  proof (cases "list_all (\<lambda>x. x = hd sts) sts")
    case True
    then have "\<And>x. x \<in> set sts \<longleftrightarrow> x = hd sts" using assms by (auto simp: list_all_iff)
    then show ?thesis using True assms AU unfolding agreed_def A_def[symmetric] U_def[symmetric]
      by (cases "s = hd sts") auto
  next
    case False
    then have "\<not> list_all (\<lambda>x. x = hd (sts @ [s])) (sts @ [s])" using assms by simp
    then show ?thesis using False assms AU unfolding agreed_def A_def[symmetric] U_def[symmetric]
      by (cases "A \<in> set sts"; cases "s = A"; cases "s = U") auto
  qed
qed

definition line_ok :: "claim list \<Rightarrow> string \<times> version_line \<Rightarrow> bool" where
  "line_ok cs e \<longleftrightarrow> fst e = lower (vl_name (snd e)) \<and> statuses_in (fst e) cs \<noteq> []
     \<and> (vl_status (snd e), vl_conflict (snd e)) = agreed (statuses_in (fst e) cs)"

lemma statuses_snoc: "statuses_in k (cs @ [c]) = statuses_in k cs @ (if lower (fst c) = k then [fst (snd c)] else [])"
  by (simp add: statuses_in_def)

lemma merge_claim_name [simp]: "vl_name (merge_claim c l) = vl_name l"
  by (cases c) (auto simp: merge_claim_def Let_def)

lemma merge_claim_status:
  "(vl_status (merge_claim c l), vl_conflict (merge_claim c l)) =
     (if vl_status l \<noteq> fst (snd c)
      then (if ''affected'' = vl_status l \<or> ''affected'' = fst (snd c) then ''affected'' else ''unclear'', True)
      else (vl_status l, vl_conflict l))"
  by (cases c) (auto simp: merge_claim_def Let_def)

lemma line_ok_other: "lower (fst c) \<noteq> fst e \<Longrightarrow> line_ok (cs @ [c]) e = line_ok cs e"
  by (simp add: line_ok_def statuses_snoc)

lemma line_ok_merge:
  assumes "line_ok cs (k, l)" "lower (fst c) = k"
  shows "line_ok (cs @ [c]) (k, merge_claim c l)"
proof -
  have u: "k = lower (vl_name l) \<and> statuses_in k cs \<noteq> [] \<and> (vl_status l, vl_conflict l) = agreed (statuses_in k cs)"
    using assms(1) unfolding line_ok_def fst_conv snd_conv .
  note a = u [THEN conjunct2, THEN conjunct2, symmetric] u [THEN conjunct2, THEN conjunct1] u [THEN conjunct1]
  have "agreed (statuses_in k (cs @ [c])) = (vl_status (merge_claim c l), vl_conflict (merge_claim c l))"
    unfolding merge_claim_status using agreed_snoc[OF a(2), of "fst (snd c)"] by (simp only: statuses_snoc assms(2) a(1) if_True fst_conv refl)
  moreover have "statuses_in k (cs @ [c]) \<noteq> []" using assms(2) by (simp add: statuses_snoc)
  ultimately show ?thesis using a(3) by (simp only: line_ok_def fst_conv snd_conv merge_claim_name simp_thms)
qed

lemma line_ok_new:
  assumes "lower (fst c) = k" "statuses_in k cs = []"
  shows "line_ok (cs @ [c]) (k, opened_line c)"
  using assms by (cases c) (simp add: line_ok_def opened_line_def statuses_snoc agreed_single)

definition rolled :: "claim list \<Rightarrow> (string \<times> version_line) list" where
  "rolled cs = fold add_claim cs []"

definition merged_line :: "claim list \<Rightarrow> claim \<Rightarrow> version_line" where
  "merged_line cs c = (case map_of (rolled cs) (lower (fst c)) of None \<Rightarrow> opened_line c | Some l \<Rightarrow> merge_claim c l)"

lemma rolled_snoc: "rolled (cs @ [c]) = AList.update (lower (fst c)) (merged_line cs c) (rolled cs)"
  by (simp add: rolled_def add_claim_def merged_line_def Let_def split: option.splits)

lemma rolled_keys: "distinct (map fst (rolled cs)) \<and> set (map fst (rolled cs)) = set (map (lower \<circ> fst) cs)"
proof (induction cs rule: rev_induct)
  case Nil
  then show ?case by (simp add: rolled_def)
next
  case (snoc c cs)
  show ?case unfolding rolled_snoc using snoc.IH by (simp add: distinct_update dom_update)
qed

lemma statuses_Nil: "statuses_in k cs = [] \<longleftrightarrow> k \<notin> set (map (lower \<circ> fst) cs)"
  by (auto simp: statuses_in_def filter_empty_conv)

lemma rolled_ok: "e \<in> set (rolled cs) \<Longrightarrow> line_ok cs e"
proof (induction cs arbitrary: e rule: rev_induct)
  case Nil
  then show ?case by (simp add: rolled_def)
next
  case (snoc c cs)
  define k where "k = lower (fst c)"
  define v where "v = merged_line cs c"
  have upd: "rolled (cs @ [c]) = AList.update k v (rolled cs)" by (simp add: rolled_snoc k_def v_def)
  have d: "distinct (map fst (rolled cs))" using rolled_keys by blast
  have kv: "map_of (rolled (cs @ [c])) = (map_of (rolled cs))(k \<mapsto> v)" by (simp add: upd fun_eq_iff)
  have d': "distinct (map fst (rolled (cs @ [c])))" using rolled_keys by blast
  obtain k' l where e: "e = (k', l)" by (cases e)
  have m: "map_of (rolled (cs @ [c])) k' = Some l" using snoc.prems d' e by simp
  show ?case
  proof (cases "k' = k")
    case False
    then have "e \<in> set (rolled cs)" using m kv e by (auto dest: map_of_SomeD)
    then show ?thesis using snoc.IH False e by (simp add: line_ok_other k_def)
  next
    case True
    then have l: "l = v" using m kv by simp
    show ?thesis
    proof (cases "map_of (rolled cs) k")
      case None
      then have "k \<notin> set (map fst (rolled cs))" by (simp add: map_of_eq_None_iff)
      then have "statuses_in k cs = []" using rolled_keys statuses_Nil by simp
      then have "line_ok (cs @ [c]) (k, opened_line c)" by (rule line_ok_new [OF k_def [symmetric]])
      moreover have "v = opened_line c" using None unfolding v_def merged_line_def k_def [symmetric] by (simp only: option.case)
      ultimately show ?thesis by (simp only: e True l)
    next
      case (Some old)
      then have "line_ok cs (k, old)" by (intro snoc.IH) (rule map_of_SomeD)
      then have "line_ok (cs @ [c]) (k, merge_claim c old)" by (rule line_ok_merge [OF _ k_def [symmetric]])
      moreover have "v = merge_claim c old" using Some unfolding v_def merged_line_def k_def [symmetric] by (simp only: option.case)
      ultimately show ?thesis by (simp only: e True l)
    qed
  qed
qed

lemma rolled_key: "e \<in> set (rolled cs) \<Longrightarrow> fst e = lower (vl_name (snd e))"
  using rolled_ok [of e cs] unfolding line_ok_def by blast

lemma set_rollup: "set (version_rollup sources) = snd ` set (rolled (concat (map claims_of sources)))"
  by (simp add: version_rollup_def rolled_def Let_def)

lemma rollup_status_helper:
  assumes "line \<in> set (version_rollup sources)"
  shows "(vl_status line, vl_conflict line) = agreed (statuses_of (lower (vl_name line)) sources)"
  using assms rolled_ok unfolding set_rollup statuses_of_def by (fastforce simp: line_ok_def)

lemma rollup_lines: "set (map (lower \<circ> vl_name) (version_rollup sources)) = set (map (lower \<circ> fst) (concat (map claims_of sources)))"
proof -
  let ?cs = "concat (map claims_of sources)"
  have "(lower \<circ> vl_name \<circ> snd) e = fst e" if "e \<in> set (rolled ?cs)" for e
    using rolled_key [OF that] by (simp only: comp_def)
  then have "set (map (lower \<circ> vl_name) (version_rollup sources)) = fst ` set (rolled ?cs)"
    unfolding set_map set_rollup image_image comp_def by (intro image_cong) simp_all
  then show ?thesis using rolled_keys [of ?cs] by simp
qed

lemma rollup_key_distinct: "distinct (map (version_sort_key \<circ> vl_name) (version_rollup sources))"
proof -
  let ?m = "rolled (concat (map claims_of sources))"
  have "map fst ?m = map (lower \<circ> vl_name) (map snd ?m)"
    unfolding map_map by (intro map_cong refl) (simp only: comp_def rolled_key)
  then have "distinct (map (lower \<circ> vl_name) (map snd ?m))" using rolled_keys [of "concat (map claims_of sources)"] by argo
  moreover have "map (lower \<circ> vl_name) (map snd ?m) = map (snd \<circ> snd) (map (version_sort_key \<circ> vl_name) (map snd ?m))"
    by (simp add: version_sort_key_def Let_def)
  ultimately have "distinct (map (version_sort_key \<circ> vl_name) (map snd ?m))" by (metis distinct_map)
  moreover have "mset (map (version_sort_key \<circ> vl_name) (version_rollup sources)) = mset (map (version_sort_key \<circ> vl_name) (map snd ?m))"
    by (simp add: version_rollup_def rolled_def Let_def image_mset.compositionality comp_assoc)
  ultimately show ?thesis using mset_eq_imp_distinct_iff by blast
qed

lemma sorted_wrt_strict:
  fixes f :: "'a \<Rightarrow> 'b :: linorder"
  shows "sorted (map f xs) \<Longrightarrow> distinct (map f xs) \<Longrightarrow> sorted_wrt (\<lambda>a b. f a < f b) xs"
  by (induction xs) (auto simp: less_le)

lemma affected_listed_helper:
  assumes "r \<in> set (vr_results run)" and "c \<in> set (claims_of (br_branch r, br_version_impact r))" and "fst (snd c) = ''affected''"
  shows "lower (fst c) \<in> set (map lower (affected_versions run))"
proof -
  let ?sources = "run_sources run"
  have c: "c \<in> set (concat (map claims_of ?sources))" using assms(1,2) by (auto simp: run_sources_def)
  then have "lower (fst c) \<in> set (map (lower \<circ> vl_name) (version_rollup ?sources))" unfolding rollup_lines by simp
  then obtain l where l: "l \<in> set (version_rollup ?sources)" "lower (vl_name l) = lower (fst c)" by auto
  have "fst (snd c) \<in> set (statuses_of (lower (fst c)) ?sources)"
    using c by (auto simp: statuses_of_def statuses_in_def)
  then have "fst (agreed (statuses_of (lower (fst c)) ?sources)) = ''affected''"
    using assms(3) by (auto simp: agreed_def list_all_iff)
  then have "vl_status l = ''affected''" using rollup_status_helper [OF l(1)] l(2) by (metis fst_conv)
  then show ?thesis using l by (auto simp: affected_versions_def image_iff intro!: bexI [of _ l])
qed

section \<open>One answer\<close>

text \<open>What the table can rely on: few rows, for different lines, each short and of a known status.\<close>

definition row_ok :: "json \<Rightarrow> bool" where
  "row_ok row = (case row of JObj [(n, JStr name), (s, JStr status), (q, JStr reason)] \<Rightarrow>
       n = ''name'' \<and> s = ''status'' \<and> q = ''reason'' \<and> name \<noteq> [] \<and> length name \<le> 60 \<and> length reason \<le> 300
       \<and> status \<in> {''affected'', ''not-affected'', ''unclear''}
     | _ \<Rightarrow> False)"

definition row_name :: "json \<Rightarrow> string" where
  "row_name row = (case row of JObj ((n, JStr name) # _) \<Rightarrow> lower name | _ \<Rightarrow> [])"

definition impact_ok :: "json \<Rightarrow> bool" where
  "impact_ok v = (case v of JList rows \<Rightarrow> length rows \<le> 12 \<and> distinct (map row_name rows) \<and> list_all row_ok rows | _ \<Rightarrow> False)"

definition answer_ok :: "branch_result \<Rightarrow> bool" where
  "answer_ok r \<longleftrightarrow> br_verdict r \<in> {''affected'', ''not-affected'', ''unclear'', ''error''}
     \<and> (case br_confidence r of None \<Rightarrow> True | Some x \<Rightarrow> 0 \<le> x \<and> x \<le> 1)
     \<and> impact_ok (br_version_impact r)"

lemma alias_known: "dict_get ''unclear'' VERSION_STATUS_ALIASES s \<in> {''affected'', ''not-affected'', ''unclear''}"
proof (cases "map_of VERSION_STATUS_ALIASES s")
  case None
  then show ?thesis by (simp add: dict_get_def)
next
  case (Some v)
  then have "v \<in> snd ` set VERSION_STATUS_ALIASES" using map_of_SomeD by force
  then have "v \<in> {''affected'', ''not-affected'', ''unclear''}" unfolding VERSION_STATUS_ALIASES_def by auto
  then show ?thesis using Some by (simp only: dict_get_def option.case)
qed

lemma entry_row_ok: "entry_name item \<noteq> [] \<Longrightarrow> row_ok (entry_row item)"
  using alias_known [of "lower (strip (str_get [] item ''status''))"]
  by (simp add: row_ok_def entry_row_def version_row_def entry_name_def MAX_VERSION_NAME_CHARS_def MAX_VERSION_REASON_CHARS_def)

lemma entry_row_name: "row_name (entry_row item) = lower (entry_name item)"
  by (simp add: row_name_def entry_row_def version_row_def)

lemma impact_rows_ok:
  "n < 12 \<Longrightarrow> length (impact_rows n seen items) \<le> 12 - n \<and> distinct (map row_name (impact_rows n seen items))
     \<and> set seen \<inter> set (map row_name (impact_rows n seen items)) = {} \<and> list_all row_ok (impact_rows n seen items)"
proof (induction n seen items rule: impact_rows.induct)
  case (2 n seen item items)
  define name where "name = entry_name item"
  define skip where "skip \<longleftrightarrow> name = [] \<or> lower name \<in> set seen"
  have eq: "impact_rows n seen (JObj item # items) = (if skip then impact_rows n seen items
      else entry_row item # (if 12 \<le> Suc n then [] else impact_rows (Suc n) (lower name # seen) items))"
    by (simp add: skip_def name_def Let_def MAX_VERSION_ENTRIES_def)
  show ?case
  proof (cases skip)
    case True
    then show ?thesis unfolding eq using "2.IH"(1) "2.prems" by (simp add: skip_def name_def)
  next
    case False
    then have n: "name \<noteq> []" "lower name \<notin> set seen" by (auto simp: skip_def)
    have row: "row_ok (entry_row item)" "row_name (entry_row item) = lower name"
      using n entry_row_ok entry_row_name by (auto simp: name_def)
    show ?thesis
    proof (cases "12 \<le> Suc n")
      case True
      then show ?thesis unfolding eq using False row n "2.prems" by simp
    next
      case small: False
      have ih: "length (impact_rows (Suc n) (lower name # seen) items) \<le> 12 - Suc n
         \<and> distinct (map row_name (impact_rows (Suc n) (lower name # seen) items))
         \<and> set (lower name # seen) \<inter> set (map row_name (impact_rows (Suc n) (lower name # seen) items)) = {}
         \<and> list_all row_ok (impact_rows (Suc n) (lower name # seen) items)"
        using "2.IH"(2) [of name] small False by (simp add: skip_def name_def MAX_VERSION_ENTRIES_def)
      have len: "Suc (12 - Suc n) \<le> 12 - n" using "2.prems" by simp
      show ?thesis unfolding eq using False small row n ih len by auto
    qed
  qed
qed simp_all

lemma parse_version_impact_ok: "impact_ok (JList (parse_version_impact v))"
  using impact_rows_ok [of 0 "[]"] by (cases v) (simp_all add: impact_ok_def parse_version_impact_def)

lemma read_verdict_ok: "answer_ok (read_verdict d)"
  using parse_version_impact_ok
  by (auto simp: answer_ok_def read_verdict_def blank_result_def known_verdict_def VERDICT_CHOICES_def read_confidence_def
      split: json.splits)

lemma parse_verdict_ok: "parse_verdict output = Some r \<Longrightarrow> answer_ok r"
  using read_verdict_ok by (auto simp: parse_verdict_def)

section \<open>Cited paths\<close>

lemma add_path_distinct: "distinct (map lower ps) \<Longrightarrow> distinct (map lower (add_path c ps))"
  unfolding add_path_def by (cases "c = [] \<or> lower c \<in> set (map lower ps) \<or> (has_diff_prefix c \<and> lower (drop 2 c) \<in> set (map lower ps))") auto

lemma fold_add_path_distinct: "distinct (map lower ps) \<Longrightarrow> distinct (map lower (fold add_path cs ps))"
  by (induction cs arbitrary: ps) (simp_all add: add_path_distinct)

lemma gather_paths_distinct: "distinct (map lower ps) \<Longrightarrow> distinct (map lower (gather_paths ps ms))"
  by (induction ps ms rule: gather_paths.induct) (simp_all add: Let_def fold_add_path_distinct)

lemma unique_paths_ok: "distinct (map lower (unique_paths s)) \<and> length (unique_paths s) \<le> 30"
proof -
  have "distinct (map lower (gather_paths [] (patch_path_matches s @ cited_matches True s)))"
    by (rule gather_paths_distinct) simp
  then show ?thesis by (simp add: unique_paths_def MAX_PATHS_def take_map [symmetric])
qed

section \<open>The script that tries a patch\<close>

lemma split_on_plain: "c \<notin> set s \<Longrightarrow> split_on c s = [s]"
  by (induction s) auto

lemma split_on_ne [simp]: "split_on c s \<noteq> []"
  by (induction s) (auto split: list.splits)

lemma split_on_append: "split_on c (s @ c # t) = split_on c s @ split_on c t"
proof (induction s)
  case (Cons x s)
  then show ?case by (cases "split_on c s") simp_all
qed simp

lemma split_on_hd_prefix: "\<exists>t. s = hd (split_on c s) @ t"
  by (induction s) (auto split: list.splits)

lemma split_on_sublist: "l \<in> set (split_on c s) \<Longrightarrow> sublist l s"
proof (induction s arbitrary: l)
  case (Cons x s)
  show ?case
  proof (cases "x = c")
    case True
    then have "l = [] \<or> sublist l s" using Cons by auto
    then show ?thesis by (auto simp: sublist_Cons_right)
  next
    case False
    obtain p ps where p: "split_on c s = p # ps" by (cases "split_on c s") simp_all
    then have "\<exists>t. s = p @ t" using split_on_hd_prefix [of s c] by simp
    then have "sublist (x # p) (x # s)" by (auto intro!: prefix_imp_sublist)
    moreover have "l = x # p \<or> l \<in> set (split_on c s)" using Cons.prems False p by auto
    ultimately show ?thesis using Cons.IH by (auto simp: sublist_Cons_right)
  qed
qed simp

lemma rstrip_newlines_prefix: "prefix (rstrip_newlines s) s"
proof -
  have "suffix (dropWhile (\<lambda>c. c = newline) (rev s)) (rev s)" by (rule suffix_dropWhile)
  then show ?thesis by (simp add: rstrip_newlines_def suffix_to_prefix)
qed

lemma heredoc_helper:
  assumes hex: "newline \<notin> set (sha256_hex patch)" and script: "apply_check_script sha256_hex patch rv = Some script"
  shows "takeWhile (\<lambda>l. l \<noteq> patch_delimiter sha256_hex patch) (drop 2 (split_on newline script))
     = split_on newline (rstrip_newlines patch)"
proof -
  define d where "d = patch_delimiter sha256_hex patch"
  define body where "body = rstrip_newlines patch"
  define l1 where "l1 = ''__frank_p='' @ [dq] @ ''${TMPDIR:-/tmp}/'' @ d @ ''.diff'' @ [dq]"
  define l2 where "l2 = ''cat > '' @ [dq] @ ''$__frank_p'' @ [dq] @ '' <<'' @ [sq] @ d @ [sq]"
  have no: "\<not> sublist d patch" using script by (auto simp: apply_check_script_def d_def Let_def split: if_splits)
  define rest where "rest = ''git apply --check'' @ (if rv then '' -R'' else []) @ '' --whitespace=nowarn '' @ [dq] @ ''$__frank_p'' @ [dq, newline]
    @ ''__frank_rc=$?'' @ [newline] @ ''rm -f '' @ [dq] @ ''$__frank_p'' @ [dq, newline] @ ''exit $__frank_rc'' @ [newline]"
  define big where "big \<longleftrightarrow> MAX_PATCH_CHARS < int (length patch) \<or> CHR 0x00 \<in> set patch \<or> sublist d patch"
  have "apply_check_script sha256_hex patch rv = (if big then None else Some (l1 @ newline # l2 @ newline # body @ newline # d @ newline # rest))"
    by (simp add: apply_check_script_def Let_def big_def d_def body_def l1_def l2_def rest_def)
  then have s: "script = l1 @ newline # l2 @ newline # body @ newline # d @ newline # rest"
    using script by (cases big) simp_all
  have d: "newline \<notin> set d" using hex by (auto simp: d_def patch_delimiter_def dest: in_set_takeD)
  have 1: "split_on newline l1 = [l1]" "split_on newline l2 = [l2]" "split_on newline d = [d]"
  proof -
    have "newline \<notin> set l1" "newline \<notin> set l2" using d by (simp_all add: l1_def l2_def dq_def sq_def)
    then show "split_on newline l1 = [l1]" "split_on newline l2 = [l2]" by (simp_all add: split_on_plain)
    show "split_on newline d = [d]" using d by (rule split_on_plain)
  qed
  have "split_on newline script = [l1, l2] @ split_on newline body @ d # split_on newline rest"
    unfolding s split_on_append 1 by simp
  then have "drop 2 (split_on newline script) = split_on newline body @ d # split_on newline rest" by simp
  moreover have "l \<noteq> d" if "l \<in> set (split_on newline body)" for l
  proof
    assume "l = d"
    then have "sublist d body" using that split_on_sublist by blast
    then have "sublist d patch" using rstrip_newlines_prefix [of patch] unfolding body_def
      by (meson prefix_imp_sublist sublist_order.order_trans)
    then show False using no by contradiction
  qed
  ultimately show ?thesis unfolding d_def [symmetric] body_def [symmetric]
    by (simp add: takeWhile_append)
qed

section \<open>One branch\<close>






lemma mapped_fields:
  "br_verdict (mapped_result branch paths found patch applies t) = fst (branch_verdict found patch applies)"
  "br_branch (mapped_result branch paths found patch applies t) = branch"
  by (simp_all add: mapped_result_def Let_def split: prod.splits)

lemma unlisted_fields:
  "br_verdict (unlisted_result branch listing t) = ''error''" "br_branch (unlisted_result branch listing t) = branch"
  by (simp_all add: unlisted_result_def Let_def)


section \<open>What is kept\<close>

definition verification_key :: "verification_row \<Rightarrow> nat \<times> string" where
  "verification_key r = (sv_report r, sv_branch r)"

text \<open>The table's unique constraint.\<close>

definition unique_verifications :: "verification_row list \<Rightarrow> bool" where
  "unique_verifications table \<longleftrightarrow> distinct (map verification_key table)"

definition without_impact :: "verification_row \<Rightarrow> verification_row" where
  "without_impact r = r\<lparr>sv_version_impact := JNull\<rparr>"

lemma is_verification_key: "is_verification p b r \<longleftrightarrow> verification_key r = (p, b)"
  by (simp add: is_verification_def verification_key_def)

lemma result_row_fields [simp]:
  "verification_key (result_row p now order agent o') = (p, br_branch o')"
  "sv_report (result_row p now order agent o') = p" "sv_branch (result_row p now order agent o') = br_branch o'"
  "sv_agent (result_row p now order agent o') = agent"
  by (simp_all add: result_row_def verification_key_def)

lemma map_key_same:
  assumes "\<And>r. verification_key (f r) = verification_key r"
  shows "map verification_key (map f table) = map verification_key table"
  using assms by simp

lemma put_keys:
  "map verification_key (put_verification row table) =
     (if verification_key row \<in> set (map verification_key table) then map verification_key table
      else map verification_key table @ [verification_key row])"
proof -
  have k: "is_verification (sv_report row) (sv_branch row) r \<longleftrightarrow> verification_key r = verification_key row" for r
    by (simp add: is_verification_key verification_key_def)
  have "verification_key (if verification_key r = verification_key row then row else r) = verification_key r" for r by simp
  then have same: "map verification_key (map (\<lambda>r. if verification_key r = verification_key row then row else r) table)
      = map verification_key table" by simp
  have ex: "list_ex (\<lambda>r. verification_key r = verification_key row) table \<longleftrightarrow> verification_key row \<in> set (map verification_key table)"
    by (induction table) auto
  show ?thesis unfolding put_verification_def k using same ex
    by (cases "verification_key row \<in> set (map verification_key table)") simp_all
qed

lemma put_unique: "unique_verifications table \<Longrightarrow> unique_verifications (put_verification row table)"
  unfolding unique_verifications_def put_keys by (cases "verification_key row \<in> set (map verification_key table)") auto

lemma fill_impact_same:
  "verification_key (fill_impact res r) = verification_key r" "is_deep (fill_impact res r) = is_deep r"
  "without_impact (fill_impact res r) = without_impact r"
  by (simp_all add: fill_impact_def verification_key_def is_deep_def without_impact_def)

lemma fill_keys:
  "map verification_key (map (\<lambda>r. if is_verification p b r then fill_impact res r else r) table) = map verification_key table"
  by (simp add: fill_impact_same)

lemma persist_map_keys:
  "set (map verification_key (persist_map_result p now order res table)) = insert (p, br_branch res) (set (map verification_key table))
    \<and> (unique_verifications table \<longrightarrow> unique_verifications (persist_map_result p now order res table))"
proof (cases "find (is_verification p (br_branch res)) table")
  case None
  then show ?thesis using put_unique [of table "result_row p now order VERSION_MAP_AGENT res"]
    by (simp add: persist_map_result_def put_keys insert_absorb)
next
  case (Some e)
  then have e: "e \<in> set table" "verification_key e = (p, br_branch res)"
    by (auto simp: find_Some_iff is_verification_key)
  show ?thesis
  proof (cases "is_deep e")
    case True
    then have eq: "persist_map_result p now order res table =
        map (\<lambda>r. if is_verification p (br_branch res) r then fill_impact res r else r) table"
      using Some by (simp add: persist_map_result_def)
    have "verification_key e \<in> set (map verification_key table)" using e(1) by simp
    then have "(p, br_branch res) \<in> set (map verification_key table)" by (simp only: e(2))
    then show ?thesis unfolding eq unique_verifications_def fill_keys by (simp only: insert_absorb simp_thms)
  next
    case False
    then have eq: "persist_map_result p now order res table = put_verification (result_row p now order VERSION_MAP_AGENT res) table"
      using Some by (simp add: persist_map_result_def)
    show ?thesis unfolding eq using put_unique by (simp add: put_keys insert_absorb)
  qed
qed

lemma persist_version_map_unique:
  "unique_verifications table \<Longrightarrow> unique_verifications (persist_version_map p now order results table)"
  by (induction p now order results table rule: persist_version_map.induct) (simp_all add: persist_map_keys)

lemma persist_version_map_keys:
  "set (map verification_key (persist_version_map p now order results table))
     = set (map verification_key table) \<union> (\<lambda>r. (p, br_branch r)) ` set results"
proof (induction p now order results table rule: persist_version_map.induct)
  case (2 p now order res rest table)
  show ?case unfolding persist_version_map.simps 2 using persist_map_keys [of p now order res table] by auto
qed simp

lemma filter_map_keep:
  assumes "\<And>r. r \<in> set xs \<Longrightarrow> P (f r) = P r" and "\<And>r. r \<in> set xs \<Longrightarrow> P r \<Longrightarrow> g (f r) = g r"
  shows "map g (filter P (map f xs)) = map g (filter P xs)"
  using assms by (induction xs) auto

lemma not_deep_row: "\<not> is_deep (result_row p now order VERSION_MAP_AGENT res)"
  by (simp add: is_deep_def)

lemma put_keeps_deep:
  assumes "\<not> is_deep row" and "\<And>r. r \<in> set table \<Longrightarrow> verification_key r = verification_key row \<Longrightarrow> \<not> is_deep r"
  shows "map without_impact (filter is_deep (put_verification row table)) = map without_impact (filter is_deep table)"
proof -
  have k: "is_verification (sv_report row) (sv_branch row) r \<longleftrightarrow> verification_key r = verification_key row" for r
    by (simp add: is_verification_key verification_key_def)
  have "map without_impact (filter is_deep (map (\<lambda>r. if verification_key r = verification_key row then row else r) table))
      = map without_impact (filter is_deep table)"
    by (rule filter_map_keep) (use assms in auto)
  then show ?thesis unfolding put_verification_def k using assms(1) by simp
qed

lemma persist_map_keeps_deep:
  assumes "unique_verifications table"
  shows "map without_impact (filter is_deep (persist_map_result p now order res table)) = map without_impact (filter is_deep table)"
proof (cases "find (is_verification p (br_branch res)) table")
  case None
  then have "verification_key r \<noteq> (p, br_branch res)" if "r \<in> set table" for r
    using that by (auto simp: find_None_iff is_verification_key)
  then show ?thesis using None put_keeps_deep [OF not_deep_row, of table p now order res]
    by (simp add: persist_map_result_def)
next
  case (Some e)
  then have e: "e \<in> set table" "verification_key e = (p, br_branch res)" by (auto simp: find_Some_iff is_verification_key)
  show ?thesis
  proof (cases "is_deep e")
    case True
    then have eq: "persist_map_result p now order res table =
        map (\<lambda>r. if is_verification p (br_branch res) r then fill_impact res r else r) table"
      using Some by (simp add: persist_map_result_def)
    show ?thesis unfolding eq by (rule filter_map_keep) (simp_all add: fill_impact_same)
  next
    case False
    have "\<not> is_deep r" if "r \<in> set table" "verification_key r = (p, br_branch res)" for r
      using assms that e False unfolding unique_verifications_def distinct_map inj_on_def by metis
    then show ?thesis using Some False put_keeps_deep [OF not_deep_row, of table p now order res]
      by (simp add: persist_map_result_def)
  qed
qed

lemma deep_kept_helper:
  "unique_verifications table \<Longrightarrow>
     map without_impact (filter is_deep (persist_version_map p now order results table)) = map without_impact (filter is_deep table)"
  by (induction p now order results table rule: persist_version_map.induct) (simp_all add: persist_map_keeps_deep persist_map_keys)

section \<open>The branches of a run\<close>

lemma choose_branches_bound:
  "int (length (choose_branches named cutoff (Some n) chosen refs)) \<le> max n (int (length chosen) + 1)"
proof (induction refs arbitrary: chosen)
  case (Cons ref refs)
  obtain name committed where r: "ref = (name, committed)" by (cases ref)
  have "int (length (choose_branches named cutoff (Some n) (chosen @ [name]) refs)) \<le> n" if "\<not> n \<le> int (length chosen) + 1"
    using Cons.IH [of "chosen @ [name]"] that by simp
  then show ?case using Cons.IH [of chosen] by (auto simp: r Let_def)
qed simp

lemma select_bound_helper:
  "int (length (fst (select_branches re_match clock ex cwd vs False w))) \<le> max (vs_max_branches vs) 1 + 1"
proof -
  obtain dflt w1 where d: "default_branch ex cwd w = (dflt, w1)" by fastforce
  obtain refs w2 where r: "origin_refs_by_recency ex cwd w1 = (refs, w2)" by fastforce
  show ?thesis
  proof (cases refs)
    case None
    then show ?thesis by (cases "dflt = []") (simp_all add: select_branches_def d r max_def)
  next
    case (Some rs)
    show ?thesis
    proof (cases "dflt = []")
      case True
      have "int (length (fst (select_branches re_match clock ex cwd vs False w))) \<le> max (vs_max_branches vs) 1"
        using choose_branches_bound [of _ _ "vs_max_branches vs" "[]" rs] by (simp add: select_branches_def d r Some True)
      then show ?thesis by simp
    next
      case False
      have "int (length (fst (select_branches re_match clock ex cwd vs False w))) \<le> max (vs_max_branches vs + 1) 2"
        using choose_branches_bound [of _ _ "vs_max_branches vs + 1" "[dflt]" rs] False by (simp add: select_branches_def d r Some)
      then show ?thesis by simp
    qed
  qed
qed

lemma map_one_branch_name: "br_branch (fst (map_one_branch sha256_hex monotonic ex cwd paths patch branch w)) = branch"
  by (auto simp: map_one_branch_def Let_def mapped_fields unlisted_fields split: prod.splits)

lemma map_branches_names: "map br_branch (fst (map_branches sha256_hex monotonic ex cwd paths patch branches w)) = branches"
proof (induction branches arbitrary: w)
  case (Cons b rest)
  then show ?case using map_one_branch_name [of sha256_hex monotonic ex cwd paths patch b w]
    by (auto split: prod.splits) (metis fst_conv)+
qed simp

definition run_recorded :: "cited_report \<Rightarrow> verification_row list \<Rightarrow> verification_run \<times> verification_row list \<times> 'w \<Rightarrow> bool" where
  "run_recorded report table out = (case out of (run, table', w') \<Rightarrow>
     (vr_error run \<noteq> [] \<and> vr_results run = [] \<and> table' = table)
     \<or> (vr_error run = [] \<and> vr_branches_considered run \<noteq> [] \<and> map br_branch (vr_results run) = vr_branches_considered run
        \<and> (\<exists>now. table' = persist_version_map (se_pk report) now 0 (vr_results run) table)))"

lemma map_checkout_recorded: "run_recorded report table (map_checkout su ex cwd vs report paths table w)"
proof -
  obtain stale w1 where f: "refresh_from_upstream ex cwd w = (stale, w1)" by fastforce
  obtain branches w2 where s: "select_branches (su_re_match su) (su_time su) ex cwd vs True w1 = (branches, w2)" by fastforce
  obtain results w3 where m: "map_branches (su_sha256_hex su) (su_monotonic su) ex cwd paths (se_proposed_patch report) branches w2 = (results, w3)"
    by fastforce
  have "map br_branch results = branches" using map_branches_names [of "su_sha256_hex su" "su_monotonic su" ex cwd paths
      "se_proposed_patch report" branches w2] m by simp
  then show ?thesis unfolding map_checkout_def f s m Let_def prod.case run_recorded_def
    by (cases "branches = []") (auto simp: blank_run_def m)
qed

lemma failed_recorded: "why \<noteq> [] \<Longrightarrow> run_recorded report table (failed_run why, table, w)"
  by (simp add: run_recorded_def failed_run_def blank_run_def)

lemma map_report_recorded: "run_recorded report table (map_report_versions su vs reviewers report table w)"
proof (cases "vs_enabled vs")
  case True
  show ?thesis
  proof (cases "se_project report")
    case None
    then show ?thesis using True by (simp add: map_report_versions_def failed_recorded)
  next
    case (Some project)
    show ?thesis
    proof (cases "resolve_verifier_reviewer reviewers (vs_reviewer vs)")
      case None
      then show ?thesis using True Some by (simp add: map_report_versions_def failed_recorded)
    next
      case remote: (Some remote)
      define no where "no \<longleftrightarrow> extract_report_paths table report = [] \<and> strip (se_proposed_patch report) = []"
      obtain dir w1 where d: "ex_prepare_repo (su_make_executor su remote) (pj_owner project) (pj_repo project)
          (su_local_checkout su (pj_owner project) (pj_repo project)) (vs_workspace_subdir vs) w = (dir, w1)" by fastforce
      show ?thesis
      proof (cases no)
        case True
        then show ?thesis using \<open>vs_enabled vs\<close> Some remote by (simp add: map_report_versions_def failed_recorded no_def Let_def)
      next
        case False
        then show ?thesis using True Some remote d map_checkout_recorded
          unfolding map_report_versions_def Let_def no_def [symmetric]
          by (cases "case dir of None \<Rightarrow> [] | Some d \<Rightarrow> d") (simp_all add: failed_recorded)
      qed
    qed
  qed
qed (simp add: map_report_versions_def failed_recorded)

section \<open>The properties\<close>

text \<open>
  C22: Each row of the release table says what all the looks at its release line come to: one answer
  when they agree, and otherwise a conflict that is affected if any of them said so and unclear if
  not. The order in which the branches were read does not matter, and a disagreement never reads as
  a clean not-affected.
\<close>
theorem rollup_agrees:
  assumes "line \<in> set (version_rollup sources)"
  shows "(vl_status line, vl_conflict line) = agreed (statuses_of (lower (vl_name line)) sources)"
  using assms by (rule rollup_status_helper)

text \<open>
  No affected release is left out. If the answer for any branch calls a release line affected,
  that line is among the affected versions of the run, whatever the other branches say of it.
\<close>
theorem affected_release_listed:
  assumes "r \<in> set (vr_results run)" and "c \<in> set (claims_of (br_branch r, br_version_impact r))" and "fst (snd c) = ''affected''"
  shows "lower (fst c) \<in> set (map lower (affected_versions run))"
  using assms by (rule affected_listed_helper)

text \<open>
  The table is in strictly descending order of the versions, so no release line has two rows.
\<close>
lemma rollup_newest_first:
  "sorted_wrt (\<lambda>a b. version_sort_key (vl_name b) < version_sort_key (vl_name a)) (version_rollup sources)"
proof -
  let ?key = "\<lambda>l. version_sort_key (vl_name l)"
  have "sorted (map ?key (rev (version_rollup sources)))"
    by (simp add: version_rollup_def Let_def)
  moreover have "distinct (map ?key (rev (version_rollup sources)))"
    using rollup_key_distinct [of sources] by (simp add: comp_def rev_map [symmetric])
  ultimately have "sorted_wrt (\<lambda>a b. ?key a < ?key b) (rev (version_rollup sources))" by (rule sorted_wrt_strict)
  then show ?thesis by (simp add: sorted_wrt_rev)
qed

text \<open>
  C32: Whatever an agent prints, what is read out of it is well formed: the verdict is one of the four, the
  confidence lies in the unit interval, and the breakdown has at most twelve rows, for different
  release lines, each short and with a status of the table.
\<close>
theorem answers_are_well_formed:
  assumes "parse_verdict output = Some r"
  shows "answer_ok r"
  using assms by (rule parse_verdict_ok)

text \<open>
  C23: A patch cannot break out of the here-document it travels in. Of the script that tries it, the
  lines from the third up to the delimiter, which is where the shell stops reading the document, are
  exactly the lines of the patch. The one thing taken of the digest is that it has no line breaks.
\<close>
theorem patch_stays_in_document:
  assumes "newline \<notin> set (sha256_hex patch)" and "apply_check_script sha256_hex patch rv = Some script"
  shows "takeWhile (\<lambda>l. l \<noteq> patch_delimiter sha256_hex patch) (drop 2 (split_on newline script))
     = split_on newline (rstrip_newlines patch)"
  using assms by (rule heredoc_helper)


text \<open>
  C30: Keeping the results of a version map changes no deep look that gave an answer, in any report
  and on any branch, but for a breakdown that was empty; and it makes up none.
\<close>
theorem deep_looks_kept:
  assumes "unique_verifications table"
  shows "map without_impact (filter is_deep (persist_version_map p now order results table))
     = map without_impact (filter is_deep table)"
  using assms by (rule deep_kept_helper)

text \<open>
  C31: A run that did not fail leaves a row for every branch it considered, and one row per report
  and branch.
\<close>
theorem every_branch_recorded:
  assumes "unique_verifications table"
    and "map_report_versions su vs reviewers report table w = (run, table', w')" and "vr_error run = []"
  shows "unique_verifications table' \<and>
     (\<lambda>b. (se_pk report, b)) ` set (vr_branches_considered run) \<subseteq> set (map verification_key table')"
proof -
  have "run_recorded report table (run, table', w')"
    using map_report_recorded [of report table su vs reviewers w] assms(2) by simp
  then obtain now where names: "map br_branch (vr_results run) = vr_branches_considered run"
    and t: "table' = persist_version_map (se_pk report) now 0 (vr_results run) table"
    using assms(3) by (auto simp: run_recorded_def)
  have "set (vr_branches_considered run) = br_branch ` set (vr_results run)" by (simp add: names [symmetric])
  then show ?thesis unfolding t using persist_version_map_unique [OF assms(1)] persist_version_map_keys
    by (auto simp del: set_map)
qed

text \<open>A run that failed leaves the table alone.\<close>
lemma failed_run_keeps_table:
  assumes "map_report_versions su vs reviewers report table w = (run, table', w')" and "vr_error run \<noteq> []"
  shows "table' = table"
  using map_report_recorded [of report table su vs reviewers w] assms by (auto simp: run_recorded_def)

text \<open>
  The cap on branches counts the version branches, and is tested after one is taken: a cap of zero
  still takes one.
\<close>
lemma selected_branches_bounded:
  "int (length (fst (select_branches re_match clock ex cwd vs False w))) \<le> max (vs_max_branches vs) 1 + 1"
  by (rule select_bound_helper)

section \<open>Witnesses\<close>

definition git_says :: "int \<Rightarrow> string \<Rightarrow> exec_result option" where
  "git_says code out = Some \<lparr>er_returncode = code, er_stdout = out, er_stderr = []\<rparr>"

definition git_answer :: "string list \<Rightarrow> exec_result option" where
  "git_answer argv = (case argv of _ # c # _ \<Rightarrow>
       (if c = ''symbolic-ref'' then git_says 0 ''origin/main''
        else if c = ''for-each-ref'' then git_says 0 (''origin/HEAD 900'' @ [newline] @ ''origin/main 900'' @ [newline]
          @ ''origin/branch-3.5 900'' @ [newline] @ ''origin/branch-1.0 100'')
        else if c = ''ls-tree'' then git_says 0 (if last argv = ''origin/main'' then ''src/a.py'' else ''src/b.py'')
        else if c = ''-c'' then git_says 1 [] else git_says 0 ''c0ffee'')
     | _ \<Rightarrow> None)"

definition sample_git :: "nat executor" where
  "sample_git = \<lparr>ex_run = (\<lambda>argv cwd t w. (git_answer argv, Suc w)), ex_prepare_repo = (\<lambda>owner repo here sub w. (Some ''/w'', w))\<rparr>"

definition sample_surroundings :: "(unit, nat) map_surroundings" where
  "sample_surroundings = \<lparr>su_sha256_hex = (\<lambda>s. ''0123456789abcdef0''), su_re_match = (\<lambda>p name. prefix p name), su_time = (\<lambda>w. 15552500),
     su_monotonic = rat_of_nat, su_timezone_now = int, su_local_checkout = (\<lambda>owner repo. None), su_make_executor = (\<lambda>_. sample_git)\<rparr>"

definition sample_verifier :: verifier_settings where
  "sample_verifier = \<lparr>vs_enabled = True, vs_reviewer = ''claude'', vs_max_branches = 3, vs_branch_active_within_days = 180,
     vs_branch_patterns = [''branch-''], vs_workspace_subdir = ''security-verify''\<rparr>"

definition sample_patch :: string where
  "sample_patch = ''--- a/src/a.py'' @ [newline] @ ''+++ b/src/a.py'' @ [newline] @ ''+EOF'' @ [newline]"

definition sample_finding :: cited_report where
  "sample_finding = \<lparr>se_pk = 4, se_project = Some \<lparr>pj_pk = 1, pj_owner = ''apache'', pj_repo = ''spark''\<rparr>, se_title = ''bug'',
     se_raw_text = ''see src/a.py'', se_parsed_component = [], se_parsed_poc = [], se_proposed_patch = sample_patch\<rparr>"

definition deep_row :: verification_row where
  "deep_row = result_row 4 5 0 ''claude/opus'' (blank_result\<lparr>br_branch := ''main'', br_verdict := ''not-affected''\<rparr>)"

definition sample_sources :: "(string \<times> json) list" where
  "sample_sources = [(''main'', JList [version_row ''3.5.x'' ''not-affected'' []]), (''branch-3.5'', JList [version_row ''3.5.X'' ''unclear'' []])]"

definition sample_run :: verification_run where
  "sample_run = blank_run\<lparr>vr_results := map (\<lambda>(b, v). blank_result\<lparr>br_branch := b, br_version_impact := v\<rparr>)
     (sample_sources @ [(''branch-3.4'', JList [version_row ''3.5.x'' ''affected'' [], version_row ''3.4.x'' ''affected'' []])])\<rparr>"

theorem rollup_agrees_witness: "version_rollup sample_sources \<noteq> [] \<and> vl_conflict (hd (version_rollup sample_sources))"
proof -
  have n: "version_rollup sample_sources \<noteq> []" by code_simp
  then have "hd (version_rollup sample_sources) \<in> set (version_rollup sample_sources)" by simp
  note rollup_agrees [OF this]
  moreover have "snd (agreed (statuses_of (lower (vl_name (hd (version_rollup sample_sources)))) sample_sources))" by code_simp
  ultimately show ?thesis using n by (metis snd_conv)
qed

theorem affected_release_listed_witness: "''3.5.x'' \<in> set (map lower (affected_versions sample_run))"
proof -
  have 1: "last (vr_results sample_run) \<in> set (vr_results sample_run)" by code_simp
  have 2: "(''3.5.x'', ''affected'', ''branch-3.4'', []) \<in> set (claims_of (br_branch (last (vr_results sample_run)),
     br_version_impact (last (vr_results sample_run))))" by code_simp
  have 3: "fst (snd (''3.5.x'', ''affected'', ''branch-3.4'', [])) = ''affected''" by simp
  have "lower ''3.5.x'' = ''3.5.x''" by code_simp
  then show ?thesis using affected_release_listed [OF 1 2 3] by (simp only: fst_conv)
qed

theorem answers_are_well_formed_witness:
  "answer_ok (the (parse_verdict ''The answer: {\"verdict\": \"Affected\", \"confidence\": 7}''))"
proof -
  have "parse_verdict ''The answer: {\"verdict\": \"Affected\", \"confidence\": 7}'' \<noteq> None" by code_simp
  then show ?thesis using answers_are_well_formed by fastforce
qed

theorem patch_stays_in_document_witness:
  "takeWhile (\<lambda>l. l \<noteq> patch_delimiter (su_sha256_hex sample_surroundings) sample_patch)
     (drop 2 (split_on newline (the (apply_check_script (su_sha256_hex sample_surroundings) sample_patch False))))
   = split_on newline (rstrip_newlines sample_patch)"
proof -
  have 1: "newline \<notin> set (su_sha256_hex sample_surroundings sample_patch)" by code_simp
  have "apply_check_script (su_sha256_hex sample_surroundings) sample_patch False \<noteq> None" by code_simp
  then obtain script where 2: "apply_check_script (su_sha256_hex sample_surroundings) sample_patch False = Some script" by blast
  show ?thesis using patch_stays_in_document [OF 1 2] 2 by simp
qed


lemma sample_outcome:
  "(let (run, table', w') = map_report_versions sample_surroundings sample_verifier [(''claude'', ())] sample_finding [deep_row] 0 in
     vr_error run = [] \<and> vr_branches_considered run = [''main'', ''branch-3.5''] \<and> map sv_verdict table' = [''not-affected'', ''not-affected''])"
  by code_simp

theorem deep_looks_kept_witness:
  "map without_impact (filter is_deep (persist_version_map 4 9 0
     [blank_result\<lparr>br_branch := ''main'', br_verdict := ''affected''\<rparr>] [deep_row])) = [without_impact deep_row]"
proof -
  have "unique_verifications [deep_row]" by (simp add: unique_verifications_def)
  note kept = deep_looks_kept [OF this, of 4 9 0 "[blank_result\<lparr>br_branch := ''main'', br_verdict := ''affected''\<rparr>]"]
  have "filter is_deep [deep_row] = [deep_row]" by code_simp
  then show ?thesis using kept by (simp only: list.map)
qed

theorem every_branch_recorded_witness:
  "(4, ''branch-3.5'') \<in> set (map verification_key (fst (snd
     (map_report_versions sample_surroundings sample_verifier [(''claude'', ())] sample_finding [deep_row] 0))))"
proof -
  obtain run table' w' where m: "map_report_versions sample_surroundings sample_verifier [(''claude'', ())] sample_finding [deep_row] 0
     = (run, table', w')" by (rule prod_cases3)
  have u: "unique_verifications [deep_row]" by (simp add: unique_verifications_def)
  have e: "vr_error run = []" "vr_branches_considered run = [''main'', ''branch-3.5'']"
    using sample_outcome unfolding m Let_def prod.case by blast+
  show ?thesis using every_branch_recorded [OF u m e(1)] unfolding m by (simp add: e(2) sample_finding_def)
qed

lemma zero_cap_takes_one:
  "fst (select_branches (su_re_match sample_surroundings) (su_time sample_surroundings) sample_git ''/w''
     (sample_verifier\<lparr>vs_max_branches := 0\<rparr>) False 0) = [''main'', ''branch-3.5'']"
  by code_simp

lemma null_name_is_a_line: "map entry_name [[(''name'', JNull)]] = [''None'']"
  by code_simp

lemma null_preconditions_are_read:
  "verdict_summary [(''verdict'', JStr ''affected''), (''exploit_preconditions'', JNull)] = ''Preconditions: None''"
  by code_simp

text \<open>A patch that git could not read is put down to the checkout, which worked.\<close>

definition unreadable_git :: "nat executor" where
  "unreadable_git = sample_git\<lparr>ex_run := (\<lambda>argv cwd t w. (if argv ! 1 = ''-c'' then git_says 128 [] else git_answer argv, Suc w))\<rparr>"

lemma unreadable_patch_blames_checkout:
  "fst (checkout unreadable_git ''/w'' ''main'' False 0) = ''c0ffee''
   \<and> br_summary (fst (map_one_branch (su_sha256_hex sample_surroundings) (su_monotonic sample_surroundings) unreadable_git ''/w''
        [] sample_patch ''main'' 0))
      = ''main (unreleased): Could not try the proposed patch (checkout failed). File-presence / patch-check, not a code read.''"
  by code_simp

end
