(* ===== verification/BranchScan.thy ===== *)
theory BranchScan
  imports VersionMap CommandQueue
begin

text \<open>
  The two git sweeps over the backlog of security reports (\<open>security/branch_scan.py\<close>): which branch
  carries the fix of a report, and whether its proposed patch is already in the tree.

  A sweep reads its reports once and writes them one by one much later, each write an \<open>UPDATE\<close> that
  tests the row again. What the operator does in between is an argument, \<open>edit\<close>: the table just
  before the write number \<open>i\<close> is whatever \<open>edit i\<close> makes of the table left by the writes so far.
\<close>

section \<open>Rows, settings and results\<close>

record backlog_report = cited_report +
  bl_status :: string
  bl_source_agent :: string
  bl_source_archive :: string
  bl_priority :: rat
  bl_matched_cve_id :: string
  bl_finding_id :: string
  bl_fix_branch :: string
  bl_fix_base_branch :: string
  bl_fixed_in_branch :: string
  bl_branch_match_branch :: string
  bl_branch_match_confidence :: "rat option"
  bl_branch_match_reason :: string
  bl_branch_match_applied :: bool
  bl_branch_matched_at :: "int option"
  bl_recheck_status :: string
  bl_recheck_reason :: string
  bl_recheck_method :: string
  bl_rechecked_at :: "int option"
  bl_created_at :: int
  bl_updated_at :: int

definition NO_FIX_OWED_STATUSES :: "string list" where
  "NO_FIX_OWED_STATUSES = [''invalid'', ''expected-behavior'', ''duplicate'', ''info-only'', ''closed'']"

record branch_scan_config =
  bs_active_within_days :: int
  bs_max_branches :: int
  bs_max_commits_per_branch :: int
  bs_max_default_commits :: int
  bs_max_paths_per_branch :: int
  bs_max_reports_per_scan :: int

definition bounds_must_be_positive :: "int \<Rightarrow> string + int" where
  "bounds_must_be_positive v = (if v \<le> 0 then Inl ''security_triage.branch_scan bounds must be positive'' else Inr v)"

definition AUTO_TIE_CONFIDENCE :: rat where "AUTO_TIE_CONFIDENCE = 9/10"
definition MAX_MESSAGE_CHARS :: nat where "MAX_MESSAGE_CHARS = 2000"
definition MIN_FINDING_ID_CHARS :: nat where "MIN_FINDING_ID_CHARS = 4"

definition FIXED :: string where "FIXED = ''likely-fixed''"
definition STILL_VALID :: string where "STILL_VALID = ''still-valid''"
definition UNCLEAR :: string where "UNCLEAR = ''unclear''"
definition GIT_METHOD :: string where "GIT_METHOD = ''git''"

section \<open>Words and CVE ids\<close>

text \<open>\<open>_TOKEN_RE.findall\<close>: the maximal runs of \<open>[a-z0-9_]\<close>.\<close>

definition is_token_char :: "char \<Rightarrow> bool" where
  "is_token_char c \<longleftrightarrow> is_digit c \<or> c = CHR ''_'' \<or> (let n = (of_char c :: nat) in 97 \<le> n \<and> n \<le> 122)"

function find_tokens :: "string \<Rightarrow> string list" where
  "find_tokens [] = []"
| "find_tokens (c # s) = (if is_token_char c then (c # takeWhile is_token_char s) # find_tokens (dropWhile is_token_char s)
     else find_tokens s)"
  by pat_completeness auto
termination by (relation "measure length") (auto simp: less_Suc_eq_le length_dropWhile_le)

text \<open>\<open>cve-\d{4}-\d{4,19}\<close> at the head of a text: the length of the match.\<close>

definition cve_at :: "string \<Rightarrow> nat option" where
  "cve_at s = (let serial = takeWhile is_digit (drop 9 s) in
     if prefix ''cve-'' s \<and> length (take 4 (drop 4 s)) = 4 \<and> list_all is_digit (take 4 (drop 4 s)) \<and> prefix ''-'' (drop 8 s) \<and> 4 \<le> length serial
     then Some (9 + min 19 (length serial)) else None)"

function find_cves :: "string \<Rightarrow> string list" where
  "find_cves [] = []"
| "find_cves (c # s) = (case cve_at (c # s) of
     Some n \<Rightarrow> take n (c # s) # find_cves (drop (n - 1) s) | None \<Rightarrow> find_cves s)"
  by pat_completeness auto
termination by (relation "measure length") auto

definition usable_finding_id :: "string \<Rightarrow> string" where
  "usable_finding_id finding_id = (let stripped = lower (strip finding_id) in
     if length stripped < MIN_FINDING_ID_CHARS \<or> list_all is_digit stripped then []
     else (case find_tokens stripped of [t] \<Rightarrow> t | _ \<Rightarrow> []))"

section \<open>What a branch offers\<close>

record branch_evidence =
  ev_name :: string
  ev_name_tokens :: "string list"
  ev_name_cves :: "string list"
  ev_tokens :: "string list"
  ev_cves :: "string list"
  ev_subjects :: "(string \<times> string) list"
  ev_paths :: "string list"

definition evidence_quote :: "branch_evidence \<Rightarrow> string \<Rightarrow> string" where
  "evidence_quote ev needle = dict_get [] (ev_subjects ev) needle"

definition named_evidence :: "string \<Rightarrow> branch_evidence" where
  "named_evidence branch = (let tokens = find_tokens (lower branch); cves = find_cves (lower branch) in
     \<lparr>ev_name = branch, ev_name_tokens = tokens, ev_name_cves = cves, ev_tokens = tokens, ev_cves = cves, ev_subjects = [], ev_paths = []\<rparr>)"

definition set_default :: "string \<Rightarrow> string \<Rightarrow> (string \<times> string) list \<Rightarrow> (string \<times> string) list" where
  "set_default v k d = (case map_of d k of None \<Rightarrow> d @ [(k, v)] | Some _ \<Rightarrow> d)"

definition add_message :: "string \<Rightarrow> branch_evidence \<Rightarrow> branch_evidence" where
  "add_message chunk ev = (let original = take MAX_MESSAGE_CHARS (strip chunk) in
     if original = [] then ev
     else let subject = take 100 (hd (split_lines original));
              tokens = find_tokens (lower original); cves = find_cves (lower original)
       in ev\<lparr>ev_subjects := fold (set_default subject) (tokens @ cves) (ev_subjects ev),
            ev_tokens := ev_tokens ev @ tokens, ev_cves := ev_cves ev @ cves\<rparr>)"

text \<open>A set of paths that reaches the cap is dropped whole.\<close>

fun touched_paths :: "int \<Rightarrow> string list \<Rightarrow> string list \<Rightarrow> string list" where
  "touched_paths cap paths [] = paths"
| "touched_paths cap paths (line # rest) =
     (let paths' = (if strip line \<noteq> [] then List.insert (strip line) paths else paths) in
      if cap \<le> int (length paths') then [] else touched_paths cap paths' rest)"

definition record_separator :: char where "record_separator = CHR 0x1E"

definition gather_branch_evidence ::
    "'w executor \<Rightarrow> string \<Rightarrow> string \<Rightarrow> string \<Rightarrow> branch_scan_config \<Rightarrow> 'w \<Rightarrow> branch_evidence \<times> 'w" where
  "gather_branch_evidence ex cwd branch dflt config w =
     (let is_default = (branch = dflt);
          rev = (if is_default then ''origin/'' @ branch else ''origin/'' @ dflt @ ''..origin/'' @ branch);
          limit = (if is_default then bs_max_default_commits config else bs_max_commits_per_branch config)
      in case ex_run ex [''git'', ''log'', ''-n'' @ int_str limit, ''--format=%s%n%b%n'' @ [record_separator], rev] cwd GIT_TIMEOUT_SECONDS w
         of (messages, w1) \<Rightarrow>
       if \<not> succeeded messages then (named_evidence branch, w1)
       else let ev = fold add_message (split_on record_separator (out_of messages)) (named_evidence branch) in
         if is_default then (ev, w1)
         else case ex_run ex [''git'', ''log'', ''-n'' @ int_str limit, ''--name-only'', ''--format='', rev] cwd GIT_TIMEOUT_SECONDS w1
           of (touched, w2) \<Rightarrow>
           if \<not> succeeded touched then (ev, w2)
           else (ev\<lparr>ev_paths := touched_paths (bs_max_paths_per_branch config) [] (split_lines (out_of touched))\<rparr>, w2))"

fun cap_branches :: "rat \<Rightarrow> int \<Rightarrow> string list \<Rightarrow> (string \<times> int) list \<Rightarrow> string list" where
  "cap_branches cutoff cap names [] = names"
| "cap_branches cutoff cap names ((name, committed) # refs) =
     (if name \<in> set names \<or> of_int committed < cutoff then cap_branches cutoff cap names refs
      else if cap \<le> int (length (names @ [name])) then names @ [name] else cap_branches cutoff cap (names @ [name]) refs)"

definition list_origin_branches ::
    "('w \<Rightarrow> rat) \<Rightarrow> 'w executor \<Rightarrow> string \<Rightarrow> branch_scan_config \<Rightarrow> string \<Rightarrow> 'w \<Rightarrow> string list \<times> 'w" where
  "list_origin_branches clock ex cwd config dflt w =
     (case origin_refs_by_recency ex cwd w of (refs, w1) \<Rightarrow>
       (let first = (if dflt \<noteq> [] then [dflt] else []) in
        case refs of None \<Rightarrow> (first, w1)
        | Some rs \<Rightarrow> (cap_branches (clock w1 - of_int (bs_active_within_days config) * 86400)
            (bs_max_branches config + (if dflt \<noteq> [] then 1 else 0)) first rs, w1)))"

section \<open>Matching\<close>

record branch_match =
  bm_branch :: string
  bm_confidence :: rat
  bm_reason :: string

record candidate =
  ca_pk :: nat
  ca_cve :: string
  ca_finding :: string
  ca_fix_branch :: string
  ca_paths :: "string list"
  ca_rejected_branch :: string
  ca_best :: "branch_match option"

definition with_subject :: "string \<Rightarrow> string \<Rightarrow> string" where
  "with_subject reason subject = (if subject \<noteq> [] then reason @ '': '' @ subject else reason)"

definition cve_match :: "candidate \<Rightarrow> branch_evidence \<Rightarrow> branch_match option" where
  "cve_match c ev = (let needle = lower (ca_cve c) in
     if ca_cve c = [] then None
     else if needle \<in> set (ev_name_cves ev) then Some \<lparr>bm_branch = ev_name ev, bm_confidence = 95/100, bm_reason = ''branch name contains '' @ ca_cve c\<rparr>
     else if needle \<in> set (ev_cves ev) then Some \<lparr>bm_branch = ev_name ev, bm_confidence = 75/100,
       bm_reason = with_subject (''a commit on this branch mentions '' @ ca_cve c) (evidence_quote ev needle)\<rparr>
     else None)"

definition finding_match :: "candidate \<Rightarrow> branch_evidence \<Rightarrow> branch_match option" where
  "finding_match c ev = (let needle = ca_finding c in
     if needle = [] then None
     else if needle \<in> set (ev_name_tokens ev) then Some \<lparr>bm_branch = ev_name ev, bm_confidence = 7/10,
       bm_reason = ''branch name contains the finding id '' @ needle\<rparr>
     else if needle \<in> set (ev_tokens ev) then Some \<lparr>bm_branch = ev_name ev, bm_confidence = 6/10,
       bm_reason = with_subject (''a commit on this branch mentions the finding id '' @ needle) (evidence_quote ev needle)\<rparr>
     else None)"

definition path_match :: "candidate \<Rightarrow> branch_evidence \<Rightarrow> branch_match option" where
  "path_match c ev = (let overlap = sorted_set (filter (\<lambda>p. p \<in> set (ev_paths ev)) (ca_paths c)) in
     if overlap = [] then None
     else Some \<lparr>bm_branch = ev_name ev, bm_confidence = 30/100 + 5/100 * of_nat (min (length overlap) 3),
       bm_reason = ''this branch touches the cited file(s): '' @ join '', '' (take 3 overlap)\<rparr>)"

definition score_branch :: "candidate \<Rightarrow> branch_evidence \<Rightarrow> branch_match option" where
  "score_branch c ev =
     (if ca_fix_branch c \<noteq> [] \<and> ca_fix_branch c = ev_name ev
      then Some \<lparr>bm_branch = ev_name ev, bm_confidence = 98/100, bm_reason = ''frank'' @ [sq] @ ''s own fix agent pushed this branch for this report''\<rparr>
      else case cve_match c ev of Some m \<Rightarrow> Some m
      | None \<Rightarrow> (case finding_match c ev of Some m \<Rightarrow> Some m | None \<Rightarrow> path_match c ev))"

definition offer :: "branch_match option \<Rightarrow> candidate \<Rightarrow> candidate" where
  "offer found c = (case found of None \<Rightarrow> c
   | Some m \<Rightarrow> (case ca_best c of None \<Rightarrow> c\<lparr>ca_best := Some m\<rparr>
       | Some best \<Rightarrow> (if bm_confidence best < bm_confidence m then c\<lparr>ca_best := Some m\<rparr> else c)))"

text \<open>A report with no branch yet, of a project and a scope, whose status still owes a fix.\<close>

definition in_project :: "project_ref \<Rightarrow> string \<Rightarrow> backlog_report \<Rightarrow> bool" where
  "in_project project scope r \<longleftrightarrow> map_option pj_pk (se_project r) = Some (pj_pk project) \<and> scope_matches scope (bl_source_agent r)"

definition owes_branch :: "backlog_report \<Rightarrow> bool" where
  "owes_branch r \<longleftrightarrow> bl_fixed_in_branch r = [] \<and> bl_status r \<notin> set NO_FIX_OWED_STATUSES"

definition by_priority :: "backlog_report list \<Rightarrow> backlog_report list" where
  "by_priority rows = sort_key (\<lambda>r. (- bl_priority r, se_pk r)) rows"

definition candidate_of :: "verification_row list \<Rightarrow> backlog_report \<Rightarrow> candidate" where
  "candidate_of table r = \<lparr>ca_pk = se_pk r, ca_cve = strip (bl_matched_cve_id r), ca_finding = usable_finding_id (bl_finding_id r),
     ca_fix_branch = strip (bl_fix_branch r), ca_paths = extract_report_paths table (cited_report.truncate r),
     ca_rejected_branch = (if bl_branch_match_applied r then bl_branch_match_branch r else []), ca_best = None\<rparr>"

definition candidates_for :: "project_ref \<Rightarrow> string \<Rightarrow> verification_row list \<Rightarrow> backlog_report list \<Rightarrow> candidate list" where
  "candidates_for project scope table reports =
     map (candidate_of table) (by_priority (filter (\<lambda>r. in_project project scope r \<and> owes_branch r) reports))"

text \<open>The columns one match writes, and whether it becomes the branch.\<close>

definition match_applies :: "candidate \<Rightarrow> branch_match \<Rightarrow> bool" where
  "match_applies c m \<longleftrightarrow> AUTO_TIE_CONFIDENCE \<le> bm_confidence m \<and> \<not> (ca_rejected_branch c \<noteq> [] \<and> bm_branch m = ca_rejected_branch c)"

definition write_match :: "candidate \<Rightarrow> branch_match \<Rightarrow> int \<Rightarrow> backlog_report \<Rightarrow> backlog_report" where
  "write_match c m now r =
     (let rejected = (ca_rejected_branch c \<noteq> [] \<and> bm_branch m = ca_rejected_branch c);
          r1 = r\<lparr>bl_branch_match_branch := take 200 (bm_branch m), bl_branch_match_confidence := Some (bm_confidence m),
            bl_branch_match_reason := take 500 (bm_reason m), bl_branch_matched_at := Some now, bl_updated_at := now\<rparr>;
          r2 = (if \<not> rejected then r1\<lparr>bl_branch_match_applied := match_applies c m\<rparr> else r1)
      in if match_applies c m then r2\<lparr>bl_fixed_in_branch := bm_branch m\<rparr> else r2)"

definition writable :: "candidate \<Rightarrow> backlog_report \<Rightarrow> bool" where
  "writable c r \<longleftrightarrow> se_pk r = ca_pk c \<and> owes_branch r"

definition apply_match :: "candidate \<Rightarrow> int \<Rightarrow> backlog_report list \<Rightarrow> bool \<times> backlog_report list" where
  "apply_match c now reports = (case ca_best c of None \<Rightarrow> (False, reports)
   | Some m \<Rightarrow> (list_ex (writable c) reports \<and> match_applies c m,
       map (\<lambda>r. if writable c r then write_match c m now r else r) reports))"

fun apply_matches ::
    "(nat \<Rightarrow> backlog_report list \<Rightarrow> backlog_report list) \<Rightarrow> nat \<Rightarrow> int \<Rightarrow> candidate list \<Rightarrow> backlog_report list
       \<Rightarrow> nat \<times> nat \<times> backlog_report list" where
  "apply_matches edit i now [] reports = (0, 0, reports)"
| "apply_matches edit i now (c # cs) reports =
     (if ca_best c = None then apply_matches edit i now cs reports
      else case apply_match c now (edit i reports) of (applied, reports1) \<Rightarrow>
        case apply_matches edit (Suc i) now cs reports1 of (matched, n, reports2) \<Rightarrow>
          (Suc matched, (if applied then Suc n else n), reports2))"

record match_run =
  mr_project :: string
  mr_error :: string
  mr_stale_warning :: string
  mr_branches_scanned :: nat
  mr_reports_considered :: nat
  mr_matched :: nat
  mr_applied :: nat

definition stale_tail :: "string \<Rightarrow> string" where
  "stale_tail stale = (if stale = [] then [] else '' Could not fetch origin ('' @ stale @ ''), so this is whatever the checkout already had.'')"

definition match_run_summary :: "match_run \<Rightarrow> string" where
  "match_run_summary run = (if mr_error run \<noteq> [] then ''Branch match did not run for '' @ mr_project run @ '': '' @ mr_error run
     else mr_project run @ '': scanned '' @ nat_str (mr_branches_scanned run) @ '' branch(es) against '' @ nat_str (mr_reports_considered run)
       @ '' report(s) '' @ em_dash @ '' '' @ nat_str (mr_matched run) @ '' matched, '' @ nat_str (mr_applied run) @ '' branch(es) recorded.''
       @ stale_tail (mr_stale_warning run))"

section \<open>A prepared checkout\<close>

record 'w prepared =
  pc_executor :: "'w executor"
  pc_cwd :: string
  pc_default_branch :: string
  pc_stale_warning :: string

definition project_full_name :: "project_ref \<Rightarrow> string" where
  "project_full_name p = pj_owner p @ ''/'' @ pj_repo p"

text \<open>The left side holds the error and the stale warning.\<close>

definition prepare ::
    "('r, 'w) map_surroundings \<Rightarrow> verifier_settings \<Rightarrow> (string \<times> 'r) list \<Rightarrow> project_ref \<Rightarrow> 'w
       \<Rightarrow> ((string \<times> string) + 'w prepared) \<times> 'w" where
  "prepare su vs reviewers project w =
     (if \<not> vs_enabled vs
      then (Inl (''security_triage.verifier.enabled is false in operator.yaml, and both git sweeps borrow its checkout'', []), w)
      else case resolve_verifier_reviewer reviewers (vs_reviewer vs) of
        None \<Rightarrow> (Inl (''no agent_cli_reviewers entry named '' @ str_repr (vs_reviewer vs) @ '' (configured: ''
            @ (let names = join '', '' (map fst reviewers) in if names = [] then ''none'' else names)
            @ ''), so there is no checkout config to borrow'', []), w)
      | Some remote \<Rightarrow>
        (let ex = su_make_executor su remote in
         case ex_prepare_repo ex (pj_owner project) (pj_repo project) (su_local_checkout su (pj_owner project) (pj_repo project))
             (vs_workspace_subdir vs) w of (dir, w1) \<Rightarrow>
           (let cwd = (case dir of None \<Rightarrow> [] | Some d \<Rightarrow> d) in
            if cwd = [] then (Inl (''no checkout could be prepared '' @ em_dash @ '' for remote.mode ssh check ssh_command ''
              @ ''and remote_workspace_dir; for local mode check FRANK_REPOS_DIR'', []), w1)
            else case refresh_from_upstream ex cwd w1 of (stale, w2) \<Rightarrow>
              case default_branch ex cwd w2 of (dflt, w3) \<Rightarrow>
                (if dflt = [] then (Inl (''no default branch could be resolved in the checkout'', stale), w3)
                 else (Inr \<lparr>pc_executor = ex, pc_cwd = cwd, pc_default_branch = dflt, pc_stale_warning = stale\<rparr>, w3)))))"

fun offer_branches ::
    "'w executor \<Rightarrow> string \<Rightarrow> string \<Rightarrow> branch_scan_config \<Rightarrow> string list \<Rightarrow> candidate list \<Rightarrow> 'w \<Rightarrow> candidate list \<times> 'w" where
  "offer_branches ex cwd dflt config [] cs w = (cs, w)"
| "offer_branches ex cwd dflt config (branch # rest) cs w =
     (case gather_branch_evidence ex cwd branch dflt config w of (ev, w1) \<Rightarrow>
        offer_branches ex cwd dflt config rest (map (\<lambda>c. offer (score_branch c ev) c) cs) w1)"

definition match_fix_branches ::
    "('r, 'w) map_surroundings \<Rightarrow> (nat \<Rightarrow> backlog_report list \<Rightarrow> backlog_report list) \<Rightarrow> verifier_settings \<Rightarrow> branch_scan_config
       \<Rightarrow> (string \<times> 'r) list \<Rightarrow> verification_row list \<Rightarrow> project_ref \<Rightarrow> string \<Rightarrow> backlog_report list \<Rightarrow> 'w
       \<Rightarrow> match_run \<times> backlog_report list \<times> 'w" where
  "match_fix_branches su edit vs config reviewers table project scope reports w =
     (let cs = candidates_for project scope table reports;
          run = \<lparr>mr_project = project_full_name project, mr_error = [], mr_stale_warning = [], mr_branches_scanned = 0,
            mr_reports_considered = length cs, mr_matched = 0, mr_applied = 0\<rparr>
      in if cs = [] then (run, reports, w)
         else case prepare su vs reviewers project w of
           (Inl (err, stale), w1) \<Rightarrow> (run\<lparr>mr_error := err, mr_stale_warning := stale\<rparr>, reports, w1)
         | (Inr pc, w1) \<Rightarrow>
           (case list_origin_branches (su_time su) (pc_executor pc) (pc_cwd pc) config (pc_default_branch pc) w1 of (branches, w2) \<Rightarrow>
             (let run1 = run\<lparr>mr_stale_warning := pc_stale_warning pc, mr_branches_scanned := length branches\<rparr> in
              if branches = [] then (run1\<lparr>mr_error := ''no branches could be listed in the checkout''\<rparr>, reports, w2)
              else case offer_branches (pc_executor pc) (pc_cwd pc) (pc_default_branch pc) config branches cs w2 of (cs', w3) \<Rightarrow>
                case apply_matches edit 0 (su_timezone_now su w3) cs' reports of (matched, n, reports') \<Rightarrow>
                  (run1\<lparr>mr_matched := matched, mr_applied := n\<rparr>, reports', w3))))"

section \<open>Is it already fixed?\<close>

record fixed_run =
  fr_project :: string
  fr_error :: string
  fr_stale_warning :: string
  fr_reports_considered :: nat
  fr_fixed :: nat
  fr_still_valid :: nat
  fr_unclear :: nat
  fr_skipped :: "(string \<times> nat) list"

definition blank_fixed_run :: "string \<Rightarrow> fixed_run" where
  "blank_fixed_run name = \<lparr>fr_project = name, fr_error = [], fr_stale_warning = [], fr_reports_considered = 0, fr_fixed = 0,
     fr_still_valid = 0, fr_unclear = 0, fr_skipped = []\<rparr>"

definition skip_report :: "string \<Rightarrow> fixed_run \<Rightarrow> fixed_run" where
  "skip_report reason run = run\<lparr>fr_skipped := AList.update reason (dict_get 0 (fr_skipped run) reason + 1) (fr_skipped run)\<rparr>"

definition fixed_run_summary :: "fixed_run \<Rightarrow> string" where
  "fixed_run_summary run = (if fr_error run \<noteq> [] then ''Fixed-scan did not run for '' @ fr_project run @ '': '' @ fr_error run
     else fr_project run @ '': checked '' @ nat_str (fr_reports_considered run) @ '' report(s) '' @ em_dash @ '' '' @ nat_str (fr_fixed run)
       @ '' likely fixed, '' @ nat_str (fr_still_valid run) @ '' still valid, '' @ nat_str (fr_unclear run) @ '' unclear.''
       @ concat (map (\<lambda>(reason, count). '' Skipped '' @ nat_str count @ '': '' @ reason @ ''.'') (sort (fr_skipped run)))
       @ stale_tail (fr_stale_warning run))"

definition scannable :: "backlog_report \<Rightarrow> bool" where
  "scannable r \<longleftrightarrow> bl_status r \<in> {''new'', ''valid''} \<and> bl_fixed_in_branch r = []"

definition fixed_scan_candidates :: "project_ref \<Rightarrow> string \<Rightarrow> backlog_report list \<Rightarrow> backlog_report list" where
  "fixed_scan_candidates project scope reports =
     by_priority (filter (\<lambda>r. in_project project scope r \<and> scannable r \<and> se_proposed_patch r \<noteq> []) reports)"

text \<open>\<open>re.search(r"branch-\d+(?:\.\d+)*", archive)\<close>.\<close>

function dotted_tail :: "string \<Rightarrow> string" where
  "dotted_tail s = (let ds = takeWhile is_digit (tl s) in
     if s \<noteq> [] \<and> hd s = CHR ''.'' \<and> ds \<noteq> [] then CHR ''.'' # ds @ dotted_tail (dropWhile is_digit (tl s)) else [])"
  by auto
termination by (relation "measure length") (auto simp: less_Suc_eq_le neq_Nil_conv length_dropWhile_le)

declare dotted_tail.simps [simp del]

fun branch_in_archive :: "string \<Rightarrow> string" where
  "branch_in_archive [] = []"
| "branch_in_archive (c # s) = (let ds = takeWhile is_digit (drop 7 (c # s)) in
     if prefix ''branch-'' (c # s) \<and> ds \<noteq> [] then ''branch-'' @ ds @ dotted_tail (dropWhile is_digit (drop 7 (c # s)))
     else branch_in_archive s)"

definition base_branch_for :: "backlog_report \<Rightarrow> string" where
  "base_branch_for r = branch_in_archive (bl_source_archive r)"

definition scan_base :: "string \<Rightarrow> backlog_report \<Rightarrow> string" where
  "scan_base dflt r = (if strip (bl_fix_base_branch r) \<noteq> [] then strip (bl_fix_base_branch r)
     else if base_branch_for r \<noteq> [] then base_branch_for r else dflt)"

definition group_reports :: "string \<Rightarrow> backlog_report list \<Rightarrow> (string \<times> nat list) list" where
  "group_reports dflt rows = fold (\<lambda>r g. AList.update (scan_base dflt r) (dict_get [] g (scan_base dflt r) @ [se_pk r]) g) rows []"

text \<open>What git says of one patch: a verdict with its reason, or why there is none.\<close>

definition patch_verdict ::
    "(string \<Rightarrow> string) \<Rightarrow> 'w executor \<Rightarrow> string \<Rightarrow> string \<Rightarrow> string \<Rightarrow> 'w \<Rightarrow> (string + string \<times> string) \<times> 'w" where
  "patch_verdict sha256_hex ex cwd branch patch w =
     (case patch_apply_check sha256_hex ex cwd patch True w of (reversed_ok, w1) \<Rightarrow>
       (case reversed_ok of
          None \<Rightarrow> (Inl (''git could not read it as a patch, or the git call itself failed ''
            @ ''(too big, binary, not a diff, or the executor died)''), w1)
        | Some True \<Rightarrow> (Inr (FIXED, ''the proposed patch reverse-applies cleanly on origin/'' @ branch
            @ '', so the change it makes is already in the tree''), w1)
        | Some False \<Rightarrow>
          (case patch_apply_check sha256_hex ex cwd patch False w1 of (forward_ok, w2) \<Rightarrow>
            (case forward_ok of
               None \<Rightarrow> (Inl ''the forward git apply check could not be run (timeout, or the executor died)'', w2)
             | Some True \<Rightarrow> (Inr (STILL_VALID, ''the proposed patch still applies cleanly on origin/'' @ branch
                 @ '', so the code it changes is untouched''), w2)
             | Some False \<Rightarrow> (Inr (UNCLEAR, ''the proposed patch neither applies nor reverse-applies on origin/'' @ branch
                 @ '' '' @ em_dash @ '' the code moved, and git can'' @ [sq] @ ''t say whether that was this fix or a refactor around it''), w2)))))"

definition takes_verdict :: "nat \<Rightarrow> string \<Rightarrow> backlog_report \<Rightarrow> bool" where
  "takes_verdict pk verdict r \<longleftrightarrow> se_pk r = pk \<and> scannable r \<and> (verdict = UNCLEAR \<longrightarrow> bl_recheck_status r = [])"

definition write_verdict :: "string \<Rightarrow> string \<Rightarrow> int \<Rightarrow> backlog_report \<Rightarrow> backlog_report" where
  "write_verdict verdict reason now r = r\<lparr>bl_recheck_status := verdict, bl_recheck_reason := reason, bl_recheck_method := GIT_METHOD,
     bl_rechecked_at := Some now, bl_updated_at := now\<rparr>"

definition count_verdict :: "string \<Rightarrow> fixed_run \<Rightarrow> fixed_run" where
  "count_verdict verdict run =
     (if verdict = FIXED then run\<lparr>fr_fixed := fr_fixed run + 1\<rparr>
      else if verdict = STILL_VALID then run\<lparr>fr_still_valid := fr_still_valid run + 1\<rparr>
      else run\<lparr>fr_unclear := fr_unclear run + 1\<rparr>)"

text \<open>One report on the branch that is checked out. The edits of the operator come before the write.\<close>

definition scan_one ::
    "(string \<Rightarrow> string) \<Rightarrow> (backlog_report list \<Rightarrow> backlog_report list) \<Rightarrow> 'w executor \<Rightarrow> string \<Rightarrow> nat \<Rightarrow> string \<Rightarrow> string \<Rightarrow> int
       \<Rightarrow> fixed_run \<Rightarrow> backlog_report list \<Rightarrow> 'w \<Rightarrow> bool \<times> fixed_run \<times> backlog_report list \<times> 'w" where
  "scan_one sha256_hex edit ex cwd pk patch branch now run reports w =
     (case patch_verdict sha256_hex ex cwd branch patch w of
        (Inl why, w1) \<Rightarrow> (False, skip_report why run, edit reports, w1)
      | (Inr (verdict, reason), w1) \<Rightarrow>
        (let rows = edit reports in
         if \<not> list_ex (takes_verdict pk verdict) rows
         then (False, skip_report (if verdict = UNCLEAR then ''an existing recheck verdict was left in place''
             else ''the operator ruled on it while the scan was running'') run, rows, w1)
         else (True, count_verdict verdict run,
           map (\<lambda>r. if takes_verdict pk verdict r then write_verdict verdict reason now r else r) rows, w1)))"

fun scan_reports ::
    "(string \<Rightarrow> string) \<Rightarrow> (nat \<Rightarrow> backlog_report list \<Rightarrow> backlog_report list) \<Rightarrow> 'w executor \<Rightarrow> string \<Rightarrow> string \<Rightarrow> int
       \<Rightarrow> (nat \<times> string) list \<Rightarrow> fixed_run \<Rightarrow> backlog_report list \<Rightarrow> 'w \<Rightarrow> fixed_run \<times> backlog_report list \<times> 'w" where
  "scan_reports sha256_hex edit ex cwd branch now [] run reports w = (run, reports, w)"
| "scan_reports sha256_hex edit ex cwd branch now ((pk, patch) # rest) run reports w =
     (case scan_one sha256_hex (edit pk) ex cwd pk patch branch now run reports w of (answered, run1, reports1, w1) \<Rightarrow>
        scan_reports sha256_hex edit ex cwd branch now rest
          (if answered then run1\<lparr>fr_reports_considered := fr_reports_considered run1 + 1\<rparr> else run1) reports1 w1)"

text \<open>The patches of a group, in the model's own order, the newest report first.\<close>

definition group_patches :: "nat list \<Rightarrow> backlog_report list \<Rightarrow> (nat \<times> string) list" where
  "group_patches pks reports = map (\<lambda>r. (se_pk r, se_proposed_patch r))
     (sort_key (\<lambda>r. - bl_created_at r) (filter (\<lambda>r. se_pk r \<in> set pks) reports))"

fun scan_groups ::
    "(string \<Rightarrow> string) \<Rightarrow> (nat \<Rightarrow> backlog_report list \<Rightarrow> backlog_report list) \<Rightarrow> 'w executor \<Rightarrow> string \<Rightarrow> int
       \<Rightarrow> (string \<times> nat list) list \<Rightarrow> fixed_run \<Rightarrow> backlog_report list \<Rightarrow> 'w \<Rightarrow> fixed_run \<times> backlog_report list \<times> 'w" where
  "scan_groups sha256_hex edit ex cwd now [] run reports w = (run, reports, w)"
| "scan_groups sha256_hex edit ex cwd now ((branch, pks) # rest) run reports w =
     (case checkout ex cwd branch False w of (commit, w1) \<Rightarrow>
       if commit = [] then scan_groups sha256_hex edit ex cwd now rest
         (fold (\<lambda>_. skip_report (''origin/'' @ branch @ '' could not be checked out'')) pks run) reports w1
       else case scan_reports sha256_hex edit ex cwd branch now (group_patches pks reports) run reports w1 of (run1, reports1, w2) \<Rightarrow>
         scan_groups sha256_hex edit ex cwd now rest run1 reports1 w2)"

definition scan_already_fixed ::
    "('r, 'w) map_surroundings \<Rightarrow> (nat \<Rightarrow> backlog_report list \<Rightarrow> backlog_report list) \<Rightarrow> verifier_settings \<Rightarrow> branch_scan_config
       \<Rightarrow> (string \<times> 'r) list \<Rightarrow> project_ref \<Rightarrow> string \<Rightarrow> backlog_report list \<Rightarrow> 'w \<Rightarrow> fixed_run \<times> backlog_report list \<times> 'w" where
  "scan_already_fixed su edit vs config reviewers project scope reports w =
     (let run = blank_fixed_run (project_full_name project);
          shortlist = take (nat (bs_max_reports_per_scan config)) (fixed_scan_candidates project scope reports)
      in if shortlist = [] then (run, reports, w)
         else case prepare su vs reviewers project w of
           (Inl (err, stale), w1) \<Rightarrow> (run\<lparr>fr_error := err, fr_stale_warning := stale\<rparr>, reports, w1)
         | (Inr pc, w1) \<Rightarrow> scan_groups (su_sha256_hex su) edit (pc_executor pc) (pc_cwd pc) (su_timezone_now su w1)
             (group_reports (pc_default_branch pc) shortlist) (run\<lparr>fr_stale_warning := pc_stale_warning pc\<rparr>) reports w1)"

definition projects_with_open_reports :: "project_ref list \<Rightarrow> string \<Rightarrow> backlog_report list \<Rightarrow> project_ref list" where
  "projects_with_open_reports projects scope reports =
     (let ids = map (\<lambda>r. map_option pj_pk (se_project r)) (filter (\<lambda>r. se_project r \<noteq> None \<and> scope_matches scope (bl_source_agent r)
        \<and> bl_status r \<notin> set NO_FIX_OWED_STATUSES) reports)
      in sort_key pj_pk (filter (\<lambda>p. Some (pj_pk p) \<in> set ids) projects))"

end
