(* ===== verification/BranchProperties.thy ===== *)
theory BranchProperties
  imports BranchScan "HOL-Library.Multiset"
begin

text \<open>
  What the two git sweeps may write on a report: a branch only on the strength of a name that is
  that of its fix, a verdict only on git's own answers, and nothing over a ruling of the operator,
  whatever she does to the table while a sweep runs.
\<close>

section \<open>The strongest match\<close>

lemma offer_core [simp]:
  "ca_pk (offer m c) = ca_pk c" "ca_cve (offer m c) = ca_cve c" "ca_finding (offer m c) = ca_finding c"
  "ca_fix_branch (offer m c) = ca_fix_branch c" "ca_paths (offer m c) = ca_paths c"
  "ca_rejected_branch (offer m c) = ca_rejected_branch c"
  by (simp_all add: offer_def split: option.splits)

lemma score_branch_core:
  assumes "ca_cve c = ca_cve d" "ca_finding c = ca_finding d" "ca_fix_branch c = ca_fix_branch d" "ca_paths c = ca_paths d"
  shows "score_branch c ev = score_branch d ev"
  unfolding score_branch_def cve_match_def finding_match_def path_match_def assms ..

lemma score_offer [simp]: "score_branch (offer m c) ev = score_branch c ev"
  by (rule score_branch_core) simp_all

definition stronger :: "branch_match option \<Rightarrow> branch_match option \<Rightarrow> branch_match option" where
  "stronger best found = (case found of None \<Rightarrow> best | Some m \<Rightarrow> (case best of None \<Rightarrow> Some m
     | Some b \<Rightarrow> (if bm_confidence b < bm_confidence m then Some m else Some b)))"

lemma offer_best: "ca_best (offer m c) = stronger (ca_best c) m"
  by (auto simp: offer_def stronger_def split: option.splits)

text \<open>The first of the matches that no other one beats.\<close>

definition strongest :: "branch_match list \<Rightarrow> branch_match option" where
  "strongest ms = find (\<lambda>m. list_all (\<lambda>m'. bm_confidence m' \<le> bm_confidence m) ms) ms"

lemma find_snoc: "find P (xs @ [x]) = (case find P xs of None \<Rightarrow> if P x then Some x else None | Some y \<Rightarrow> Some y)"
  by (induction xs) auto

lemma strongest_snoc: "strongest (ms @ [m]) = stronger (strongest ms) (Some m)"
proof (cases "strongest ms")
  case None
  have "ms = []"
  proof (rule ccontr)
    assume "ms \<noteq> []"
    define top where "top = Max (bm_confidence ` set ms)"
    have "top \<in> bm_confidence ` set ms" using \<open>ms \<noteq> []\<close> unfolding top_def by (intro Max_in) simp_all
    then obtain b where b: "b \<in> set ms" "bm_confidence b = top" by auto
    have "list_all (\<lambda>m'. bm_confidence m' \<le> bm_confidence b) ms" using b by (simp add: list_all_iff top_def)
    then show False using None b(1) unfolding strongest_def find_None_iff by blast
  qed
  then show ?thesis by (simp add: strongest_def stronger_def)
next
  case (Some b)
  have top: "list_all (\<lambda>m'. bm_confidence m' \<le> bm_confidence b) ms" "b \<in> set ms"
    using Some by (auto simp: strongest_def find_Some_iff)
  show ?thesis
  proof (cases "bm_confidence b < bm_confidence m")
    case True
    have none: "\<not> list_all (\<lambda>m'. bm_confidence m' \<le> bm_confidence x) (ms @ [m])" if "x \<in> set ms" for x
      using True top that by (auto simp: list_all_iff)
    have "find (\<lambda>x. list_all (\<lambda>m'. bm_confidence m' \<le> bm_confidence x) (ms @ [m])) ms = None"
      unfolding find_None_iff using none by blast
    moreover have "list_all (\<lambda>m'. bm_confidence m' \<le> bm_confidence m) (ms @ [m])" using True top by (auto simp: list_all_iff)
    ultimately show ?thesis using True Some by (simp add: strongest_def stronger_def find_snoc)
  next
    case False
    have same: "list_all (\<lambda>m'. bm_confidence m' \<le> bm_confidence x) (ms @ [m]) \<longleftrightarrow> list_all (\<lambda>m'. bm_confidence m' \<le> bm_confidence x) ms"
      if "x \<in> set ms" for x using False top that by (auto simp: list_all_iff)
    have "find (\<lambda>x. list_all (\<lambda>m'. bm_confidence m' \<le> bm_confidence x) (ms @ [m])) ms = strongest ms"
      unfolding strongest_def by (rule find_cong [OF refl same])
    then show ?thesis using False Some by (simp add: strongest_def [of "ms @ [m]"] stronger_def find_snoc)
  qed
qed

lemma best_is_strongest:
  assumes "ca_best c = None"
  shows "ca_best (fold (\<lambda>ev c. offer (score_branch c ev) c) evs c) = strongest (List.map_filter (score_branch c) evs)"
proof (induction evs rule: rev_induct)
  case Nil
  then show ?case using assms by (simp add: strongest_def map_filter_simps)
next
  case (snoc ev evs)
  have same: "score_branch (fold (\<lambda>ev c. offer (score_branch c ev) c) xs d) e = score_branch d e" for xs d e
    by (induction xs arbitrary: d) simp_all
  show ?case
  proof (cases "score_branch c ev")
    case None
    then show ?thesis using snoc by (simp add: offer_best same stronger_def List.map_filter_def)
  next
    case (Some m)
    then show ?thesis using snoc strongest_snoc by (simp add: offer_best same List.map_filter_def)
  qed
qed

section \<open>Ties\<close>

text \<open>What may tie a branch to a report without asking: its fix agent pushed it, or its name holds the CVE.\<close>

definition vouched :: "backlog_report \<Rightarrow> string \<Rightarrow> bool" where
  "vouched r b \<longleftrightarrow> b \<noteq> [] \<and> strip (bl_fix_branch r) = b
     \<or> strip (bl_matched_cve_id r) \<noteq> [] \<and> lower (strip (bl_matched_cve_id r)) \<in> set (find_cves (lower b))"

definition ties :: "backlog_report list \<Rightarrow> (nat \<times> string) set" where
  "ties reports = (\<lambda>r. (se_pk r, bl_fixed_in_branch r)) ` {r \<in> set reports. bl_fixed_in_branch r \<noteq> []}"

definition may_tie :: "candidate \<Rightarrow> string \<Rightarrow> bool" where
  "may_tie c b \<longleftrightarrow> (b \<noteq> [] \<and> ca_fix_branch c = b) \<or> (ca_cve c \<noteq> [] \<and> lower (ca_cve c) \<in> set (find_cves (lower b)))"

definition claims :: "candidate list \<Rightarrow> (nat \<times> string) set" where
  "claims cs = {(ca_pk c, b) | c b. c \<in> set cs \<and> may_tie c b}"

lemma claims_Cons: "claims (c # cs) = {(ca_pk c, b) | b. may_tie c b} \<union> claims cs"
  by (auto simp: claims_def)

definition strong_ok :: "candidate \<Rightarrow> bool" where
  "strong_ok c \<longleftrightarrow> (case ca_best c of None \<Rightarrow> True | Some m \<Rightarrow> AUTO_TIE_CONFIDENCE \<le> bm_confidence m \<longrightarrow> may_tie c (bm_branch m))"

lemma add_message_name [simp]: "ev_name (add_message m ev) = ev_name ev" "ev_name_cves (add_message m ev) = ev_name_cves ev"
  by (simp_all add: add_message_def Let_def)

lemma fold_message_name [simp]:
  "ev_name (fold add_message ms ev) = ev_name ev" "ev_name_cves (fold add_message ms ev) = ev_name_cves ev"
  by (induction ms arbitrary: ev) simp_all

lemma named_evidence_name [simp]: "ev_name (named_evidence b) = b" "ev_name_cves (named_evidence b) = find_cves (lower b)"
  by (simp_all add: named_evidence_def Let_def)

lemma gathered_name:
  assumes "gather_branch_evidence ex cwd branch dflt config w = (ev, w')"
  shows "ev_name ev = branch \<and> ev_name_cves ev = find_cves (lower branch)"
  using assms by (auto simp: gather_branch_evidence_def Let_def split: prod.splits if_splits)

lemma path_match_weak: "path_match c ev = Some m \<Longrightarrow> bm_confidence m < AUTO_TIE_CONFIDENCE"
proof -
  assume p: "path_match c ev = Some m"
  define n where "n = length (sorted_set (filter (\<lambda>p. p \<in> set (ev_paths ev)) (ca_paths c)))"
  have "bm_confidence m = 30/100 + 5/100 * of_nat (min n 3)"
    using p by (auto simp: path_match_def n_def Let_def split: if_splits)
  moreover have "(of_nat (min n 3) :: rat) \<le> 3" by (simp add: of_nat_le_iff [of "min n 3" 3, simplified])
  ultimately show ?thesis by (simp add: AUTO_TIE_CONFIDENCE_def)
qed

lemma finding_match_weak: "finding_match c ev = Some m \<Longrightarrow> bm_confidence m < AUTO_TIE_CONFIDENCE"
  by (auto simp: finding_match_def AUTO_TIE_CONFIDENCE_def Let_def split: if_splits)

lemma cve_match_strong:
  "cve_match c ev = Some m \<Longrightarrow> AUTO_TIE_CONFIDENCE \<le> bm_confidence m \<Longrightarrow>
     bm_branch m = ev_name ev \<and> ca_cve c \<noteq> [] \<and> lower (ca_cve c) \<in> set (ev_name_cves ev)"
  by (auto simp: cve_match_def AUTO_TIE_CONFIDENCE_def Let_def split: if_splits)

lemma score_strong:
  assumes "score_branch c ev = Some m" and "AUTO_TIE_CONFIDENCE \<le> bm_confidence m"
  shows "bm_branch m = ev_name ev \<and>
     ((ca_fix_branch c \<noteq> [] \<and> ca_fix_branch c = ev_name ev) \<or> (ca_cve c \<noteq> [] \<and> lower (ca_cve c) \<in> set (ev_name_cves ev)))"
proof (cases "ca_fix_branch c \<noteq> [] \<and> ca_fix_branch c = ev_name ev")
  case True
  then show ?thesis using assms(1) by (auto simp: score_branch_def)
next
  case False
  then have s: "(case cve_match c ev of Some m \<Rightarrow> Some m
      | None \<Rightarrow> (case finding_match c ev of Some m \<Rightarrow> Some m | None \<Rightarrow> path_match c ev)) = Some m"
    using assms(1) unfolding score_branch_def by (simp only: if_False)
  show ?thesis
  proof (cases "cve_match c ev")
    case None
    then have "bm_confidence m < AUTO_TIE_CONFIDENCE"
      using s path_match_weak finding_match_weak by (cases "finding_match c ev") auto
    then show ?thesis using assms(2) by simp
  next
    case (Some n)
    then show ?thesis using s cve_match_strong [of c ev n] assms(2) by simp
  qed
qed

lemma offer_strong_ok:
  assumes "strong_ok c" and "ev_name_cves ev = find_cves (lower (ev_name ev))"
  shows "strong_ok (offer (score_branch c ev) c)"
proof (cases "score_branch c ev")
  case None
  then show ?thesis using assms(1) by (simp add: offer_def)
next
  case (Some m)
  have new: "strong_ok (c\<lparr>ca_best := Some m\<rparr>)"
    unfolding strong_ok_def may_tie_def using score_strong [OF Some] assms(2) by auto
  show ?thesis using Some new assms(1) by (auto simp: offer_def split: option.splits)
qed

lemma offer_branches_ok:
  assumes "offer_branches ex cwd dflt config branches cs w = (cs', w')" and "list_all strong_ok cs"
  shows "list_all strong_ok cs' \<and> map (\<lambda>c. (ca_pk c, ca_cve c, ca_fix_branch c)) cs' = map (\<lambda>c. (ca_pk c, ca_cve c, ca_fix_branch c)) cs"
  using assms
proof (induction branches arbitrary: cs w)
  case (Cons b rest)
  obtain ev w1 where g: "gather_branch_evidence ex cwd b dflt config w = (ev, w1)" by fastforce
  have "list_all strong_ok (map (\<lambda>c. offer (score_branch c ev) c) cs)"
    using Cons.prems(2) offer_strong_ok gathered_name [OF g] by (simp add: list_all_iff)
  moreover have "offer_branches ex cwd dflt config rest (map (\<lambda>c. offer (score_branch c ev) c) cs) w1 = (cs', w')"
    using Cons.prems(1) g by simp
  ultimately have "list_all strong_ok cs' \<and> map (\<lambda>c. (ca_pk c, ca_cve c, ca_fix_branch c)) cs'
      = map (\<lambda>c. (ca_pk c, ca_cve c, ca_fix_branch c)) (map (\<lambda>c. offer (score_branch c ev) c) cs)"
    using Cons.IH by blast
  then show ?case by (simp add: comp_def)
qed simp

lemma write_match_fields:
  "se_pk (write_match c m now r) = se_pk r"
  "bl_fixed_in_branch (write_match c m now r) = (if match_applies c m then bm_branch m else bl_fixed_in_branch r)"
  by (simp_all add: write_match_def Let_def)

lemma apply_match_ties:
  assumes "ca_best c = Some m"
  shows "ties (snd (apply_match c now reports)) \<subseteq> ties reports \<union> (if match_applies c m then {(ca_pk c, bm_branch m)} else {})"
  using assms by (auto simp: apply_match_def ties_def write_match_fields writable_def owes_branch_def split: if_splits)

lemma apply_matches_ties:
  assumes "list_all strong_ok cs" and "\<And>i t. ties (edit i t) \<subseteq> ties t \<union> mine"
    and "apply_matches edit i now cs reports = (matched, n, reports')"
  shows "ties reports' \<subseteq> ties reports \<union> mine \<union> claims cs"
  using assms(1,3)
proof (induction cs arbitrary: i reports matched n)
  case (Cons c cs)
  show ?case
  proof (cases "ca_best c")
    case None
    then have "ties reports' \<subseteq> ties reports \<union> mine \<union> claims cs" using Cons by fastforce
    then show ?thesis unfolding claims_Cons by blast
  next
    case (Some m)
    obtain applied t1 where a: "apply_match c now (edit i reports) = (applied, t1)" by fastforce
    obtain k l t2 where r: "apply_matches edit (Suc i) now cs t1 = (k, l, t2)" by (rule prod_cases3)
    have t2: "apply_matches edit (Suc i) now cs t1 = (k, l, reports')" using Cons.prems(2) Some a r by simp
    have "ties t1 \<subseteq> ties reports \<union> mine \<union> (if match_applies c m then {(ca_pk c, bm_branch m)} else {})"
      using apply_match_ties [OF Some, of now "edit i reports"] assms(2) [of i reports] a by auto
    moreover have "(if match_applies c m then {(ca_pk c, bm_branch m)} else {}) \<subseteq> claims (c # cs)"
      using Cons.prems(1) Some by (simp add: strong_ok_def match_applies_def claims_Cons)
    moreover have "ties reports' \<subseteq> ties t1 \<union> mine \<union> claims cs" using Cons.IH [OF _ t2] Cons.prems(1) by simp
    moreover have "claims cs \<subseteq> claims (c # cs)" unfolding claims_Cons by blast
    ultimately show ?thesis by blast
  qed
qed auto

lemma candidates_ok: "list_all strong_ok (candidates_for project scope table reports)"
  by (simp add: candidates_for_def candidate_of_def strong_ok_def list_all_iff)

lemma match_ties_helper:
  assumes "\<And>i t. ties (edit i t) \<subseteq> ties t \<union> mine"
    and "match_fix_branches su edit vs config reviewers table project scope reports w = (run, reports', w')"
  shows "ties reports' \<subseteq> ties reports \<union> mine \<union> {(se_pk r, b) | r b. r \<in> set reports \<and> owes_branch r \<and> vouched r b}"
proof -
  let ?cs = "candidates_for project scope table reports"
  have same: ?thesis if "reports' = reports" using that by blast
  show ?thesis
  proof (cases "?cs = []")
    case True
    then show ?thesis using assms(2) by (intro same) (simp add: match_fix_branches_def Let_def)
  next
    case ne: False
    obtain p w1 where p: "prepare su vs reviewers project w = (p, w1)" by fastforce
    show ?thesis
    proof (cases p)
      case (Inl e)
      then show ?thesis using assms(2) ne p by (intro same) (simp add: match_fix_branches_def Let_def split: prod.splits)
    next
      case (Inr pc)
      obtain bs w2 where l: "list_origin_branches (su_time su) (pc_executor pc) (pc_cwd pc) config (pc_default_branch pc) w1 = (bs, w2)" by fastforce
      obtain cs' w3 where o: "offer_branches (pc_executor pc) (pc_cwd pc) (pc_default_branch pc) config bs ?cs w2 = (cs', w3)" by fastforce
      obtain k n t where a: "apply_matches edit 0 (su_timezone_now su w3) cs' reports = (k, n, t)" by (rule prod_cases3)
      show ?thesis
      proof (cases "bs = []")
        case True
        then show ?thesis using assms(2) ne p l Inr by (intro same) (simp add: match_fix_branches_def Let_def)
      next
        case False
        then have t: "t = reports'" using assms(2) ne p l Inr o a by (simp add: match_fix_branches_def Let_def)
        have ok: "list_all strong_ok cs'" and core: "map (\<lambda>c. (ca_pk c, ca_cve c, ca_fix_branch c)) cs' = map (\<lambda>c. (ca_pk c, ca_cve c, ca_fix_branch c)) ?cs"
          using offer_branches_ok [OF o candidates_ok] by blast+
        have from_row: "\<exists>r. r \<in> set reports \<and> owes_branch r \<and> se_pk r = ca_pk c \<and> strip (bl_matched_cve_id r) = ca_cve c \<and> strip (bl_fix_branch r) = ca_fix_branch c"
          if "c \<in> set cs'" for c
        proof -
          have "(ca_pk c, ca_cve c, ca_fix_branch c) \<in> set (map (\<lambda>c. (ca_pk c, ca_cve c, ca_fix_branch c)) ?cs)"
            unfolding core [symmetric] using that by simp
          then show ?thesis by (auto simp: candidates_for_def by_priority_def candidate_of_def)
        qed
        have sub: "claims cs' \<subseteq> {(se_pk r, b) | r b. r \<in> set reports \<and> owes_branch r \<and> vouched r b}"
        proof (clarsimp simp: claims_def)
          fix c b
          assume c: "c \<in> set cs'" and v: "may_tie c b"
          obtain r where r: "r \<in> set reports" "owes_branch r" "se_pk r = ca_pk c" "strip (bl_matched_cve_id r) = ca_cve c"
              "strip (bl_fix_branch r) = ca_fix_branch c" using from_row [OF c] by blast
          have "vouched r b" using v r(4,5) unfolding vouched_def may_tie_def by simp
          then show "\<exists>r. ca_pk c = se_pk r \<and> r \<in> set reports \<and> owes_branch r \<and> vouched r b" using r by metis
        qed
        show ?thesis using apply_matches_ties [OF ok assms(1) a] sub unfolding t by blast
      qed
    qed
  qed
qed

section \<open>Rulings and rejections\<close>

text \<open>What both sweeps promise of a write: it tests the row again, and leaves its key alone.\<close>

locale guarded_update =
  fixes still_open :: "backlog_report \<Rightarrow> bool"
    and writes :: "backlog_report \<Rightarrow> bool"
    and new_row :: "backlog_report \<Rightarrow> backlog_report"
  assumes only_open: "writes r \<Longrightarrow> still_open r"
    and same_pk: "se_pk (new_row r) = se_pk r"
begin

lemma closed_stays:
  assumes "r \<in> set t" and "\<not> still_open r"
  shows "r \<in> set (map (\<lambda>r. if writes r then new_row r else r) t)"
proof -
  have "\<not> writes r" using only_open assms(2) by blast
  then show ?thesis using imageI [OF assms(1), of "\<lambda>r. if writes r then new_row r else r"] by simp
qed

lemma same_pks: "map se_pk (map (\<lambda>r. if writes r then new_row r else r) t) = map se_pk t"
  using same_pk by simp

end

interpretation match_update: guarded_update owes_branch "writable c" "write_match c m now" for c m now
  by unfold_locales (simp_all add: writable_def write_match_fields)

interpretation verdict_update: guarded_update scannable "takes_verdict pk v" "write_verdict v reason now" for pk v reason now
  by unfold_locales (simp_all add: takes_verdict_def write_verdict_def)

lemma apply_match_keeps: "r \<in> set t \<Longrightarrow> \<not> owes_branch r \<Longrightarrow> r \<in> set (snd (apply_match c now t))"
  using match_update.closed_stays [of r t c] by (cases "ca_best c") (simp_all add: apply_match_def)

lemma scan_one_keeps:
  assumes "scan_one sha256_hex edit ex cwd pk patch branch now run reports w = (answered, run1, reports1, w1)"
    and "r \<in> set (edit reports)" and "\<not> scannable r"
  shows "r \<in> set reports1"
proof -
  have "reports1 = edit reports \<or> (\<exists>v reason. reports1 = map (\<lambda>r. if takes_verdict pk v r then write_verdict v reason now r else r) (edit reports))"
    using assms(1) by (auto simp: scan_one_def Let_def split: prod.splits sum.splits if_splits)
  then show ?thesis using verdict_update.closed_stays [OF assms(2,3)] assms(2) by metis
qed

lemma ruling_helper:
  assumes "\<And>i t. {r \<in> set t. \<not> owes_branch r} \<subseteq> set (edit i t)" and "r \<in> set reports" and "\<not> owes_branch r"
  shows "r \<in> set (snd (snd (apply_matches edit i now cs reports)))"
  using assms(2)
proof (induction cs arbitrary: i reports)
  case (Cons c cs)
  show ?case
  proof (cases "ca_best c = None")
    case True
    then show ?thesis using Cons by simp
  next
    case False
    obtain applied t1 where a: "apply_match c now (edit i reports) = (applied, t1)" by fastforce
    have "r \<in> set (edit i reports)" using assms(1,3) Cons.prems by blast
    then have "r \<in> set t1" using apply_match_keeps [of r "edit i reports" c now] assms(3) a by simp
    then have "r \<in> set (snd (snd (apply_matches edit (Suc i) now cs t1)))" by (rule Cons.IH)
    then show ?thesis using False a by (auto split: prod.splits)
  qed
qed simp


text \<open>What one sweep does to a row when \<open>m\<close> is its strongest match, with the time of the sweep.\<close>

definition sweep_row :: "verification_row list \<Rightarrow> int \<times> branch_match \<Rightarrow> backlog_report \<Rightarrow> backlog_report" where
  "sweep_row table found r = (if owes_branch r
     then write_match ((candidate_of table r)\<lparr>ca_best := Some (snd found)\<rparr>) (snd found) (fst found) r else r)"



section \<open>Verdicts\<close>

definition git_code :: "(string \<Rightarrow> string) \<Rightarrow> 'w executor \<Rightarrow> string \<Rightarrow> string \<Rightarrow> bool \<Rightarrow> int \<Rightarrow> bool" where
  "git_code sha256_hex ex cwd patch rv code \<longleftrightarrow>
     (\<exists>script w a. apply_check_script sha256_hex patch rv = Some script
        \<and> fst (ex_run ex [''sh'', ''-c'', script] cwd GIT_TIMEOUT_SECONDS w) = Some a \<and> er_returncode a = code)"

text \<open>What git must have answered for each verdict: to the reversed patch, and to the patch.\<close>

definition proven :: "(string \<Rightarrow> string) \<Rightarrow> 'w executor \<Rightarrow> string \<Rightarrow> string \<Rightarrow> string \<Rightarrow> bool" where
  "proven sha256_hex ex cwd patch v \<longleftrightarrow>
     v = FIXED \<and> git_code sha256_hex ex cwd patch True 0
     \<or> v = STILL_VALID \<and> git_code sha256_hex ex cwd patch True 1 \<and> git_code sha256_hex ex cwd patch False 0
     \<or> v = UNCLEAR \<and> git_code sha256_hex ex cwd patch True 1 \<and> git_code sha256_hex ex cwd patch False 1"

lemma check_code:
  assumes "patch_apply_check sha256_hex ex cwd patch rv w = (Some b, w')"
  shows "git_code sha256_hex ex cwd patch rv (if b then 0 else 1)"
proof -
  obtain script where s: "apply_check_script sha256_hex patch rv = Some script"
    using assms by (auto simp: patch_apply_check_def split: if_splits option.splits)
  obtain result w1 where r: "ex_run ex [''sh'', ''-c'', script] cwd GIT_TIMEOUT_SECONDS w = (result, w1)" by fastforce
  have "strip patch \<noteq> []" using assms by (auto simp: patch_apply_check_def)
  then obtain a where a: "result = Some a" "er_returncode a = (if b then 0 else 1)"
    using assms s r by (auto simp: patch_apply_check_def split: option.splits if_splits)
  then show ?thesis unfolding git_code_def using s r by (intro exI [of _ script] exI [of _ w] exI [of _ a]) simp
qed

lemma patch_verdict_proven:
  assumes "patch_verdict sha256_hex ex cwd branch patch w = (Inr (v, reason), w')"
  shows "proven sha256_hex ex cwd patch v"
proof -
  obtain b1 w1 where 1: "patch_apply_check sha256_hex ex cwd patch True w = (b1, w1)" by fastforce
  obtain b2 w2 where 2: "patch_apply_check sha256_hex ex cwd patch False w1 = (b2, w2)" by fastforce
  consider "b1 = Some True" "v = FIXED" | "b1 = Some False" "b2 = Some True" "v = STILL_VALID" | "b1 = Some False" "b2 = Some False" "v = UNCLEAR"
    using assms unfolding patch_verdict_def 1 2 by (auto simp: 2 split: option.splits bool.splits)
  then show ?thesis unfolding proven_def
  proof cases
    case 1
    then show "v = FIXED \<and> git_code sha256_hex ex cwd patch True 0 \<or> v = STILL_VALID \<and> git_code sha256_hex ex cwd patch True 1 \<and> git_code sha256_hex ex cwd patch False 0
       \<or> v = UNCLEAR \<and> git_code sha256_hex ex cwd patch True 1 \<and> git_code sha256_hex ex cwd patch False 1"
      using check_code [of sha256_hex ex cwd patch True w True w1] \<open>patch_apply_check sha256_hex ex cwd patch True w = (b1, w1)\<close> by simp
  qed (use check_code [of sha256_hex ex cwd patch True w False w1] check_code [of sha256_hex ex cwd patch False w1 _ w2]
      \<open>patch_apply_check sha256_hex ex cwd patch True w = (b1, w1)\<close> \<open>patch_apply_check sha256_hex ex cwd patch False w1 = (b2, w2)\<close> in fastforce)+
qed

definition verdicts :: "backlog_report list \<Rightarrow> (nat \<times> string) set" where
  "verdicts reports = (\<lambda>r. (se_pk r, bl_recheck_status r)) ` set reports"

definition patches :: "backlog_report list \<Rightarrow> (nat \<times> string) set" where
  "patches reports = (\<lambda>r. (se_pk r, se_proposed_patch r)) ` set reports"

definition proofs :: "(string \<Rightarrow> string) \<Rightarrow> 'w executor \<Rightarrow> string \<Rightarrow> (nat \<times> string) set \<Rightarrow> (nat \<times> string) set" where
  "proofs sha256_hex ex cwd ps = {(pk, v) | pk v patch. (pk, patch) \<in> ps \<and> proven sha256_hex ex cwd patch v}"

lemma write_verdict_fields [simp]:
  "se_pk (write_verdict v why now r) = se_pk r" "se_proposed_patch (write_verdict v why now r) = se_proposed_patch r"
  "bl_recheck_status (write_verdict v why now r) = v"
  by (simp_all add: write_verdict_def)

lemma scan_one_verdicts:
  assumes "scan_one sha256_hex edit ex cwd pk patch branch now run reports w = (answered, run1, reports1, w1)"
  shows "verdicts reports1 \<subseteq> verdicts (edit reports) \<union> proofs sha256_hex ex cwd {(pk, patch)} \<and> patches reports1 = patches (edit reports)
    \<and> map se_pk reports1 = map se_pk (edit reports)"
proof -
  obtain p w2 where p: "patch_verdict sha256_hex ex cwd branch patch w = (p, w2)" by fastforce
  show ?thesis
  proof (cases p)
    case (Inl why)
    then show ?thesis using assms p by (simp add: scan_one_def)
  next
    case (Inr vr)
    obtain v reason where vr: "vr = (v, reason)" by (cases vr)
    have pr: "proven sha256_hex ex cwd patch v"
      using patch_verdict_proven [of sha256_hex ex cwd branch patch w v reason w2] p Inr vr by simp
    define some where "some \<longleftrightarrow> list_ex (takes_verdict pk v) (edit reports)"
    have r1: "reports1 = (if some then map (\<lambda>r. if takes_verdict pk v r then write_verdict v reason now r else r) (edit reports) else edit reports)"
      using assms p Inr vr by (auto simp: scan_one_def Let_def some_def)
    have "(se_pk r, v) \<in> proofs sha256_hex ex cwd {(pk, patch)}" if "takes_verdict pk v r" for r
      using that pr by (auto simp: takes_verdict_def proofs_def)
    moreover define f where "f = (\<lambda>r. if takes_verdict pk v r then write_verdict v reason now r else r)"
    have f: "se_pk (f r) = se_pk r" "se_proposed_patch (f r) = se_proposed_patch r" for r by (simp_all add: f_def)
    have "patches (map f t) = patches t" for t by (simp add: patches_def image_image f)
    moreover have "map se_pk (map f t) = map se_pk t" for t unfolding f_def by (rule verdict_update.same_pks)
    moreover have "verdicts (map f t) \<subseteq> verdicts t \<union> proofs sha256_hex ex cwd {(pk, patch)}" for t
      using calculation(1) by (auto simp: verdicts_def f_def)
    ultimately show ?thesis unfolding r1 f_def [symmetric] by (cases some) auto
  qed
qed








lemma scan_run_cases:
  assumes "scan_already_fixed su edit vs config reviewers project scope reports w = (run, reports', w')"
  obtains (stopped) "reports' = reports" and "fr_error run \<noteq> [] \<or> take (nat (bs_max_reports_per_scan config)) (fixed_scan_candidates project scope reports) = []"
      and "fr_reports_considered run = 0" "fr_fixed run = 0" "fr_still_valid run = 0" "fr_unclear run = 0" "fr_skipped run = []"
    | (ran) pc w1 where "prepare su vs reviewers project w = (Inr pc, w1)"
      and "scan_groups (su_sha256_hex su) edit (pc_executor pc) (pc_cwd pc) (su_timezone_now su w1)
        (group_reports (pc_default_branch pc) (take (nat (bs_max_reports_per_scan config)) (fixed_scan_candidates project scope reports)))
        ((blank_fixed_run (project_full_name project))\<lparr>fr_stale_warning := pc_stale_warning pc\<rparr>) reports w1 = (run, reports', w')"
proof -
  define shortlist where "shortlist = take (nat (bs_max_reports_per_scan config)) (fixed_scan_candidates project scope reports)"
  obtain p w1 where p: "prepare su vs reviewers project w = (p, w1)" by fastforce
  show ?thesis
  proof (cases "shortlist = []")
    case True
    then have "run = blank_fixed_run (project_full_name project)" "reports' = reports"
      using assms by (simp_all add: scan_already_fixed_def shortlist_def [symmetric] Let_def)
    then show ?thesis using True by (intro stopped) (simp_all add: blank_fixed_run_def shortlist_def)
  next
    case ne: False
    show ?thesis
    proof (cases p)
      case (Inl e)
      obtain err stale where e: "e = (err, stale)" by (cases e)
      have run: "run = (blank_fixed_run (project_full_name project))\<lparr>fr_error := err, fr_stale_warning := stale\<rparr>" "reports' = reports"
        using assms ne p Inl e by (simp_all add: scan_already_fixed_def shortlist_def [symmetric] Let_def)
      have "err \<noteq> []" using p Inl e by (auto simp: prepare_def Let_def split: option.splits prod.splits if_splits)
      then show ?thesis using run by (intro stopped) (simp_all add: blank_fixed_run_def)
    next
      case (Inr pc)
      then show ?thesis using assms ne p by (intro ran) (simp_all add: scan_already_fixed_def shortlist_def [symmetric] Let_def)
    qed
  qed
qed


section \<open>The count\<close>

definition answered_of :: "fixed_run \<Rightarrow> nat" where
  "answered_of run = fr_fixed run + fr_still_valid run + fr_unclear run"

definition skipped_of :: "fixed_run \<Rightarrow> nat" where
  "skipped_of run = sum_list (map snd (fr_skipped run))"

lemma update_count: "sum_list (map snd (AList.update k (dict_get 0 d k + 1) d)) = Suc (sum_list (map snd d))"
proof (induction d)
  case (Cons e d)
  then show ?case by (cases e) (simp add: dict_get_def)
qed (simp add: dict_get_def)

lemma skip_counts [simp]:
  "skipped_of (skip_report why run) = Suc (skipped_of run)" "answered_of (skip_report why run) = answered_of run"
  "fr_reports_considered (skip_report why run) = fr_reports_considered run"
  using update_count [where k = why and d = "fr_skipped run"] by (simp_all add: skipped_of_def skip_report_def answered_of_def)

lemma count_counts [simp]:
  "skipped_of (count_verdict v run) = skipped_of run" "answered_of (count_verdict v run) = Suc (answered_of run)"
  "fr_reports_considered (count_verdict v run) = fr_reports_considered run"
  by (simp_all add: skipped_of_def count_verdict_def answered_of_def)

lemma scan_one_counts:
  assumes "scan_one sha256_hex edit ex cwd pk patch branch now run reports w = (answered, run1, reports1, w1)"
  shows "answered_of run1 = answered_of run + (if answered then 1 else 0) \<and> skipped_of run1 = skipped_of run + (if answered then 0 else 1)
    \<and> fr_reports_considered run1 = fr_reports_considered run"
  using assms by (auto simp: scan_one_def Let_def split: sum.splits prod.splits if_splits)

lemma scan_reports_counts:
  assumes "scan_reports sha256_hex edit ex cwd branch now qs run reports w = (run', reports', w')" and "fr_reports_considered run = answered_of run"
  shows "fr_reports_considered run' = answered_of run' \<and> answered_of run' + skipped_of run' = answered_of run + skipped_of run + length qs"
  using assms
proof (induction qs arbitrary: run reports w)
  case (Cons q qs)
  obtain pk patch where q: "q = (pk, patch)" by (cases q)
  obtain answered run1 t1 w1 where s: "scan_one sha256_hex (edit pk) ex cwd pk patch branch now run reports w = (answered, run1, t1, w1)"
    by (rule prod_cases4)
  define run2 where "run2 = (if answered then run1\<lparr>fr_reports_considered := fr_reports_considered run1 + 1\<rparr> else run1)"
  have rest: "scan_reports sha256_hex edit ex cwd branch now qs run2 t1 w1 = (run', reports', w')"
    using Cons.prems(1) q s by (simp add: run2_def)
  have "fr_reports_considered run2 = answered_of run2" "answered_of run2 + skipped_of run2 = answered_of run + skipped_of run + 1"
    using scan_one_counts [OF s] Cons.prems(2) by (cases answered; simp add: run2_def answered_of_def skipped_of_def)+
  then show ?case using Cons.IH [OF rest] by simp
qed simp

lemma scan_reports_pks:
  assumes "\<And>i t. map se_pk (edit i t) = map se_pk t" and "scan_reports sha256_hex edit ex cwd branch now qs run reports w = (run', reports', w')"
  shows "map se_pk reports' = map se_pk reports"
  using assms(2)
proof (induction qs arbitrary: run reports w)
  case (Cons q qs)
  obtain pk patch where q: "q = (pk, patch)" by (cases q)
  obtain answered run1 t1 w1 where s: "scan_one sha256_hex (edit pk) ex cwd pk patch branch now run reports w = (answered, run1, t1, w1)"
    by (rule prod_cases4)
  have "\<exists>run2. scan_reports sha256_hex edit ex cwd branch now qs run2 t1 w1 = (run', reports', w')"
    using Cons.prems(1) q s by auto
  then have "map se_pk reports' = map se_pk t1" using Cons.IH by blast
  then show ?case using scan_one_verdicts [OF s] assms(1) by simp
qed auto

lemma filter_in_card:
  assumes "distinct (map f xs)" and "distinct ys" and "set ys \<subseteq> set (map f xs)"
  shows "length (filter (\<lambda>x. f x \<in> set ys) xs) = length ys"
proof -
  have "length (filter (\<lambda>x. f x \<in> set ys) xs) = length (map f (filter (\<lambda>x. f x \<in> set ys) xs))" by simp
  also have "\<dots> = card (set (map f (filter (\<lambda>x. f x \<in> set ys) xs)))"
    using assms(1) distinct_card [of "map f (filter (\<lambda>x. f x \<in> set ys) xs)"] distinct_map_filter by metis
  also have "set (map f (filter (\<lambda>x. f x \<in> set ys) xs)) = set ys" using assms(3) by auto
  finally show ?thesis using distinct_card [OF assms(2)] by simp
qed

lemma fold_skip_counts:
  "fr_reports_considered (fold (\<lambda>_. skip_report why) pks run) = fr_reports_considered run"
  "answered_of (fold (\<lambda>_. skip_report why) pks run) = answered_of run"
  "skipped_of (fold (\<lambda>_. skip_report why) pks run) = skipped_of run + length pks"
  by (induction pks arbitrary: run) simp_all

lemma scan_groups_counts:
  assumes "\<And>i t. map se_pk (edit i t) = map se_pk t"
    and "scan_groups sha256_hex edit ex cwd now gs run reports w = (run', reports', w')" and "fr_reports_considered run = answered_of run"
    and "distinct (map se_pk reports)" and "\<And>g. g \<in> set gs \<Longrightarrow> distinct (snd g) \<and> set (snd g) \<subseteq> set (map se_pk reports)"
  shows "fr_reports_considered run' = answered_of run' \<and>
    answered_of run' + skipped_of run' = answered_of run + skipped_of run + length (concat (map snd gs))"
  using assms(2-5)
proof (induction gs arbitrary: run reports w)
  case (Cons g gs)
  obtain branch pks where g: "g = (branch, pks)" by (cases g)
  obtain commit w1 where c: "checkout ex cwd branch False w = (commit, w1)" by fastforce
  show ?case
  proof (cases "commit = []")
    case True
    define run0 where "run0 = fold (\<lambda>_. skip_report (''origin/'' @ branch @ '' could not be checked out'')) pks run"
    have rest: "scan_groups sha256_hex edit ex cwd now gs run0 reports w1 = (run', reports', w')"
      using Cons.prems(1) g c True by (simp add: run0_def)
    have n: "fr_reports_considered run0 = answered_of run0" "answered_of run0 + skipped_of run0 = answered_of run + skipped_of run + length pks"
      using Cons.prems(2) by (simp_all add: run0_def fold_skip_counts)
    have each: "distinct (snd h) \<and> set (snd h) \<subseteq> set (map se_pk reports)" if "h \<in> set gs" for h
      using Cons.prems(4) [of h] that by simp
    show ?thesis using Cons.IH [OF rest n(1) Cons.prems(3) each] n(2) g by simp
  next
    case False
    obtain run1 t1 w2 where s: "scan_reports sha256_hex edit ex cwd branch now (group_patches pks reports) run reports w1 = (run1, t1, w2)"
      by (rule prod_cases3)
    have rest: "scan_groups sha256_hex edit ex cwd now gs run1 t1 w2 = (run', reports', w')" using Cons.prems(1) g c False s by simp
    have pks: "map se_pk t1 = map se_pk reports" by (rule scan_reports_pks [OF assms(1) s])
    have "length (group_patches pks reports) = length pks"
      using filter_in_card [of se_pk reports pks] Cons.prems(3) Cons.prems(4) [of g] g by (simp add: group_patches_def)
    then have "fr_reports_considered run1 = answered_of run1 \<and> answered_of run1 + skipped_of run1 = answered_of run + skipped_of run + length pks"
      using scan_reports_counts [OF s Cons.prems(2)] by simp
    then show ?thesis using Cons.IH [OF rest] Cons.prems(3,4) g pks by (simp del: set_map)
  qed
qed simp

lemma update_append_perm:
  "mset (concat (map snd (AList.update k (dict_get [] g k @ [x]) g))) = add_mset x (mset (concat (map snd g)))"
proof (induction g)
  case (Cons e g)
  then show ?case by (cases e) (simp add: dict_get_def)
qed (simp add: dict_get_def)

lemma group_reports_perm: "mset (concat (map snd (group_reports dflt rows))) = mset (map se_pk rows)"
proof -
  have "mset (concat (map snd (fold (\<lambda>r g. AList.update (scan_base dflt r) (dict_get [] g (scan_base dflt r) @ [se_pk r]) g) rows g)))
      = mset (concat (map snd g)) + mset (map se_pk rows)" for g
    by (induction rows arbitrary: g) (simp_all add: update_append_perm)
  then show ?thesis by (simp add: group_reports_def)
qed

lemma count_helper:
  assumes "distinct (map se_pk reports)" and "\<And>i t. map se_pk (edit i t) = map se_pk t"
    and "scan_already_fixed su edit vs config reviewers project scope reports w = (run, reports', w')" and "fr_error run = []"
  shows "fr_reports_considered run = answered_of run \<and> answered_of run + skipped_of run
     = length (take (nat (bs_max_reports_per_scan config)) (fixed_scan_candidates project scope reports))"
  using assms(3)
proof (cases rule: scan_run_cases)
  case stopped
  then have none: "take (nat (bs_max_reports_per_scan config)) (fixed_scan_candidates project scope reports) = []" using assms(4) by blast
  show ?thesis unfolding none using stopped by (simp add: answered_of_def skipped_of_def)
next
  case (ran pc w1)
  define shortlist where "shortlist = take (nat (bs_max_reports_per_scan config)) (fixed_scan_candidates project scope reports)"
  define gs where "gs = group_reports (pc_default_branch pc) shortlist"
  define run0 where "run0 = (blank_fixed_run (project_full_name project))\<lparr>fr_stale_warning := pc_stale_warning pc\<rparr>"
  have perm: "mset (concat (map snd gs)) = mset (map se_pk shortlist)" by (simp add: gs_def group_reports_perm)
  have sub: "set shortlist \<subseteq> set reports"
    by (auto simp: shortlist_def fixed_scan_candidates_def by_priority_def dest: in_set_takeD)
  have "distinct (map se_pk (fixed_scan_candidates project scope reports))"
    using assms(1) by (simp add: fixed_scan_candidates_def by_priority_def distinct_map inj_on_def)
  then have "distinct (map se_pk shortlist)" by (simp add: shortlist_def take_map [symmetric])
  then have dis: "distinct (concat (map snd gs))" using perm mset_eq_imp_distinct_iff by blast
  have same: "set (concat (map snd gs)) = set (map se_pk shortlist)" using perm mset_eq_setD by blast
  have each: "distinct (snd g) \<and> set (snd g) \<subseteq> set (map se_pk reports)" if "g \<in> set gs" for g
  proof
    show "distinct (snd g)" using that dis by (auto simp: distinct_concat_iff)
    have "set (snd g) \<subseteq> set (concat (map snd gs))" using that by auto
    also have "\<dots> = se_pk ` set shortlist" using same by simp
    also have "\<dots> \<subseteq> set (map se_pk reports)" using sub by auto
    finally show "set (snd g) \<subseteq> set (map se_pk reports)" .
  qed
  have "fr_reports_considered run0 = answered_of run0" "answered_of run0 = 0" "skipped_of run0 = 0"
    by (simp_all add: run0_def blank_fixed_run_def answered_of_def skipped_of_def)
  moreover have "length (concat (map snd gs)) = length shortlist" using perm by (metis length_map mset_eq_length)
  ultimately show ?thesis
    using scan_groups_counts [OF assms(2) ran(2) [folded shortlist_def gs_def run0_def] _ assms(1) each] by (simp add: shortlist_def)
qed

section \<open>The properties\<close>

text \<open>
  C25: A branch is tied to a report without asking only on the strength of a name. After a sweep
  every tie was there before, or is the operator's own, or joins a report that still owed a fix when
  the sweep began to a branch that its fix agent pushed or whose name holds its CVE id. That a
  commit mentions the id, or that paths overlap, is never enough.
\<close>
theorem tie_is_vouched:
  assumes "\<And>i t. ties (edit i t) \<subseteq> ties t \<union> mine"
    and "match_fix_branches su edit vs config reviewers table project scope reports w = (run, reports', w')"
  shows "ties reports' \<subseteq> ties reports \<union> mine \<union> {(se_pk r, b) | r b. r \<in> set reports \<and> owes_branch r \<and> vouched r b}"
  using assms by (rule match_ties_helper)

text \<open>
  C26: A ruling stands. From whatever point of the sweep on, a report that has a branch or is ruled to
  owe no fix, and that the operator leaves alone from there, comes out of the sweep as it was.
\<close>
theorem ruling_stands:
  assumes "\<And>i t. {r \<in> set t. \<not> owes_branch r} \<subseteq> set (edit i t)" and "r \<in> set reports" and "\<not> owes_branch r"
  shows "r \<in> set (snd (snd (apply_matches edit i now cs reports)))"
  using assms by (rule ruling_helper)



text \<open>
  C29: Nobody is dropped from the count. A scan that did not fail counts every report of its shortlist
  exactly once: as likely fixed, still valid or unclear, and then as considered, or as skipped.
\<close>
theorem scan_counts_everybody:
  assumes "distinct (map se_pk reports)" and "\<And>i t. map se_pk (edit i t) = map se_pk t"
    and "scan_already_fixed su edit vs config reviewers project scope reports w = (run, reports', w')" and "fr_error run = []"
  shows "fr_reports_considered run = answered_of run \<and> answered_of run + skipped_of run
     = length (take (nat (bs_max_reports_per_scan config)) (fixed_scan_candidates project scope reports))"
  using assms by (rule count_helper)

section \<open>Witnesses\<close>

definition sweep_answer :: "string list \<Rightarrow> exec_result option" where
  "sweep_answer argv = (let ok = (\<lambda>out. Some \<lparr>er_returncode = 0, er_stdout = out, er_stderr = []\<rparr>) in
     if argv ! 1 = ''symbolic-ref'' then ok ''origin/main''
     else if argv ! 1 = ''for-each-ref'' then ok (''origin/main 900'' @ [newline] @ ''origin/fix-cve-2025-1234 900'')
     else if argv ! 1 = ''log'' then ok (''Mention CVE-2025-9999'' @ [record_separator])
     else ok ''c0ffee'')"

definition sweep_git :: "nat executor" where
  "sweep_git = \<lparr>ex_run = (\<lambda>argv cwd t w. (sweep_answer argv, Suc w)), ex_prepare_repo = (\<lambda>owner repo here sub w. (Some ''/w'', w))\<rparr>"

definition sweep_surroundings :: "(unit, nat) map_surroundings" where
  "sweep_surroundings = \<lparr>su_sha256_hex = (\<lambda>s. ''0123456789abcdef0''), su_re_match = (\<lambda>p name. False), su_time = (\<lambda>w. 1000),
     su_monotonic = rat_of_nat, su_timezone_now = int, su_local_checkout = (\<lambda>owner repo. None), su_make_executor = (\<lambda>_. sweep_git)\<rparr>"

definition sweep_settings :: verifier_settings where
  "sweep_settings = \<lparr>vs_enabled = True, vs_reviewer = ''claude'', vs_max_branches = 3, vs_branch_active_within_days = 180,
     vs_branch_patterns = [], vs_workspace_subdir = ''security-verify''\<rparr>"

definition sweep_config :: branch_scan_config where
  "sweep_config = \<lparr>bs_active_within_days = 365, bs_max_branches = 300, bs_max_commits_per_branch = 200, bs_max_default_commits = 2000,
     bs_max_paths_per_branch = 400, bs_max_reports_per_scan = 5\<rparr>"

definition spark :: project_ref where "spark = \<lparr>pj_pk = 1, pj_owner = ''apache'', pj_repo = ''spark''\<rparr>"

definition sweep_report :: "nat \<Rightarrow> string \<Rightarrow> backlog_report" where
  "sweep_report pk cve = \<lparr>se_pk = pk, se_project = Some spark, se_title = [], se_raw_text = [], se_parsed_component = [], se_parsed_poc = [],
     se_proposed_patch = ''+EOF'', bl_status = ''new'', bl_source_agent = [], bl_source_archive = [], bl_priority = 1, bl_matched_cve_id = cve,
     bl_finding_id = [], bl_fix_branch = [], bl_fix_base_branch = [], bl_fixed_in_branch = [], bl_branch_match_branch = [],
     bl_branch_match_confidence = None, bl_branch_match_reason = [], bl_branch_match_applied = False, bl_branch_matched_at = None,
     bl_recheck_status = [], bl_recheck_reason = [], bl_recheck_method = [], bl_rechecked_at = None, bl_created_at = 0, bl_updated_at = 0\<rparr>"

definition backlog :: "backlog_report list" where
  "backlog = [sweep_report 1 ''CVE-2025-1234'', sweep_report 2 ''CVE-2025-9999'']"

definition no_edit :: "nat \<Rightarrow> backlog_report list \<Rightarrow> backlog_report list" where
  "no_edit i t = t"

lemma sweep_outcome:
  "(case match_fix_branches sweep_surroundings no_edit sweep_settings sweep_config [(''claude'', ())] [] spark ''all'' backlog 0 of (run, reports', w') \<Rightarrow>
     mr_error run = [] \<and> map bl_fixed_in_branch reports' = [''fix-cve-2025-1234'', []] \<and> map bl_branch_match_branch reports' = [''fix-cve-2025-1234'', ''main''])"
  by code_simp

theorem tie_is_vouched_witness:
  "vouched (sweep_report 1 ''CVE-2025-1234'') ''fix-cve-2025-1234''"
proof -
  obtain run t w' where m: "match_fix_branches sweep_surroundings no_edit sweep_settings sweep_config [(''claude'', ())] [] spark ''all'' backlog 0 = (run, t, w')"
    by (rule prod_cases3)
  have f: "map bl_fixed_in_branch t = [''fix-cve-2025-1234'', []]" using sweep_outcome unfolding m prod.case by blast
  then obtain r where r: "r \<in> set t" "bl_fixed_in_branch r = ''fix-cve-2025-1234''" by (cases t) auto
  have e: "ties (no_edit i t) \<subseteq> ties t \<union> {}" for i t by (simp add: no_edit_def)
  have "(se_pk r, ''fix-cve-2025-1234'') \<in> ties t" using r by (force simp: ties_def)
  then have "(se_pk r, ''fix-cve-2025-1234'') \<in> ties backlog \<union> {} \<union> {(se_pk r, b) | r b. r \<in> set backlog \<and> owes_branch r \<and> vouched r b}"
    using tie_is_vouched [OF e m] by blast
  moreover have "ties backlog = {}" by (auto simp: ties_def backlog_def sweep_report_def)
  ultimately have "\<exists>x \<in> set backlog. vouched x ''fix-cve-2025-1234''" by blast
  then obtain x where x: "x \<in> set backlog" "vouched x ''fix-cve-2025-1234''" by blast
  have "\<not> vouched (sweep_report 2 ''CVE-2025-9999'') ''fix-cve-2025-1234''" by code_simp
  then show ?thesis using x unfolding backlog_def by auto
qed

theorem ruling_stands_witness:
  "(sweep_report 3 [])\<lparr>bl_status := ''invalid''\<rparr> \<in> set (snd (snd (apply_matches no_edit 0 9
     [(candidate_of [] (sweep_report 3 []))\<lparr>ca_best := Some \<lparr>bm_branch = ''b'', bm_confidence = 1, bm_reason = []\<rparr>\<rparr>]
     [(sweep_report 3 [])\<lparr>bl_status := ''invalid''\<rparr>])))"
  by (rule ruling_stands) (simp_all add: no_edit_def owes_branch_def NO_FIX_OWED_STATUSES_def)



theorem scan_counts_everybody_witness:
  "answered_of (fst (scan_already_fixed sweep_surroundings no_edit sweep_settings sweep_config [(''claude'', ())] spark ''all'' backlog 0))
   + skipped_of (fst (scan_already_fixed sweep_surroundings no_edit sweep_settings sweep_config [(''claude'', ())] spark ''all'' backlog 0)) = 2"
proof -
  obtain run t w' where m: "scan_already_fixed sweep_surroundings no_edit sweep_settings sweep_config [(''claude'', ())] spark ''all'' backlog 0 = (run, t, w')"
    by (rule prod_cases3)
  have d: "distinct (map se_pk backlog)" by (simp add: backlog_def sweep_report_def)
  have e: "map se_pk (no_edit i t) = map se_pk t" for i t by (simp add: no_edit_def)
  have "fr_error (fst (scan_already_fixed sweep_surroundings no_edit sweep_settings sweep_config [(''claude'', ())] spark ''all'' backlog 0)) = []" by code_simp
  then have r: "fr_error run = []" by (simp add: m)
  have "length (take (nat (bs_max_reports_per_scan sweep_config)) (fixed_scan_candidates spark ''all'' backlog)) = 2" by code_simp
  then show ?thesis using scan_counts_everybody [OF d e m r] unfolding m by simp
qed

section \<open>Divergences\<close>

text \<open>A rejected branch with a name longer than the column is tied again by the next sweep.\<close>
lemma long_name_comes_back:
  "bl_fixed_in_branch (sweep_row [] (2, \<lparr>bm_branch = replicate 201 CHR ''x'', bm_confidence = 95/100, bm_reason = []\<rparr>)
     ((sweep_row [] (1, \<lparr>bm_branch = replicate 201 CHR ''x'', bm_confidence = 95/100, bm_reason = []\<rparr>) (sweep_report 1 []))
        \<lparr>bl_fixed_in_branch := []\<rparr>)) = replicate 201 CHR ''x''"
  by code_simp

text \<open>The reason given for a skipped unclear verdict is the same when the operator ruled on the report.\<close>
lemma ruled_report_blames_verdict:
  "(case scan_one (\<lambda>s. []) (\<lambda>t. [(sweep_report 1 [])\<lparr>bl_status := ''invalid''\<rparr>])
       (sweep_git\<lparr>ex_run := (\<lambda>argv cwd t w. (Some \<lparr>er_returncode = 1, er_stdout = [], er_stderr = []\<rparr>, w))\<rparr>) ''/w'' 1 ''+EOF'' ''main'' 5
       (blank_fixed_run []) [sweep_report 1 []] 0 of (answered, run, t, w) \<Rightarrow> fr_skipped run)
   = [(''an existing recheck verdict was left in place'', 1)]"
  by code_simp

end
