(* ===== verification/Patterns.thy ===== *)
theory Patterns
  imports Signals
begin

text \<open>
  Regular expressions as Python's \<open>re\<close> runs them, for the patterns the code is written with: a
  pattern, the matcher by backtracking, and what it means to match.

  A position is the character before it, if there is one, with the text that is left. The matcher
  lists all the ends of a match in the order in which backtracking reaches them, so the first one is
  the match that Python reports. The text is ASCII; a pattern with \<open>IGNORECASE\<close> is written in lower
  case and run on the text in lower case.
\<close>

section \<open>Patterns and positions\<close>

datatype rx =
    Eps
  | Cls "char \<Rightarrow> bool"  \<comment> \<open>one character of a class\<close>
  | Seq rx rx
  | Alt rx rx
  | Many rx  \<comment> \<open>\<open>r*\<close>\<close>
  | Edge  \<comment> \<open>\<open>\b\<close>\<close>
  | AtEnd  \<comment> \<open>\<open>$\<close>\<close>
  | Ahead rx  \<comment> \<open>\<open>(?=r)\<close>\<close>

type_synonym place = "char option \<times> string"

definition at_edge :: "place \<Rightarrow> bool" where
  "at_edge x \<longleftrightarrow> (case fst x of None \<Rightarrow> False | Some c \<Rightarrow> is_word_char c) \<noteq> head_is_word (snd x)"

definition at_end :: "place \<Rightarrow> bool" where
  "at_end x \<longleftrightarrow> snd x = [] \<or> snd x = [newline]"

text \<open>A step of a repetition has to consume something.\<close>

fun star_ends :: "nat \<Rightarrow> (place \<Rightarrow> place list) \<Rightarrow> place \<Rightarrow> place list" where
  "star_ends 0 f x = [x]"
| "star_ends (Suc n) f x = concat (map (star_ends n f) (filter (\<lambda>y. length (snd y) < length (snd x)) (f x))) @ [x]"

primrec ends :: "rx \<Rightarrow> place \<Rightarrow> place list" where
  "ends Eps x = [x]"
| "ends (Cls P) x = (case snd x of [] \<Rightarrow> [] | c # s \<Rightarrow> if P c then [(Some c, s)] else [])"
| "ends (Seq a b) x = concat (map (ends b) (ends a x))"
| "ends (Alt a b) x = ends a x @ ends b x"
| "ends (Many a) x = star_ends (length (snd x)) (ends a) x"
| "ends Edge x = (if at_edge x then [x] else [])"
| "ends AtEnd x = (if at_end x then [x] else [])"
| "ends (Ahead a) x = (if ends a x = [] then [] else [x])"

text \<open>\<open>re.match\<close> and \<open>re.search\<close>, as conditions.\<close>

definition rx_match :: "rx \<Rightarrow> string \<Rightarrow> bool" where
  "rx_match r s \<longleftrightarrow> ends r (None, s) \<noteq> []"

fun search_from :: "rx \<Rightarrow> char option \<Rightarrow> string \<Rightarrow> bool" where
  "search_from r p [] \<longleftrightarrow> ends r (p, []) \<noteq> []"
| "search_from r p (c # s) \<longleftrightarrow> ends r (p, c # s) \<noteq> [] \<or> search_from r (Some c) s"

definition rx_search :: "rx \<Rightarrow> string \<Rightarrow> bool" where
  "rx_search r s \<longleftrightarrow> search_from r None s"

text \<open>\<open>r.sub("", s, count=1)\<close>.\<close>

fun cut_first :: "rx \<Rightarrow> char option \<Rightarrow> string \<Rightarrow> string" where
  "cut_first r p [] = []"
| "cut_first r p (c # s) = (case ends r (p, c # s) of [] \<Rightarrow> c # cut_first r (Some c) s | (_, rest) # _ \<Rightarrow> rest)"

section \<open>Building patterns\<close>

definition chr :: "char \<Rightarrow> rx" where "chr c = Cls (\<lambda>d. d = c)"
definition lit :: "string \<Rightarrow> rx" where "lit s = foldr (\<lambda>c r. Seq (chr c) r) s Eps"
definition seqs :: "rx list \<Rightarrow> rx" where "seqs rs = foldr Seq rs Eps"
fun alts :: "rx list \<Rightarrow> rx" where
  "alts [] = Cls (\<lambda>c. False)"
| "alts [r] = r"
| "alts (r # rs) = Alt r (alts rs)"
definition opt :: "rx \<Rightarrow> rx" where "opt r = Alt r Eps"
definition many1 :: "rx \<Rightarrow> rx" where "many1 r = Seq r (Many r)"
definition spaces :: rx where "spaces = Many (Cls is_space)"
definition words_rx :: "string list \<Rightarrow> rx" where "words_rx ws = alts (map lit ws)"

section \<open>What it means to match\<close>

inductive matches_rx :: "rx \<Rightarrow> place \<Rightarrow> place \<Rightarrow> bool" where
  eps: "matches_rx Eps x x"
| cls: "P c \<Longrightarrow> matches_rx (Cls P) (p, c # s) (Some c, s)"
| seq: "matches_rx a x y \<Longrightarrow> matches_rx b y z \<Longrightarrow> matches_rx (Seq a b) x z"
| alt1: "matches_rx a x y \<Longrightarrow> matches_rx (Alt a b) x y"
| alt2: "matches_rx b x y \<Longrightarrow> matches_rx (Alt a b) x y"
| many0: "matches_rx (Many a) x x"
| many: "matches_rx a x y \<Longrightarrow> length (snd y) < length (snd x) \<Longrightarrow> matches_rx (Many a) y z \<Longrightarrow> matches_rx (Many a) x z"
| edge: "at_edge x \<Longrightarrow> matches_rx Edge x x"
| at_end: "at_end x \<Longrightarrow> matches_rx AtEnd x x"
| ahead: "matches_rx a x y \<Longrightarrow> matches_rx (Ahead a) x x"

inductive_cases matches_EpsE: "matches_rx Eps x y"
inductive_cases matches_ClsE: "matches_rx (Cls P) x y"
inductive_cases matches_SeqE: "matches_rx (Seq a b) x y"
inductive_cases matches_AltE: "matches_rx (Alt a b) x y"
inductive_cases matches_EdgeE: "matches_rx Edge x y"
inductive_cases matches_AtEndE: "matches_rx AtEnd x y"
inductive_cases matches_AheadE: "matches_rx (Ahead a) x y"

lemma star_Suc: "y \<in> set (star_ends (Suc n) f x) \<longleftrightarrow>
    y = x \<or> (\<exists>z. z \<in> set (f x) \<and> length (snd z) < length (snd x) \<and> y \<in> set (star_ends n f z))"
  by (simp only: star_ends.simps set_append set_concat set_map set_filter image_image) force

lemma ends_Seq: "y \<in> set (ends (Seq a b) x) \<longleftrightarrow> (\<exists>z. z \<in> set (ends a x) \<and> y \<in> set (ends b z))"
  by (simp only: ends.simps set_concat set_map image_image) force

lemma star_sound:
  assumes "\<And>x y. y \<in> set (f x) \<Longrightarrow> matches_rx a x y"
  shows "y \<in> set (star_ends n f x) \<Longrightarrow> matches_rx (Many a) x y"
proof (induction n arbitrary: x)
  case (Suc n)
  then show ?case unfolding star_Suc using assms matches_rx.many matches_rx.many0 by blast
qed (auto intro: matches_rx.many0)

lemma star_complete:
  assumes "\<And>x y. matches_rx a x y \<Longrightarrow> y \<in> set (f x)"
  shows "matches_rx (Many a) x y \<Longrightarrow> length (snd x) \<le> n \<Longrightarrow> y \<in> set (star_ends n f x)"
proof (induction "Many a" x y arbitrary: n rule: matches_rx.induct)
  case (many0 x)
  then show ?case by (cases n) auto
next
  case (many x y z)
  then obtain m where n: "n = Suc m" by (cases n) auto
  have "z \<in> set (star_ends m f y)" using many n by simp
  then show ?case using assms [OF many(1)] many(3) unfolding n star_Suc by blast
qed

text \<open>The matcher lists exactly the matches; the bound on the number of repetitions cuts nothing off.\<close>

lemma ends_iff: "y \<in> set (ends r x) \<longleftrightarrow> matches_rx r x y"
proof (induction r arbitrary: x y)
  case (Cls P)
  show ?case
    by (cases x; cases "snd x") (auto intro: matches_rx.cls elim: matches_ClsE)
next
  case (Seq a b)
  then show ?case unfolding ends_Seq by (blast intro: matches_rx.seq elim: matches_SeqE)
next
  case (Alt a b)
  then show ?case by (auto intro: matches_rx.alt1 matches_rx.alt2 elim!: matches_AltE)
next
  case (Many a)
  show ?case
  proof
    assume "y \<in> set (ends (Many a) x)"
    then have "y \<in> set (star_ends (length (snd x)) (ends a) x)" by simp
    then show "matches_rx (Many a) x y" by (rule star_sound [rotated]) (simp add: Many)
  next
    assume "matches_rx (Many a) x y"
    then have "y \<in> set (star_ends (length (snd x)) (ends a) x)"
      by (rule star_complete [rotated]) (simp_all add: Many)
    then show "y \<in> set (ends (Many a) x)" by simp
  qed
next
  case (Ahead a)
  have "ends a x \<noteq> [] \<longleftrightarrow> (\<exists>z. z \<in> set (ends a x))" by (cases "ends a x") auto
  then show ?case using Ahead by (auto intro: matches_rx.ahead elim!: matches_AheadE)
qed (auto intro: matches_rx.intros elim!: matches_EpsE matches_EdgeE matches_AtEndE)

lemma rx_match_iff: "rx_match r s \<longleftrightarrow> (\<exists>y. matches_rx r (None, s) y)"
proof -
  have "ends r (None, s) \<noteq> [] \<longleftrightarrow> (\<exists>y. y \<in> set (ends r (None, s)))" by (cases "ends r (None, s)") auto
  then show ?thesis by (simp add: rx_match_def ends_iff)
qed

lemma search_from_iff:
  "search_from r p s \<longleftrightarrow> (\<exists>u v. s = u @ v \<and> ends r (if u = [] then p else Some (last u), v) \<noteq> [])"
proof (induction s arbitrary: p)
  case (Cons c s)
  let ?hit = "\<lambda>p u v. ends r (if u = [] then p else Some (last u), v) \<noteq> []"
  have "(\<exists>u v. c # s = u @ v \<and> ?hit p u v) \<longleftrightarrow> ?hit p [] (c # s) \<or> (\<exists>u v. s = u @ v \<and> ?hit p (c # u) v)"
    unfolding Cons_eq_append_conv by blast
  moreover have "?hit p (c # u) v \<longleftrightarrow> ?hit (Some c) u v" for u v by (cases "u = []") simp_all
  ultimately show ?case using Cons.IH [of "Some c"] by simp
qed simp

text \<open>A search succeeds when the pattern matches somewhere, with the character before as context.\<close>

lemma rx_search_iff:
  "rx_search r s \<longleftrightarrow> (\<exists>u v y. s = u @ v \<and> matches_rx r (if u = [] then None else Some (last u), v) y)"
proof -
  have "ends r x \<noteq> [] \<longleftrightarrow> (\<exists>y. matches_rx r x y)" for x unfolding ends_iff [symmetric] by (cases "ends r x") auto
  then show ?thesis unfolding rx_search_def search_from_iff by blast
qed

end
