(* ===== verification/ReviewAnswers.thy ===== *)
theory ReviewAnswers
  imports Patterns JsonCandidates Mentions Findings
begin

text \<open>
  From a language model's answer to the findings of a review (\<open>review/backends/base.py\<close>): finding
  the JSON, repairing and rejecting the comments in it, and the call around it, with the errors of
  the client and the record of what a call cost.

  The validation of one finding is Pydantic's, a parameter: it answers a finding or refuses.
\<close>

section \<open>Comments that are not comments\<close>

definition SEVERITY_CONFIDENCE :: "(string \<times> rat) list" where
  "SEVERITY_CONFIDENCE = [(''critical'', 9/10), (''important'', 8/10), (''high'', 8/10), (''medium'', 6/10), (''low'', 4/10),
     (''nit'', 3/10), (''informational'', 3/10)]"

definition double_quote :: char where "double_quote = CHR 0x22"
definition single_quote :: char where "single_quote = CHR 0x27"
definition back_slash :: char where "back_slash = CHR 0x5C"

definition fence_marks :: string where "fence_marks = [backtick, backtick, backtick]"

text \<open>\<open>_CODE_FENCE_RE\<close>: its opening as a pattern, then the shortest text to a closing fence.\<close>

definition FENCE_OPENING :: rx where
  "FENCE_OPENING = seqs [lit fence_marks, opt (lit ''json''), spaces, chr newline]"

fun until_fence :: "string \<Rightarrow> string option" where
  "until_fence s = (if prefix (newline # fence_marks) s then Some []
     else (case s of [] \<Rightarrow> None | c # rest \<Rightarrow> map_option ((#) c) (until_fence rest)))"

declare until_fence.simps [simp del]

fun code_fence :: "string \<Rightarrow> string option" where
  "code_fence [] = None"
| "code_fence (c # s) = (case List.map_filter (until_fence \<circ> snd) (ends FENCE_OPENING (None, c # s)) of
     g # _ \<Rightarrow> Some g | [] \<Rightarrow> code_fence s)"

definition LEADING_KEY_RE :: rx where
  "LEADING_KEY_RE = seqs [spaces,
     alts [seqs [chr double_quote,
             Many (alts [Cls (\<lambda>c. c \<noteq> double_quote \<and> c \<noteq> back_slash), Seq (chr back_slash) (Cls (\<lambda>c. c \<noteq> newline))]), chr double_quote],
           many1 (Cls (\<lambda>c. is_word_char c \<or> c = CHR ''.''))],
     spaces, chr (CHR '':''), spaces]"

definition quoted_pair :: "string \<Rightarrow> string \<Rightarrow> rx" where
  "quoted_pair key v = seqs [lit ([double_quote] @ key @ [double_quote]), spaces, chr (CHR '':''), spaces, lit ([double_quote] @ v)]"

definition PROTOCOL_ENVELOPE_RE :: rx where
  "PROTOCOL_ENVELOPE_RE = alts [quoted_pair ''_type'' (''tool_use'' @ [double_quote]), quoted_pair ''id'' ''toolu_'',
     quoted_pair ''type'' (''function'' @ [double_quote])]"

definition strip_of :: "(char \<Rightarrow> bool) \<Rightarrow> string \<Rightarrow> string" where
  "strip_of P s = rev (dropWhile P (rev (dropWhile P s)))"

fun longest :: "string list \<Rightarrow> string" where
  "longest [] = []"
| "longest [x] = x"
| "longest (x # y # ys) = longest ((if length x < length y then y else x) # ys)"

definition string_values :: "jdict \<Rightarrow> string list" where
  "string_values d = filter (\<lambda>s. s \<noteq> []) (List.map_filter (\<lambda>e. case snd e of JStr s \<Rightarrow> Some (strip s) | _ \<Rightarrow> None) d)"

definition unwrap_broken :: "string \<Rightarrow> string \<Rightarrow> string" where
  "unwrap_broken original s =
     (let inner0 = tl s;
          inner1 = (if inner0 \<noteq> [] \<and> last inner0 = CHR ''}'' then butlast inner0 else inner0);
          inner2 = strip (cut_first LEADING_KEY_RE None inner1);
          inner3 = strip (strip_of (\<lambda>c. c = double_quote) inner2)
      in if inner3 \<noteq> [] then inner3 else original)"

definition coerce_prose :: "string \<Rightarrow> string" where
  "coerce_prose original =
     (let s = strip original in
      if \<not> prefix ''{'' s then original
      else if rx_search PROTOCOL_ENVELOPE_RE s then []
      else case json_loads s of
        Some (JObj d) \<Rightarrow> longest (string_values d)
      | None \<Rightarrow> unwrap_broken original s
      | Some JNull \<Rightarrow> unwrap_broken original s
      | Some _ \<Rightarrow> original)"

definition NONSENSE_BODIES :: "string list" where
  "NONSENSE_BODIES = [''true'', ''false'', ''null'', ''none'', ''n/a'', ''na'', ''{}'', ''[]'', ''nil'', ''undefined'', ''error'']"

definition is_upper_letter :: "char \<Rightarrow> bool" where
  "is_upper_letter c \<longleftrightarrow> (let n = (of_char c :: nat) in 65 \<le> n \<and> n \<le> 90)"

definition word_or_dot :: "char \<Rightarrow> bool" where
  "word_or_dot c \<longleftrightarrow> is_word_char c \<or> c = CHR ''.''"

definition BARE_CODE_TOKEN_RE :: rx where
  "BARE_CODE_TOKEN_RE = seqs [Ahead (Cls word_start),
     alts [seqs [Many (Cls is_word_char), chr (CHR ''.''), many1 (Cls word_or_dot)],
           seqs [Many (Cls word_or_dot), lit ''()''],
           seqs [many1 (Cls is_lower_alnum), Cls is_upper_letter, Many (Cls is_word_char)],
           seqs [many1 (Cls is_lower_alnum), chr (CHR ''_''), Many (Cls is_word_char)]],
     AtEnd]"

definition NO_COMMENT_RE :: rx where
  "NO_COMMENT_RE = seqs [
     opt (alts [seqs [lit ''so'', opt (lit '',''), lit '' ''], seqs [lit ''overall'', opt (lit '',''), lit '' '']]),
     alts [
       seqs [lit ''nothing '', opt (alts [lit ''here '', seqs [lit ''in '', words_rx [''this'', ''the''], lit '' '', words_rx [''diff'', ''pr'', ''change''], lit '' '']]),
         words_rx [''earns'', ''warrants'', ''merits'', ''needs'', ''deserves'', ''is worth''], lit '' '', opt (words_rx [''a '', ''any '']),
         words_rx [''comment'', ''flagging'', ''raising'']],
       seqs [lit ''no '', words_rx [''issues'', ''concerns'', ''findings'', ''comments'', ''problems''],
         opt (alts [lit '' found'', seqs [lit '' to '', words_rx [''raise'', ''report'', ''flag'']]]), opt (lit '' here'')],
       seqs [lit ''nothing '', Many (Seq (words_rx [''new'', ''left'', ''substantive'']) (many1 (Cls is_space))),
         alts [seqs [lit ''to '', words_rx [''add'', ''flag'', ''report'', ''raise'', ''comment on'']],
           seqs [lit ''worth '', words_rx [''flagging'', ''raising'', ''a comment'']]]],
       seqs [words_rx [''the provided input'', ''there''], lit '' contain'', opt (lit ''s''), lit '' no comments to rewrite'']],
     Many (Cls (\<lambda>c. \<not> is_word_char c)), AtEnd]"

text \<open>\<open>re.split(r"(?<=[.!?])\s+", line)[-1]\<close>.\<close>

function last_piece :: "string \<Rightarrow> string \<Rightarrow> string" where
  "last_piece acc [] = rev acc"
| "last_piece acc (c # s) = (if is_space c \<and> acc \<noteq> [] \<and> hd acc \<in> set ''.!?'' then last_piece [] (dropWhile is_space s)
     else last_piece (c # acc) s)"
  by pat_completeness auto
termination by (relation "measure (length \<circ> snd)") (auto simp: less_Suc_eq_le length_dropWhile_le)

definition is_no_comment_body :: "string \<Rightarrow> bool" where
  "is_no_comment_body s =
     (let lines = filter (\<lambda>l. l \<noteq> []) (map strip (split_lines (strip s)));
          kept = (if lines \<noteq> [] \<and> lower (rev (dropWhile (\<lambda>c. c = CHR ''.'') (rev (last lines)))) = ''review completed'' then butlast lines else lines)
      in kept \<noteq> [] \<and> rx_match NO_COMMENT_RE (lower (last_piece [] (last kept))))"

definition is_nonsense_body :: "string \<Rightarrow> bool" where
  "is_nonsense_body s = (let stripped = strip_of (\<lambda>c. c = double_quote \<or> c = single_quote) (strip s) in
     lower stripped \<in> set NONSENSE_BODIES \<or> is_no_comment_body stripped \<or> (length stripped < 40 \<and> rx_match BARE_CODE_TOKEN_RE stripped))"

definition CHANGE_SIGNAL_RE :: rx where
  "CHANGE_SIGNAL_RE = seqs [Edge,
     alts [words_rx [''should'', ''shouldn'' @ [single_quote] @ ''t'', ''could'', ''would'', ''consider'', ''instead'', ''rather''],
       seqs [lit ''need'', opt (lit ''s''), many1 (Cls is_space), words_rx [''to'', ''a'', ''an'', ''the'', ''more'', ''some'', ''additional'', ''better'']],
       words_rx [''missing'', ''miss'', ''misses''], seqs [lit ''lack'', opt (lit ''s'')], words_rx [''lacking'', ''add'', ''adding'', ''remove'', ''removing'', ''rename'',
         ''drop'', ''fix'', ''avoid'', ''prefer'', ''unless'', ''but'', ''however'', ''though'', ''although'', ''wrong'',
         ''incorrect'', ''bug'', ''leak'', ''leaks'', ''unsafe'', ''race'', ''deadlock'', ''overflow'', ''npe'', ''risk'',
         ''concern'', ''suggest'', ''recommend'', ''why'', ''what if'', ''not sure'', ''unclear'', ''todo'', ''nit'']],
     Edge]"

definition AFFIRMATION_RE :: rx where
  "AFFIRMATION_RE = seqs [Edge,
     alts [seqs [lit ''look'', opt (lit ''s''), many1 (Cls is_space), words_rx [''good'', ''solid'', ''right'', ''correct'', ''fine'', ''great'', ''reasonable'', ''clean'']],
       lit ''lgtm'',
       seqs [lit ''this '', words_rx [''is'', ''looks''], lit '' '', opt (lit ''exactly ''), words_rx [''what'', ''how''], lit '' '', words_rx [''we'', ''you''],
         lit '' '', words_rx [''need'', ''want'', ''do'']],
       seqs [lit ''this is '', words_rx [''good'', ''correct'', ''fine'', ''right'', ''solid'', ''what we need'']],
       seqs [words_rx [''correctly'', ''properly'', ''safely''], many1 (Cls is_space), many1 (Cls is_word_char), lit ''s'', Edge],
       words_rx [''nicely done'', ''well done''], seqs [lit ''good '', words_rx [''catch'', ''call'', ''job'', ''idea'']],
       lit ''makes sense'', seqs [lit ''seems '', words_rx [''fine'', ''correct'', ''right'', ''good'', ''reasonable'']],
       seqs [lit ''no '', alts [seqs [lit ''issue'', opt (lit ''s'')], seqs [lit ''concern'', opt (lit ''s'')], seqs [lit ''problem'', opt (lit ''s'')]], opt (lit '' here'')]],
     Edge]"

definition is_affirmation_body :: "string \<Rightarrow> bool" where
  "is_affirmation_body body = (let s = strip body in
     if s = [] \<or> CHR ''?'' \<in> set s then False
     else if rx_search CHANGE_SIGNAL_RE (lower s) then False
     else rx_search AFFIRMATION_RE (lower s))"

section \<open>The review\<close>

record review_result =
  rr_overall_vibe :: string
  rr_findings :: "finding list"

definition empty_review :: review_result where
  "empty_review = \<lparr>rr_overall_vibe = [], rr_findings = []\<rparr>"

definition finished :: "finding \<Rightarrow> finding" where
  "finished f = f\<lparr>fd_confidence := dict_get (fd_confidence f) SEVERITY_CONFIDENCE (lower (fd_severity f)), fd_severity := lower (fd_severity f),
     fd_body := coerce_prose (fd_body f), fd_title := coerce_prose (fd_title f)\<rparr>"

definition postable :: "finding \<Rightarrow> bool" where
  "postable f \<longleftrightarrow> strip (fd_body f) \<noteq> [] \<and> \<not> is_nonsense_body (fd_body f) \<and> \<not> is_affirmation_body (fd_body f)"

definition read_item :: "(jdict \<Rightarrow> finding option) \<Rightarrow> json \<Rightarrow> finding option" where
  "read_item validate item = (case item of JObj d \<Rightarrow> (case validate d of None \<Rightarrow> None
     | Some f \<Rightarrow> (if postable (finished f) then Some (finished f) else None)) | _ \<Rightarrow> None)"

definition findings_in :: "json \<Rightarrow> json" where
  "findings_in data = (case data of JObj d \<Rightarrow> dict_get (JList []) d ''findings'' | _ \<Rightarrow> data)"

definition result_of_json :: "(jdict \<Rightarrow> finding option) \<Rightarrow> json \<Rightarrow> review_result" where
  "result_of_json validate data =
     (let vibe = (case data of JObj d \<Rightarrow> (case dict_get (JStr []) d ''overall_vibe'' of JStr v \<Rightarrow> strip v | _ \<Rightarrow> []) | _ \<Rightarrow> [])
      in case findings_in data of JList xs \<Rightarrow> \<lparr>rr_overall_vibe = vibe, rr_findings = List.map_filter (read_item validate) xs\<rparr>
         | _ \<Rightarrow> \<lparr>rr_overall_vibe = vibe, rr_findings = []\<rparr>)"

text \<open>The JSON of an answer: the fenced text, then the first value in it, then in the whole answer.\<close>

definition answer_json :: "string \<Rightarrow> json option" where
  "answer_json original =
     (let fenced = code_fence original; candidate = (case fenced of Some g \<Rightarrow> g | None \<Rightarrow> original) in
      case json_loads candidate of Some v \<Rightarrow> Some v
      | None \<Rightarrow> (case extract_json_blob candidate of Some v \<Rightarrow> Some v
          | None \<Rightarrow> (if fenced \<noteq> None then extract_json_blob original else None)))"

definition parse_llm_review :: "(jdict \<Rightarrow> finding option) \<Rightarrow> string \<Rightarrow> review_result" where
  "parse_llm_review validate raw = (let s = strip raw in
     if s = [] then empty_review
     else case answer_json s of None \<Rightarrow> empty_review | Some data \<Rightarrow> result_of_json validate data)"

definition parse_llm_response :: "(jdict \<Rightarrow> finding option) \<Rightarrow> string \<Rightarrow> finding list" where
  "parse_llm_response validate raw = rr_findings (parse_llm_review validate raw)"

end
