(* ===== verification/ModelCalls.thy ===== *)
theory ModelCalls
  imports ReviewAnswers
begin

text \<open>
  The call to a language model around the answer (\<open>review/backends/base.py\<close>): its errors, how they
  are reported and which of them are final, the review that a backend generates, and the record of
  what a call cost.

  The prompts are strings of the caller. The SDK's call and the database's answer to a new cost
  record are parameters. Numbers of Python's type \<open>float\<close> are rationals.
\<close>

section \<open>Exceptions\<close>

text \<open>
  The exceptions that exist, as a store: an exception refers to its cause and its context, and
  these references can form a cycle. A status is \<open>None\<close> when there is none or it is no integer.
\<close>

record raised =
  ex_name :: string
  ex_status :: "int option"
  ex_text :: string
  ex_cause :: "nat option"
  ex_context :: "nat option"

type_synonym exns = "raised list"

definition next_exn :: "exns \<Rightarrow> nat \<Rightarrow> nat option" where
  "next_exn h i = (case ex_cause (h ! i) of Some j \<Rightarrow> Some j | None \<Rightarrow> ex_context (h ! i))"

text \<open>The exceptions that the loop with \<open>seen\<close> visits.\<close>

function (sequential) chain :: "exns \<Rightarrow> nat list \<Rightarrow> nat option \<Rightarrow> nat list" where
  "chain h seen None = []"
| "chain h seen (Some i) = (if i < length h \<and> i \<notin> set seen then i # chain h (i # seen) (next_exn h i) else [])"
  by pat_completeness auto
termination
proof (relation "measure (\<lambda>(h, seen, _). card ({..<length h} - set seen))")
  fix h :: exns and seen and i
  assume "i < length h \<and> i \<notin> set seen"
  then have "{..<length h} - set (i # seen) \<subset> {..<length h} - set seen" by auto
  then have "card ({..<length h} - set (i # seen)) < card ({..<length h} - set seen)" by (rule psubset_card_mono [rotated]) simp
  then show "((h, i # seen, next_exn h i), (h, seen, Some i)) \<in> measure (\<lambda>(h, seen, _). card ({..<length h} - set seen))" by simp
qed simp

definition OFFLINE_EXC_NAMES :: "string list" where
  "OFFLINE_EXC_NAMES = [''ConnectError'', ''ConnectTimeout'', ''ConnectionError'', ''ConnectionRefusedError'',
     ''NewConnectionError'', ''MaxRetryError'', ''APIConnectionError'', ''ClientConnectorError'',
     ''ServerDisconnectedError'', ''gaierror'']"

definition OFFLINE_MESSAGES :: "string list" where
  "OFFLINE_MESSAGES = [''connection refused'', ''connection error'', ''failed to establish a new connection'',
     ''all connection attempts failed'', ''name or service not known'', ''nodename nor servname'',
     ''cannot connect to host'', ''no route to host'', ''temporary failure in name resolution'']"

definition looks_offline :: "exns \<Rightarrow> nat \<Rightarrow> bool" where
  "looks_offline h e \<longleftrightarrow>
     list_ex (\<lambda>i. ex_name (h ! i) \<in> set OFFLINE_EXC_NAMES) (chain h [] (Some e))
     \<or> list_ex (\<lambda>fragment. sublist fragment (lower (ex_text (h ! e)))) OFFLINE_MESSAGES"

definition refused_status :: "int option \<Rightarrow> bool" where
  "refused_status s \<longleftrightarrow> (case s of None \<Rightarrow> False | Some c \<Rightarrow> c \<in> {401, 403, 404})"

definition is_hard_failure :: "exns \<Rightarrow> nat \<Rightarrow> bool" where
  "is_hard_failure h e =
     (if looks_offline h e then True
      else if refused_status (ex_status (h ! e)) then True
      else list_ex (\<lambda>i. refused_status (ex_status (h ! i))) (chain h [] (Some e)))"

text \<open>What is logged about a failed call; the last one is the traceback.\<close>

datatype logged =
    Bad_credentials
  | Proxy_block
  | Permission_denied
  | Rate_limited
  | Client_error int string
  | Nothing_listening string
  | Traceback

definition offline_reason :: "raised \<Rightarrow> string" where
  "offline_reason x = (if strip (ex_text x) \<noteq> [] then take 200 (hd (split_lines (ex_text x))) else ex_name x)"

definition log_backend_error :: "exns \<Rightarrow> nat \<Rightarrow> logged" where
  "log_backend_error h e =
     (let x = h ! e; offline = (if looks_offline h e then Nothing_listening (offline_reason x) else Traceback) in
      case ex_status x of
        None \<Rightarrow> offline
      | Some c \<Rightarrow>
          if c = 401 then Bad_credentials
          else if c = 403 then
            (let body = lower (ex_text x); is_html = sublist ''<html'' body \<or> sublist ''<!doctype'' body; mentions_api = sublist ''api'' body in
             if is_html \<and> \<not> mentions_api then Proxy_block else Permission_denied)
          else if c = 429 then Rate_limited
          else if 400 \<le> c \<and> c < 500 then Client_error c (ex_text x)
          else offline)"

section \<open>The backend\<close>

text \<open>A backend: the constants of its class, its configuration, and the counters of its last call.\<close>

record model_backend =
  be_default_key_env :: string
  be_default_model :: string
  be_provider :: string
  be_config_model :: string
  be_api_key_env :: string
  be_model :: string
  be_sdk_available :: bool
  be_tokens_in :: int
  be_tokens_out :: int
  be_duration :: "rat option"

definition init_backend :: "bool \<Rightarrow> string \<Rightarrow> string \<Rightarrow> string \<Rightarrow> string \<Rightarrow> string \<Rightarrow> model_backend" where
  "init_backend importable default_env default_model provider model key_env =
     \<lparr>be_default_key_env = default_env, be_default_model = default_model, be_provider = provider, be_config_model = model,
      be_api_key_env = key_env, be_model = (if model \<noteq> [] then model else default_model), be_sdk_available = importable,
      be_tokens_in = 0, be_tokens_out = 0, be_duration = None\<rparr>"

text \<open>The SDK's call: what it sets on the backend, how long it takes, and its text or its exception.\<close>

record api_reply =
  ap_tokens_in :: int
  ap_tokens_out :: int
  ap_elapsed :: rat
  ap_result :: "(exns \<times> nat) + string"

type_synonym api = "string \<Rightarrow> string \<Rightarrow> string \<Rightarrow> api_reply"

definition resolve_api_key :: "(string \<Rightarrow> string option) \<Rightarrow> model_backend \<Rightarrow> string" where
  "resolve_api_key env b = (let key_env = (if be_api_key_env b \<noteq> [] then be_api_key_env b else be_default_key_env b) in
     if key_env = [] then [] else (case env key_env of None \<Rightarrow> [] | Some v \<Rightarrow> v))"

definition invoke :: "api \<Rightarrow> string \<Rightarrow> string \<Rightarrow> string \<Rightarrow> model_backend \<Rightarrow> ((exns \<times> nat) + string) \<times> model_backend" where
  "invoke call system_prompt user_message api_key b =
     (let reply = call system_prompt user_message api_key in
      (ap_result reply, b\<lparr>be_tokens_in := ap_tokens_in reply, be_tokens_out := ap_tokens_out reply, be_duration := Some (ap_elapsed reply)\<rparr>))"

definition label :: "model_backend \<Rightarrow> string" where
  "label b = be_provider b @ ''/'' @ be_model b"

section \<open>What a call costs\<close>

definition COST_PER_MTOK :: "(string \<times> rat \<times> rat) list" where
  "COST_PER_MTOK = [(''claude'', 3, 15), (''openai'', 5/2, 10), (''gemini'', 5/4, 5), (''ollama'', 0, 0), (''vllm'', 0, 0),
     (''llama-cpp'', 0, 0), (''claude-code'', 0, 0), (''stub'', 0, 0)]"

definition estimate_cost :: "string \<Rightarrow> int \<Rightarrow> int \<Rightarrow> rat" where
  "estimate_cost provider tokens_in tokens_out = (let rates = dict_get (3, 15) COST_PER_MTOK provider in
     py_round_to 6 ((of_int tokens_in * fst rates + of_int tokens_out * snd rates) / 1000000))"

record cost_record =
  co_project :: int
  co_pull_request :: "int option"
  co_action_type :: string
  co_backend :: string
  co_tokens_in :: int
  co_tokens_out :: int
  co_estimated_cost_usd :: rat
  co_duration_seconds :: "rat option"
  co_created_at :: int

text \<open>\<open>stored\<close> tells whether the database takes the row; its refusal is only logged.\<close>

definition record_cost :: "(cost_record \<Rightarrow> bool) \<Rightarrow> int \<Rightarrow> model_backend \<Rightarrow> int option \<Rightarrow> int option \<Rightarrow> string \<Rightarrow> cost_record list \<Rightarrow> cost_record list" where
  "record_cost stored now b project_id pr_id action_type rows =
     (if be_tokens_in b = 0 \<and> be_tokens_out b = 0 then rows
      else case project_id of None \<Rightarrow> rows
      | Some p \<Rightarrow> (let row = \<lparr>co_project = p, co_pull_request = pr_id, co_action_type = action_type, co_backend = label b,
            co_tokens_in = be_tokens_in b, co_tokens_out = be_tokens_out b,
            co_estimated_cost_usd = estimate_cost (be_provider b) (be_tokens_in b) (be_tokens_out b),
            co_duration_seconds = be_duration b, co_created_at = now\<rparr>
          in if stored row then rows @ [row] else rows))"

section \<open>The calls\<close>

definition metered_call :: "api \<Rightarrow> (string \<Rightarrow> string option) \<Rightarrow> (cost_record \<Rightarrow> bool) \<Rightarrow> int \<Rightarrow> string \<Rightarrow> string \<Rightarrow> string \<Rightarrow>
    int option \<Rightarrow> int option \<Rightarrow> string option \<Rightarrow> model_backend \<times> cost_record list \<Rightarrow> ((exns \<times> nat) + string) \<times> model_backend \<times> cost_record list" where
  "metered_call call env stored now system_prompt user_message action_type project_id pr_id api_key s =
     (let b = fst s;
          key = (case api_key of None \<Rightarrow> resolve_api_key env b | Some k \<Rightarrow> k);
          answer = invoke call system_prompt user_message key b
      in (fst answer, snd answer, record_cost stored now (snd answer) project_id pr_id action_type (snd s)))"

text \<open>A missing key is logged with the name of the variable, an exception as above.\<close>

datatype backend_note = Key_missing string | Failed logged

definition lacks_key :: "(string \<Rightarrow> string option) \<Rightarrow> model_backend \<Rightarrow> bool" where
  "lacks_key env b \<longleftrightarrow> be_default_key_env b \<noteq> [] \<and> resolve_api_key env b = []"

definition key_missing :: "model_backend \<Rightarrow> backend_note" where
  "key_missing b = Key_missing (if be_api_key_env b \<noteq> [] then be_api_key_env b else be_default_key_env b)"

definition generate_review :: "(jdict \<Rightarrow> finding option) \<Rightarrow> api \<Rightarrow> (string \<Rightarrow> string option) \<Rightarrow> string \<Rightarrow> string \<Rightarrow>
    model_backend \<Rightarrow> review_result \<times> model_backend \<times> backend_note list" where
  "generate_review validate call env system_prompt user_message b =
     (if \<not> be_sdk_available b then (empty_review, b, [])
      else if lacks_key env b then (empty_review, b, [key_missing b])
      else (let answer = invoke call system_prompt user_message (resolve_api_key env b) b in
        case fst answer of
          Inl failure \<Rightarrow> (empty_review, snd answer, [Failed (log_backend_error (fst failure) (snd failure))])
        | Inr raw_text \<Rightarrow> (parse_llm_review validate raw_text, snd answer, [])))"

definition generate_findings :: "(jdict \<Rightarrow> finding option) \<Rightarrow> api \<Rightarrow> (string \<Rightarrow> string option) \<Rightarrow> string \<Rightarrow> string \<Rightarrow>
    model_backend \<Rightarrow> finding list \<times> model_backend \<times> backend_note list" where
  "generate_findings validate call env system_prompt user_message b =
     (let r = generate_review validate call env system_prompt user_message b in (rr_findings (fst r), snd r))"

definition complete :: "api \<Rightarrow> (string \<Rightarrow> string option) \<Rightarrow> string \<Rightarrow> string \<Rightarrow> model_backend \<Rightarrow> string \<times> model_backend \<times> backend_note list" where
  "complete call env system prompt b =
     (if \<not> be_sdk_available b then ([], b, [])
      else if lacks_key env b then ([], b, [key_missing b])
      else (let answer = invoke call system prompt (resolve_api_key env b) b in
        case fst answer of
          Inl failure \<Rightarrow> ([], snd answer, [Failed (log_backend_error (fst failure) (snd failure))])
        | Inr raw_text \<Rightarrow> (raw_text, snd answer, [])))"

end
