(* ===== verification/AnswerProperties.thy ===== *)
theory AnswerProperties
  imports ModelCalls
begin

text \<open>
  What the answers of a language model can and cannot do: which findings come out of one, what its
  wrapping may look like, which failures are final, and that every call is accounted for.
\<close>

section \<open>Exceptions\<close>

text \<open>The exceptions behind one: itself, and what the exceptions behind it refer to next.\<close>

inductive behind :: "exns \<Rightarrow> nat \<Rightarrow> nat \<Rightarrow> bool" for h e where
  itself: "e < length h \<Longrightarrow> behind h e e"
| further: "behind h e i \<Longrightarrow> next_exn h i = Some j \<Longrightarrow> j < length h \<Longrightarrow> behind h e j"

lemma chain_sound:
  "j \<in> set (chain h seen c) \<Longrightarrow> (\<And>i. c = Some i \<Longrightarrow> i < length h \<Longrightarrow> behind h e i) \<Longrightarrow> behind h e j"
proof (induction h seen c rule: chain.induct)
  case (2 h seen i)
  then have i: "i < length h" "i \<notin> set seen" and j: "j = i \<or> j \<in> set (chain h (i # seen) (next_exn h i))"
    by (auto split: if_splits)
  have b: "behind h e i" using "2.prems"(2) i(1) by simp
  from j show ?case
  proof
    assume "j \<in> set (chain h (i # seen) (next_exn h i))"
    then show ?thesis using "2.IH" i b behind.further by blast
  qed (use b in simp)
qed simp

lemma chain_first: "i < length h \<Longrightarrow> i \<notin> set seen \<Longrightarrow> i \<in> set (chain h seen (Some i))"
  by simp

lemma chain_closed:
  "i \<in> set (chain h seen c) \<Longrightarrow> next_exn h i = Some j \<Longrightarrow> j < length h \<Longrightarrow> j \<in> set (chain h seen c) \<union> set seen"
proof (induction h seen c rule: chain.induct)
  case (2 h seen k)
  then have k: "k < length h \<and> k \<notin> set seen" by (auto split: if_splits)
  have unroll: "set (chain h seen (Some k)) = insert k (set (chain h (k # seen) (next_exn h k)))" using k by simp
  from "2.prems"(1) consider "i = k" | "i \<in> set (chain h (k # seen) (next_exn h k))" unfolding unroll by blast
  then show ?case
  proof cases
    case 1
    then have "next_exn h k = Some j" using "2.prems" by simp
    then show ?thesis unfolding unroll using chain_first [OF "2.prems"(3), of "k # seen"] by auto
  next
    case 2
    then show ?thesis unfolding unroll using "2.IH" [OF k 2 "2.prems"(2,3)] by auto
  qed
qed simp

lemma chain_iff: "e < length h \<Longrightarrow> j \<in> set (chain h [] (Some e)) \<longleftrightarrow> behind h e j"
proof
  show "j \<in> set (chain h [] (Some e)) \<Longrightarrow> behind h e j"
    by (erule chain_sound) (simp only: option.inject, blast intro: behind.itself)
  show "behind h e j \<Longrightarrow> j \<in> set (chain h [] (Some e))"
  proof (induction rule: behind.induct)
    case itself
    then show ?case by (intro chain_first) simp_all
  next
    case (further i j)
    then show ?case using chain_closed [OF further.IH further.hyps(2,3)] by (simp del: chain.simps)
  qed
qed

text \<open>
  C17: A failure is final exactly when an exception behind it was refused with 401, 403 or 404, or is one
  of an endpoint that never answered, or when its own message says that nothing is listening. The
  walk returns and misses none, even when the references form a cycle.
\<close>

theorem hard_failure_exact:
  "e < length h \<Longrightarrow> is_hard_failure h e \<longleftrightarrow>
     (\<exists>i. behind h e i \<and> (ex_name (h ! i) \<in> set OFFLINE_EXC_NAMES \<or> refused_status (ex_status (h ! i))))
     \<or> (\<exists>m. m \<in> set OFFLINE_MESSAGES \<and> sublist m (lower (ex_text (h ! e))))"
proof -
  assume e: "e < length h"
  have off: "looks_offline h e \<longleftrightarrow> (\<exists>i. behind h e i \<and> ex_name (h ! i) \<in> set OFFLINE_EXC_NAMES)
      \<or> (\<exists>m. m \<in> set OFFLINE_MESSAGES \<and> sublist m (lower (ex_text (h ! e))))"
    unfolding looks_offline_def list_ex_iff chain_iff [OF e] Bex_def ..
  have ref: "is_hard_failure h e \<longleftrightarrow> looks_offline h e \<or> refused_status (ex_status (h ! e)) \<or> (\<exists>i. behind h e i \<and> refused_status (ex_status (h ! i)))"
    unfolding is_hard_failure_def list_ex_iff chain_iff [OF e] Bex_def by simp
  show ?thesis unfolding ref off using behind.itself [OF e] by blast
qed

definition sample_exns :: exns where
  "sample_exns = [\<lparr>ex_name = ''RuntimeError'', ex_status = None, ex_text = ''call failed'', ex_cause = Some 1, ex_context = None\<rparr>,
     \<lparr>ex_name = ''APIStatusError'', ex_status = Some 403, ex_text = ''no'', ex_cause = None, ex_context = Some 0\<rparr>,
     \<lparr>ex_name = ''RateLimitError'', ex_status = Some 429, ex_text = ''slow down'', ex_cause = None, ex_context = None\<rparr>]"

lemma sample_exns_hard: "is_hard_failure sample_exns 0 \<and> \<not> is_hard_failure sample_exns 2 \<and> length sample_exns = 3"
  by code_simp

theorem hard_failure_exact_witness:
  "\<exists>i. behind sample_exns 0 i \<and> (ex_name (sample_exns ! i) \<in> set OFFLINE_EXC_NAMES \<or> refused_status (ex_status (sample_exns ! i)))"
proof -
  have "\<not> (\<exists>m. m \<in> set OFFLINE_MESSAGES \<and> sublist m (lower (ex_text (sample_exns ! 0))))"
  proof -
    have "\<not> list_ex (\<lambda>m. sublist m (lower (ex_text (sample_exns ! 0)))) OFFLINE_MESSAGES" by code_simp
    then show ?thesis unfolding list_ex_iff by blast
  qed
  moreover have "0 < length sample_exns" "is_hard_failure sample_exns 0" using sample_exns_hard by simp_all
  ultimately show ?thesis using hard_failure_exact [of 0 sample_exns] by blast
qed

text \<open>No failure that the API answered with a status of 4xx is reported with a traceback, and one to which nothing is listening is not either.\<close>

lemma no_traceback_for_answers:
  assumes "ex_status (h ! e) = Some c" "400 \<le> c" "c < 500"
  shows "log_backend_error h e \<noteq> Traceback"
  using assms by (auto simp: log_backend_error_def Let_def)


section \<open>What comes out of an answer\<close>

lemma read_item_Some: "read_item validate item = Some f \<longleftrightarrow>
    (\<exists>d g. item = JObj d \<and> validate d = Some g \<and> f = finished g \<and> postable f)"
  by (cases item) (auto simp: read_item_def split: option.splits)

lemma review_of_findings: "f \<in> set (rr_findings (result_of_json validate data)) \<Longrightarrow> \<exists>item. read_item validate item = Some f"
proof -
  assume f: "f \<in> set (rr_findings (result_of_json validate data))"
  then obtain xs where "f \<in> set (List.map_filter (read_item validate) xs)"
    unfolding result_of_json_def Let_def by (cases "findings_in data") simp_all
  then show ?thesis by (auto simp: List.map_filter_def)
qed

lemma review_findings: "f \<in> set (rr_findings (parse_llm_review validate raw)) \<Longrightarrow> \<exists>item. read_item validate item = Some f"
  unfolding parse_llm_review_def Let_def
  by (auto simp: empty_review_def review_of_findings split: if_splits option.splits)

lemma finished_severity: "fd_severity (finished g) = lower (fd_severity g)"
  "fd_confidence (finished g) = dict_get (fd_confidence g) SEVERITY_CONFIDENCE (lower (fd_severity g))"
  "fd_body (finished g) = coerce_prose (fd_body g)"
  by (simp_all add: finished_def)

lemma known_confidence: "map_of SEVERITY_CONFIDENCE s = Some c \<Longrightarrow> dict_get d SEVERITY_CONFIDENCE s = c"
  by (simp add: dict_get_def)

lemma parsed_is_postable:
  assumes "f \<in> set (rr_findings (parse_llm_review validate raw))"
  shows "postable f \<and> lower (fd_severity f) = fd_severity f \<and>
    (case map_of SEVERITY_CONFIDENCE (fd_severity f) of None \<Rightarrow> True | Some c \<Rightarrow> fd_confidence f = c)"
proof -
  from review_findings [OF assms] obtain d g where g: "f = finished g" and p: "postable f"
    unfolding read_item_Some by blast
  have "lower (fd_severity f) = fd_severity f" unfolding g finished_severity by simp
  moreover have "(case map_of SEVERITY_CONFIDENCE (fd_severity f) of None \<Rightarrow> True | Some c \<Rightarrow> fd_confidence f = c)"
    unfolding g finished_severity by (cases "map_of SEVERITY_CONFIDENCE (lower (fd_severity g))") (simp_all add: known_confidence)
  ultimately show ?thesis using p by blast
qed

text \<open>
  C15: Whatever the model answers and whatever the validator accepts, every finding of the review has a
  body with something to post: not blank, no bare literal or lone token, no verdict that there is
  nothing to comment on, and no mere praise. Its severity is in lower case, and a severity of the
  table sets the confidence, whatever the model claimed.
\<close>

theorem review_is_postable:
  assumes "f \<in> set (parse_llm_response validate raw)"
  shows "strip (fd_body f) \<noteq> [] \<and> \<not> is_nonsense_body (fd_body f) \<and> \<not> is_affirmation_body (fd_body f) \<and>
    lower (fd_severity f) = fd_severity f \<and>
    (case map_of SEVERITY_CONFIDENCE (fd_severity f) of None \<Rightarrow> True | Some c \<Rightarrow> fd_confidence f = c)"
  using parsed_is_postable [of f validate raw] assms unfolding parse_llm_response_def postable_def by blast





section \<open>A fenced answer\<close>

lemma ends_lit: "ends (lit u) (p, u @ s) = [(if u = [] then p else Some (last u), s)]"
  by (induction u arbitrary: p) (simp_all add: lit_def chr_def)

lemma spaces_none: "\<not> is_space c \<Longrightarrow> ends spaces (p, c # s) = [(p, c # s)]"
  by (simp add: spaces_def)

lemma spaces_one: "is_space d \<Longrightarrow> \<not> is_space c \<Longrightarrow> ends spaces (p, d # c # s) = [(Some d, c # s), (p, d # c # s)]"
  by (simp add: spaces_def)

lemma fence_opening:
  assumes "\<not> is_space c"
  shows "ends FENCE_OPENING (p, fence_marks @ ''json'' @ newline # c # s) = [(Some newline, c # s)]"
proof -
  have nl: "is_space newline" "c \<noteq> newline" "CHR ''j'' \<noteq> newline" "\<not> is_space (CHR ''j'')"
    using assms by (auto simp: is_space_def)
  have opt: "ends (opt (lit ''json'')) (q, ''json'' @ t) = [(Some (CHR ''n''), t), (q, ''json'' @ t)]" for q t
    using ends_lit [of "''json''" q t] by (simp add: opt_def)
  have nl_step: "ends (chr newline) (q, x # t) = (if x = newline then [(Some x, t)] else [])" for q x t
    by (simp add: chr_def)
  have spaces_j: "ends spaces (q, ''json'' @ t) = [(q, ''json'' @ t)]" for q t
    using spaces_none [OF nl(4)] by simp
  show ?thesis
    by (simp del: append.simps add: FENCE_OPENING_def seqs_def ends_lit opt spaces_j spaces_one [OF nl(1) assms])
      (simp add: nl_step nl)
qed

lemma no_straddle: "u \<noteq> [] \<Longrightarrow> prefix (newline # fence_marks) (u @ newline # fence_marks) \<Longrightarrow> prefix (newline # fence_marks) u"
proof -
  have b: "backtick \<noteq> newline" by code_simp
  assume "u \<noteq> []" "prefix (newline # fence_marks) (u @ newline # fence_marks)"
  then show ?thesis using b
    by (cases u; cases "tl u"; cases "tl (tl u)"; cases "tl (tl (tl u))") (auto simp: fence_marks_def)
qed

lemma until_fence_end: "\<not> sublist (newline # fence_marks) j \<Longrightarrow> until_fence (j @ newline # fence_marks) = Some j"
proof (induction j)
  case Nil
  show ?case by (subst until_fence.simps) simp
next
  case (Cons c j)
  have "\<not> prefix (newline # fence_marks) ((c # j) @ newline # fence_marks)"
    using no_straddle [of "c # j"] Cons.prems prefix_imp_sublist by blast
  moreover have "until_fence (j @ newline # fence_marks) = Some j" using Cons by (simp add: sublist_Cons_right)
  ultimately show ?case by (subst until_fence.simps) (simp del: prefix_Cons)
qed

definition fenced :: "string \<Rightarrow> string" where
  "fenced j = fence_marks @ ''json'' @ newline # j @ newline # fence_marks"

lemma strip_fenced: "strip (fenced j) = fenced j"
proof -
  have b: "\<not> is_space backtick" by (simp add: backtick_def is_space_def)
  then show ?thesis unfolding strip_def
    by (subst lstrip_no_leading) (auto intro!: rstrip_no_trailing simp: fenced_def fence_marks_def)
qed

lemma code_fence_fenced:
  assumes "j \<noteq> []" "\<not> is_space (hd j)" "\<not> sublist (newline # fence_marks) j"
  shows "code_fence (fenced j) = Some j"
proof -
  from assms(1) obtain c t where j: "j = c # t" by (cases j) auto
  have c: "\<not> is_space c" using assms(2) j by simp
  have "until_fence (j @ newline # fence_marks) = Some j" using assms(3) by (rule until_fence_end)
  moreover have "ends FENCE_OPENING (None, fenced j) = [(Some newline, j @ newline # fence_marks)]"
    using fence_opening [OF c, of None "t @ newline # fence_marks"] unfolding fenced_def j by simp
  ultimately have "List.map_filter (until_fence \<circ> snd) (ends FENCE_OPENING (None, fenced j)) = [j]"
    by (simp add: List.map_filter_def)
  moreover have "fenced j = backtick # tl (fenced j)" by (simp add: fenced_def fence_marks_def)
  ultimately show ?thesis by (metis code_fence.simps(2) list.simps(5))
qed

text \<open>
  C19: A review that comes in a code fence is read as the review itself: the fence costs nothing. The
  review has to be JSON, and the text in the fence has to begin with it and must not contain the
  closing fence.
\<close>

theorem fence_is_transparent:
  assumes "json_loads j = Some v" and "\<not> is_space (hd j)" and "\<not> sublist (newline # fence_marks) j"
  shows "parse_llm_review validate (fenced j) = result_of_json validate v"
proof -
  have j: "j \<noteq> []" using assms(1) by (auto simp: json_loads_def skip_ws_def)
  have f: "fenced j \<noteq> []" by (simp add: fenced_def)
  have "answer_json (fenced j) = Some v"
    unfolding answer_json_def code_fence_fenced [OF j assms(2,3)] by (simp add: assms(1))
  then show ?thesis unfolding parse_llm_review_def strip_fenced using f by simp
qed


section \<open>Samples\<close>

lemma no_fence: "backtick \<notin> set s \<Longrightarrow> code_fence s = None"
proof (induction s)
  case (Cons c s)
  have "c \<noteq> backtick" using Cons.prems by auto
  then have "ends FENCE_OPENING (None, c # s) = []"
    by (simp add: FENCE_OPENING_def seqs_def lit_def fence_marks_def chr_def)
  then show ?case using Cons by (simp add: List.map_filter_def)
qed simp

definition in_quotes :: "string \<Rightarrow> string" where
  "in_quotes s = [double_quote] @ s @ [double_quote]"

text \<open>The part of the validator that the samples need: the body and the severity.\<close>

definition sample_validate :: "jdict \<Rightarrow> finding option" where
  "sample_validate d = (case dict_get (JStr []) d ''body'' of JStr b \<Rightarrow> Some \<lparr>fd_file_path = ''a.py'', fd_line_number = None, fd_title = [],
     fd_body = b, fd_suggestion = [], fd_confidence = 1/2, fd_severity = ''Critical''\<rparr> | _ \<Rightarrow> None)"

definition sample_item :: "string \<Rightarrow> string" where
  "sample_item b = [open_brace] @ in_quotes ''body'' @ '': '' @ in_quotes b @ [close_brace]"

definition sample_review :: string where
  "sample_review = [open_bracket] @ sample_item ''ok, why?'' @ '', '' @ sample_item ''true'' @ [end_bracket]"

definition sample_finding :: finding where
  "sample_finding = \<lparr>fd_file_path = ''a.py'', fd_line_number = None, fd_title = [], fd_body = ''ok, why?'',
     fd_suggestion = [], fd_confidence = 9/10, fd_severity = ''critical''\<rparr>"

definition sample_items :: "json list" where
  "sample_items = [JObj [(''body'', JStr ''ok, why?'')], JObj [(''body'', JStr ''true'')]]"

lemma sample_review_json: "json_loads sample_review = Some (JList sample_items)"
  by code_simp

lemma sample_review_plain:
  "strip sample_review = sample_review" "backtick \<notin> set sample_review" "sample_review \<noteq> []"
  by code_simp+

lemma sample_review_answer: "answer_json (strip sample_review) = Some (JList sample_items)"
  unfolding sample_review_plain(1) answer_json_def no_fence [OF sample_review_plain(2)] by (simp add: sample_review_json)

lemma sample_items_findings: "rr_findings (result_of_json sample_validate (JList sample_items)) = [sample_finding]"
  by code_simp

lemma sample_review_findings: "parse_llm_response sample_validate sample_review = [sample_finding]"
  unfolding parse_llm_response_def parse_llm_review_def sample_review_answer Let_def option.case
  by (simp add: sample_review_plain sample_items_findings)

theorem review_is_postable_witness:
  "\<not> is_nonsense_body (fd_body sample_finding) \<and> \<not> is_affirmation_body (fd_body sample_finding)"
  using review_is_postable [of sample_finding sample_validate sample_review] unfolding sample_review_findings by simp



theorem fence_is_transparent_witness:
  "parse_llm_review sample_validate (fenced sample_review) = result_of_json sample_validate (JList sample_items)"
proof (rule fence_is_transparent [OF sample_review_json])
  show "\<not> is_space (hd sample_review)" by code_simp
  show "\<not> sublist (newline # fence_marks) sample_review" by code_simp
qed

section \<open>A broken body\<close>

text \<open>
  A body that begins with a brace and is no JSON loses more than its wrapper: the leading key that
  is cut off is searched in the whole body, so the first word with a colon goes, wherever it is.
\<close>

lemma key_cut_from_the_middle:
  "coerce_prose (open_brace # ''x is never closed. Note: the lock leaks'') = ''x is never closed.the lock leaks''"
  by code_simp


section \<open>What a call costs\<close>

lemma rates_nonneg: "0 \<le> fst (dict_get (3, 15) COST_PER_MTOK p) \<and> 0 \<le> snd (dict_get (3, 15) COST_PER_MTOK p)"
  by (simp add: dict_get_def COST_PER_MTOK_def)

lemma estimate_nonneg:
  assumes "0 \<le> i" "0 \<le> j"
  shows "0 \<le> estimate_cost p i j"
proof -
  have "0 \<le> (of_int i * fst (dict_get (3, 15) COST_PER_MTOK p) + of_int j * snd (dict_get (3, 15) COST_PER_MTOK p)) / 1000000"
    using rates_nonneg [of p] assms by (simp add: add_nonneg_nonneg)
  from py_round_to_mono [OF this, of 6] show ?thesis by (simp add: estimate_cost_def Let_def)
qed

lemma local_model_free: "p \<in> {''ollama'', ''vllm'', ''llama-cpp'', ''claude-code'', ''stub''} \<Longrightarrow> estimate_cost p i j = 0"
  by (auto simp: estimate_cost_def dict_get_def COST_PER_MTOK_def)

lemma known_rates_of: "map_of COST_PER_MTOK p = None \<Longrightarrow> estimate_cost p i j = estimate_cost ''claude'' i j"
  by (simp add: estimate_cost_def dict_get_def COST_PER_MTOK_def)

text \<open>
  C18: A metered call gives its caller what the API gave it, the text or the exception, and leaves one
  more row when the call used tokens and has a project, also when it failed; the row names the
  backend, the usage and the time of this call and no other. Without usage or project, or when the
  database refuses, the rows are as they were.
\<close>

theorem metered_call_accounts:
  assumes "metered_call call env stored now sys user action project_id pr_id api_key (b, rows) = (answer, b', rows')"
    and "reply = call sys user (case api_key of None \<Rightarrow> resolve_api_key env b | Some k \<Rightarrow> k)"
    and "row = (\<lambda>p. \<lparr>co_project = p, co_pull_request = pr_id, co_action_type = action, co_backend = be_provider b @ ''/'' @ be_model b,
      co_tokens_in = ap_tokens_in reply, co_tokens_out = ap_tokens_out reply,
      co_estimated_cost_usd = estimate_cost (be_provider b) (ap_tokens_in reply) (ap_tokens_out reply),
      co_duration_seconds = Some (ap_elapsed reply), co_created_at = now\<rparr>)"
  shows "answer = ap_result reply \<and>
    rows' = rows @ (case project_id of Some p \<Rightarrow> if (ap_tokens_in reply, ap_tokens_out reply) \<noteq> (0, 0) \<and> stored (row p) then [row p] else []
      | None \<Rightarrow> [])"
proof -
  note e = assms(1) [unfolded metered_call_def invoke_def Let_def fst_conv snd_conv prod.inject, folded assms(2)]
  have a: "answer = ap_result reply" by (rule e [THEN conjunct1, symmetric])
  have b': "b' = b\<lparr>be_tokens_in := ap_tokens_in reply, be_tokens_out := ap_tokens_out reply, be_duration := Some (ap_elapsed reply)\<rparr>"
    by (rule e [THEN conjunct2, THEN conjunct1, symmetric])
  have r: "rows' = record_cost stored now b' project_id pr_id action rows"
    unfolding b' by (rule e [THEN conjunct2, THEN conjunct2, symmetric])
  have lab: "label b' = be_provider b @ ''/'' @ be_model b" unfolding b' label_def by simp
  show ?thesis
  proof (cases project_id)
    case None
    then show ?thesis using a unfolding r record_cost_def by simp
  next
    case (Some p)
    have "row p = \<lparr>co_project = p, co_pull_request = pr_id, co_action_type = action, co_backend = label b',
            co_tokens_in = be_tokens_in b', co_tokens_out = be_tokens_out b',
            co_estimated_cost_usd = estimate_cost (be_provider b') (be_tokens_in b') (be_tokens_out b'),
            co_duration_seconds = be_duration b', co_created_at = now\<rparr>"
      unfolding assms(3) lab unfolding b' by simp
    then have "rows' = (if be_tokens_in b' = 0 \<and> be_tokens_out b' = 0 then rows else if stored (row p) then rows @ [row p] else rows)"
      unfolding r record_cost_def Some Let_def option.case by (simp only:)
    moreover have "be_tokens_in b' = ap_tokens_in reply" "be_tokens_out b' = ap_tokens_out reply" unfolding b' by simp_all
    ultimately show ?thesis using a unfolding Some by (simp only: option.case prod.inject split: if_split) simp
  qed
qed

text \<open>
  A backend whose key is missing calls nobody: the review is empty, whatever the API would have
  said, the backend is unchanged, and the missing variable is reported.
\<close>

theorem no_key_no_call:
  assumes "be_default_key_env b \<noteq> []" and "resolve_api_key env b = []" and "be_sdk_available b"
  shows "generate_review validate call env sys user b = (empty_review, b, [key_missing b]) \<and>
    complete call env sys user b = ([], b, [key_missing b])"
  using assms by (simp add: generate_review_def complete_def lacks_key_def)


definition sample_backend :: model_backend where
  "sample_backend = init_backend True ''ANTHROPIC_API_KEY'' ''m1'' ''claude'' [] []"

definition sample_call :: api where
  "sample_call sys user key = \<lparr>ap_tokens_in = 1000, ap_tokens_out = 200, ap_elapsed = 2, ap_result = Inr key\<rparr>"

definition sample_row :: cost_record where
  "sample_row = \<lparr>co_project = 7, co_pull_request = None, co_action_type = ''tone-guard'', co_backend = ''claude/m1'',
     co_tokens_in = 1000, co_tokens_out = 200, co_estimated_cost_usd = 6/1000, co_duration_seconds = Some 2, co_created_at = 5\<rparr>"

lemma sample_metered:
  "metered_call sample_call (\<lambda>_. Some ''k'') (\<lambda>_. True) 5 [] [] ''tone-guard'' (Some 7) None None (sample_backend, [])
     = (Inr ''k'', sample_backend\<lparr>be_tokens_in := 1000, be_tokens_out := 200, be_duration := Some 2\<rparr>, [sample_row])"
  by code_simp

lemma sample_cost: "estimate_cost ''claude'' 1000 200 = 6/1000"
  by code_simp

theorem metered_call_accounts_witness:
  "[sample_row] = [] @ [\<lparr>co_project = 7, co_pull_request = None, co_action_type = ''tone-guard'', co_backend = ''claude'' @ ''/'' @ ''m1'',
     co_tokens_in = 1000, co_tokens_out = 200, co_estimated_cost_usd = estimate_cost ''claude'' 1000 200,
     co_duration_seconds = Some 2, co_created_at = 5\<rparr>]"
  using metered_call_accounts [OF sample_metered refl refl] by (simp add: sample_call_def sample_backend_def init_backend_def)

theorem no_key_no_call_witness:
  "fst (generate_review sample_validate sample_call (\<lambda>_. None) [] [] sample_backend) = empty_review"
proof -
  have "be_default_key_env sample_backend \<noteq> []" "resolve_api_key (\<lambda>_. None) sample_backend = []" "be_sdk_available sample_backend"
    by (simp_all add: sample_backend_def init_backend_def resolve_api_key_def)
  from no_key_no_call [OF this, of sample_validate sample_call "[]" "[]"] show ?thesis by simp
qed

end
